(* ===== verification/Donna_Prelude.thy ===== *)
theory Donna_Prelude
  imports Complex_Main "HOL-Library.Multiset"
begin

text \<open>
  Shared vocabulary of the development: the theorem collections the components add to, the model's
  type synonyms, the JavaScript operations on arrays and optional fields that every component uses,
  and \<open>Array.prototype.sort\<close> as a stable sort over a comparator, with its laws proved once in the
  locale \<open>comparator\<close> and interpreted by each component on the comparators of the code.
\<close>

section \<open>Collections\<close>

named_theorems donna_enum "the members of the string unions of the code and of the enum columns that mirror them"
named_theorems donna_constraints "the constraints of the tables of the services"

section \<open>Names of the model's types\<close>

text \<open>
  Branded identifiers are strings at run time (\<open>packages/core-domain/src/ids.ts\<close>). Amounts of money,
  token counts and priorities are JavaScript numbers; they are exact rationals here, so rounding of
  IEEE doubles is not modelled. Points in time are milliseconds since the epoch.
\<close>

type_synonym ident = string
type_synonym number = rat
type_synonym time = int

section \<open>Optional fields\<close>

text \<open>\<open>a ?? b\<close>: the right operand when the left one is absent.\<close>

definition coalesce :: "'a option \<Rightarrow> 'a \<Rightarrow> 'a" where
  "coalesce x d = (case x of None \<Rightarrow> d | Some v \<Rightarrow> v)"

lemma coalesce_simps [simp]:
  "coalesce None d = d"
  "coalesce (Some v) d = v"
  by (simp_all add: coalesce_def)

text \<open>\<open>x === true\<close> on an optional flag.\<close>

definition is_true :: "bool option \<Rightarrow> bool" where
  "is_true b = (b = Some True)"

lemma is_true_simps [simp]:
  "is_true None = False"
  "is_true (Some b) = b"
  by (auto simp: is_true_def)

section \<open>Arrays\<close>

text \<open>\<open>xs[0]\<close>, which is \<open>undefined\<close> on the empty array.\<close>

definition first_of :: "'a list \<Rightarrow> 'a option" where
  "first_of xs = (case xs of [] \<Rightarrow> None | x # _ \<Rightarrow> Some x)"

lemma first_of_simps [simp]:
  "first_of [] = None"
  "first_of (x # xs) = Some x"
  by (simp_all add: first_of_def)

lemma first_of_filter: "first_of (filter p xs) = find p xs"
  by (induction xs) auto

lemma find_append: "find p (xs @ ys) = (case find p xs of None \<Rightarrow> find p ys | Some x \<Rightarrow> Some x)"
  by (induction xs) simp_all

lemma find_SomeD: "find p xs = Some x \<Longrightarrow> x \<in> set xs \<and> p x"
  by (induction xs) (auto split: if_splits)

lemma find_None_conv: "find p xs = None \<longleftrightarrow> (\<forall>x \<in> set xs. \<not> p x)"
  by (induction xs) auto

text \<open>\<open>xs.indexOf(x)\<close>: the first position, or \<open>-1\<close>.\<close>

fun index_of :: "'a list \<Rightarrow> 'a \<Rightarrow> int" where
  "index_of [] x = - 1"
| "index_of (y # ys) x =
     (if y = x then 0 else (let i = index_of ys x in if i = - 1 then - 1 else i + 1))"

text \<open>
  Push without duplicates, the closure of \<open>candidateClasses\<close>.
\<close>

definition push_new :: "'a \<Rightarrow> 'a list \<Rightarrow> 'a list" where
  "push_new x xs = (if x \<in> set xs then xs else xs @ [x])"

lemma push_new_props [simp]:
  "set (push_new x xs) = insert x (set xs)"
  "distinct (push_new x xs) = distinct xs"
  by (auto simp: push_new_def)

lemma fold_push_new_props [simp]:
  "set (fold push_new ys xs) = set ys \<union> set xs"
  "distinct (fold push_new ys xs) = distinct xs"
  by (induction ys arbitrary: xs) auto

section \<open>Maps\<close>

text \<open>
  A JavaScript \<open>Map\<close> keeps its keys in insertion order: an association list, where \<open>set\<close> on an
  existing key keeps its place.
\<close>

fun map_set :: "'k \<Rightarrow> 'v \<Rightarrow> ('k \<times> 'v) list \<Rightarrow> ('k \<times> 'v) list" where
  "map_set k v [] = [(k, v)]"
| "map_set k v ((k', v') # m) = (if k' = k then (k, v) # m else (k', v') # map_set k v m)"

lemma map_of_map_set [simp]: "map_of (map_set k v m) = (map_of m)(k \<mapsto> v)"
  by (induction k v m rule: map_set.induct) (auto simp: fun_eq_iff)

lemma keys_map_set: "map fst (map_set k v m) = push_new k (map fst m)"
  by (induction k v m rule: map_set.induct) (auto simp: push_new_def)

section \<open>String unions\<close>

text \<open>
  A TypeScript union of string literals, exported with the array of its members. At run time a value
  is its text; \<open>union_of_text\<close> reads a text back, and \<open>is_union_text\<close> is the membership test
  \<open>(XS as readonly string[]).includes(value)\<close> of the type guards.
\<close>

definition union_of_text :: "('a \<Rightarrow> string) \<Rightarrow> 'a list \<Rightarrow> string \<Rightarrow> 'a option" where
  "union_of_text lit xs s = find (\<lambda>x. lit x = s) xs"

definition is_union_text :: "('a \<Rightarrow> string) \<Rightarrow> 'a list \<Rightarrow> string \<Rightarrow> bool" where
  "is_union_text lit xs s = (s \<in> set (map lit xs))"

locale string_union =
  fixes lit :: "'a \<Rightarrow> string" and members :: "'a list"
  assumes text_inj: "lit x = lit y \<Longrightarrow> x = y"
    and members_all: "x \<in> set members"
begin

lemma of_text_iff: "union_of_text lit members s = Some x \<longleftrightarrow> s = lit x"
proof
  assume "union_of_text lit members s = Some x"
  then show "s = lit x"
    by (auto simp: union_of_text_def dest: find_SomeD)
next
  assume s: "s = lit x"
  show "union_of_text lit members s = Some x"
  proof (cases "find (\<lambda>y. lit y = s) members")
    case None
    with s members_all [of x] show ?thesis by (auto simp: find_None_conv)
  next
    case (Some y)
    with s show ?thesis by (auto simp: union_of_text_def dest!: find_SomeD intro: text_inj)
  qed
qed

lemma of_text_text [simp]: "union_of_text lit members (lit x) = Some x"
  by (simp add: of_text_iff)

lemma is_text_iff: "is_union_text lit members s \<longleftrightarrow> (\<exists>x. s = lit x)"
  using members_all by (auto simp: is_union_text_def)

lemma is_text_of_text: "is_union_text lit members s \<longleftrightarrow> union_of_text lit members s \<noteq> None"
  by (auto simp: is_text_iff of_text_iff)

end

text \<open>What a component checks of a union: its array names every member, with pairwise different texts.\<close>

lemma string_unionI:
  assumes "\<And>x. x \<in> set members" and "distinct (map lit members)"
  shows "string_union lit members"
  by unfold_locales (use assms in \<open>auto simp: distinct_map inj_on_def\<close>)

section \<open>Array.prototype.sort\<close>

text \<open>
  ECMAScript requires \<open>sort\<close> to be stable; for a consistent comparator its result is the one stable
  sorted permutation. \<open>js_sort\<close> computes it by insertion from the right: an element goes before the
  first element it is not greater than, so equal elements keep their order.
\<close>

fun js_insert :: "('a \<Rightarrow> 'a \<Rightarrow> number) \<Rightarrow> 'a \<Rightarrow> 'a list \<Rightarrow> 'a list" where
  "js_insert cmp x [] = [x]"
| "js_insert cmp x (y # ys) = (if cmp x y \<le> 0 then x # y # ys else y # js_insert cmp x ys)"

fun js_sort :: "('a \<Rightarrow> 'a \<Rightarrow> number) \<Rightarrow> 'a list \<Rightarrow> 'a list" where
  "js_sort cmp [] = []"
| "js_sort cmp (x # xs) = js_insert cmp x (js_sort cmp xs)"

lemma mset_js_insert [simp]: "mset (js_insert cmp x xs) = add_mset x (mset xs)"
  by (induction xs) auto

lemma mset_js_sort [simp]: "mset (js_sort cmp xs) = mset xs"
  by (induction xs) auto

lemma set_js_sort [simp]: "set (js_sort cmp xs) = set xs"
  by (metis mset_js_sort set_mset_mset)

lemma length_js_sort [simp]: "length (js_sort cmp xs) = length xs"
  by (metis mset_js_sort size_mset)

lemma js_sort_eq_Nil_iff [simp]: "js_sort cmp xs = [] \<longleftrightarrow> xs = []"
  by (metis length_0_conv length_js_sort)

lemma distinct_js_sort [simp]: "distinct (js_sort cmp xs) = distinct xs"
  by (metis mset_eq_imp_distinct_iff mset_js_sort)

text \<open>What \<open>sort\<close> asks of a comparator: it decides every pair, consistently and transitively.\<close>

locale comparator =
  fixes cmp :: "'a \<Rightarrow> 'a \<Rightarrow> number"
  assumes cmp_antisym: "cmp a b = - cmp b a"
    and cmp_trans: "cmp a b \<le> 0 \<Longrightarrow> cmp b c \<le> 0 \<Longrightarrow> cmp a c \<le> 0"
begin

lemma cmp_total: "cmp a b \<le> 0 \<or> cmp b a \<le> 0"
  using cmp_antisym [of a b] by linarith

lemma cmp_refl [simp]: "cmp a a = 0"
  using cmp_antisym [of a a] by linarith

lemma cmp_not_le: "\<not> cmp a b \<le> 0 \<Longrightarrow> cmp b a \<le> 0"
  using cmp_total by blast

lemma set_js_insert: "set (js_insert cmp x xs) = insert x (set xs)"
  by (metis list.set(2) mset.simps(2) mset_js_insert set_mset_mset)

lemma sorted_js_insert:
  "sorted_wrt (\<lambda>a b. cmp a b \<le> 0) xs \<Longrightarrow> sorted_wrt (\<lambda>a b. cmp a b \<le> 0) (js_insert cmp x xs)"
proof (induction xs)
  case Nil
  then show ?case by simp
next
  case (Cons y ys)
  then show ?case
    by (auto simp: set_js_insert intro: cmp_trans cmp_not_le)
qed

lemma sorted_js_sort: "sorted_wrt (\<lambda>a b. cmp a b \<le> 0) (js_sort cmp xs)"
  by (induction xs) (auto intro: sorted_js_insert)

lemma js_sort_hd_le:
  assumes "js_sort cmp xs = y # ys" and "x \<in> set xs"
  shows "cmp y x \<le> 0"
proof -
  from assms(1) have "sorted_wrt (\<lambda>a b. cmp a b \<le> 0) (y # ys)"
    by (metis sorted_js_sort)
  moreover from assms have "x \<in> set (y # ys)"
    by (metis set_js_sort)
  ultimately show ?thesis by auto
qed

lemma filter_js_insert_neg: "\<not> p x \<Longrightarrow> filter p (js_insert cmp x xs) = filter p xs"
  by (induction xs) auto

text \<open>Stability: the elements equal to a given one keep their order.\<close>

lemma filter_js_insert_eq:
  assumes "cmp x k = 0" and "sorted_wrt (\<lambda>a b. cmp a b \<le> 0) xs"
  shows "filter (\<lambda>y. cmp y k = 0) (js_insert cmp x xs) = x # filter (\<lambda>y. cmp y k = 0) xs"
  using assms(2)
proof (induction xs)
  case Nil
  with assms(1) show ?case by simp
next
  case (Cons y ys)
  show ?case
  proof (cases "cmp x y \<le> 0")
    case True
    with assms(1) show ?thesis by simp
  next
    case False
    have "cmp y k \<noteq> 0"
    proof
      assume "cmp y k = 0"
      then have "cmp k y \<le> 0" using cmp_antisym [of k y] by simp
      with assms(1) have "cmp x y \<le> 0" by (intro cmp_trans [of x k y]) simp_all
      with False show False by simp
    qed
    with Cons False show ?thesis by simp
  qed
qed

lemma js_sort_stable:
  "filter (\<lambda>y. cmp y k = 0) (js_sort cmp xs) = filter (\<lambda>y. cmp y k = 0) xs"
proof (induction xs)
  case Nil
  then show ?case by simp
next
  case (Cons x xs)
  show ?case
  proof (cases "cmp x k = 0")
    case True
    with Cons show ?thesis
      by (simp add: filter_js_insert_eq [OF True sorted_js_sort])
  next
    case False
    with Cons show ?thesis
      by (simp add: filter_js_insert_neg)
  qed
qed

lemma js_sort_sorted_id: "sorted_wrt (\<lambda>a b. cmp a b \<le> 0) xs \<Longrightarrow> js_sort cmp xs = xs"
proof (induction xs)
  case Nil
  then show ?case by simp
next
  case (Cons x xs)
  then show ?case by (cases xs) auto
qed

lemma filter_js_insert_sorted:
  assumes "sorted_wrt (\<lambda>a b. cmp a b \<le> 0) xs"
  shows "filter p (js_insert cmp x xs) = (if p x then js_insert cmp x (filter p xs) else filter p xs)"
  using assms
proof (induction xs)
  case Nil
  then show ?case by simp
next
  case (Cons y ys)
  have front: "js_insert cmp x zs = x # zs" if "\<forall>z \<in> set zs. cmp x z \<le> 0" for zs
    using that by (cases zs) auto
  show ?case
  proof (cases "cmp x y \<le> 0")
    case True
    with Cons.prems have "\<forall>z \<in> set (filter p (y # ys)). cmp x z \<le> 0"
      by (auto intro: cmp_trans)
    then have "js_insert cmp x (filter p (y # ys)) = x # filter p (y # ys)"
      by (rule front)
    with True show ?thesis by simp
  qed (use Cons in simp)
qed

text \<open>Sorting commutes with filtering.\<close>

lemma js_sort_filter: "js_sort cmp (filter p xs) = filter p (js_sort cmp xs)"
  by (induction xs) (simp_all add: filter_js_insert_sorted sorted_js_sort)

end

text \<open>The two shapes of comparator in the code: a difference of keys, and a tie broken by another.\<close>

definition by_key :: "('a \<Rightarrow> number) \<Rightarrow> 'a \<Rightarrow> 'a \<Rightarrow> number" where
  "by_key f a b = f a - f b"

definition or_else :: "('a \<Rightarrow> 'a \<Rightarrow> number) \<Rightarrow> ('a \<Rightarrow> 'a \<Rightarrow> number) \<Rightarrow> 'a \<Rightarrow> 'a \<Rightarrow> number" where
  "or_else c d a b = (if c a b \<noteq> 0 then c a b else d a b)"

lemma comparator_by_key: "comparator (by_key f)"
  by unfold_locales (auto simp: by_key_def)

lemma or_else_le_iff:
  "or_else (by_key f) (by_key g) a b \<le> 0 \<longleftrightarrow> f a < f b \<or> (f a = f b \<and> g a \<le> g b)"
  by (auto simp: or_else_def by_key_def)

lemma comparator_or_else: "comparator (or_else (by_key f) (by_key g))"
proof
  show "or_else (by_key f) (by_key g) a b = - or_else (by_key f) (by_key g) b a" for a b
    by (auto simp: or_else_def by_key_def)
  show "or_else (by_key f) (by_key g) a b \<le> 0 \<Longrightarrow> or_else (by_key f) (by_key g) b c \<le> 0
    \<Longrightarrow> or_else (by_key f) (by_key g) a c \<le> 0" for a b c
    by (auto simp: or_else_le_iff)
qed

end
