(* ===== verification/Core_Domain.thy ===== *)
theory Core_Domain
  imports Donna_Prelude
begin

text \<open>
  The package \<open>packages/core-domain\<close>: authority levels, compute-node modes, event envelopes,
  objectives, roles, scopes, tasks and the task state machine. String unions are datatypes with the
  text of each member; the member arrays keep the source's order.
\<close>

section \<open>Authority levels (authority.ts)\<close>

datatype authority_level =
  OBSERVE | PREPARE | ROUTINE_ACTION | APPROVAL_REQUIRED | NEVER_AUTONOMOUS

fun AUTHORITY_LEVELS :: "authority_level \<Rightarrow> nat" where
  "AUTHORITY_LEVELS OBSERVE = 0"
| "AUTHORITY_LEVELS PREPARE = 1"
| "AUTHORITY_LEVELS ROUTINE_ACTION = 2"
| "AUTHORITY_LEVELS APPROVAL_REQUIRED = 3"
| "AUTHORITY_LEVELS NEVER_AUTONOMOUS = 4"

lemma AUTHORITY_LEVELS_inj [simp]: "AUTHORITY_LEVELS a = AUTHORITY_LEVELS b \<longleftrightarrow> a = b"
  by (cases a; cases b) simp_all

text \<open>The levels are compared as numbers; the instance gives the model's levels that order.\<close>

instantiation authority_level :: linorder
begin

definition less_eq_authority_level :: "authority_level \<Rightarrow> authority_level \<Rightarrow> bool" where
  "less_eq_authority_level a b = (AUTHORITY_LEVELS a \<le> AUTHORITY_LEVELS b)"

definition less_authority_level :: "authority_level \<Rightarrow> authority_level \<Rightarrow> bool" where
  "less_authority_level a b = (AUTHORITY_LEVELS a < AUTHORITY_LEVELS b)"

instance
proof
  fix a b c :: authority_level
  show "a < b \<longleftrightarrow> a \<le> b \<and> \<not> b \<le> a"
    by (auto simp: less_eq_authority_level_def less_authority_level_def)
  show "a \<le> a"
    by (simp add: less_eq_authority_level_def)
  show "a \<le> b \<Longrightarrow> b \<le> c \<Longrightarrow> a \<le> c"
    by (auto simp: less_eq_authority_level_def)
  show "a \<le> b \<Longrightarrow> b \<le> a \<Longrightarrow> a = b"
    by (simp add: less_eq_authority_level_def flip: AUTHORITY_LEVELS_inj)
  show "a \<le> b \<or> b \<le> a"
    by (auto simp: less_eq_authority_level_def)
qed

end

lemmas authority_le = less_eq_authority_level_def less_authority_level_def

definition isAutonomouslyExecutable :: "authority_level \<Rightarrow> bool" where
  "isAutonomouslyExecutable level = (level \<le> ROUTINE_ACTION)"

definition requiresApproval :: "authority_level \<Rightarrow> bool" where
  "requiresApproval level = (level \<ge> APPROVAL_REQUIRED)"

lemma autonomous_or_approval: "isAutonomouslyExecutable l \<longleftrightarrow> \<not> requiresApproval l"
  by (cases l) (simp_all add: isAutonomouslyExecutable_def requiresApproval_def authority_le)

section \<open>Compute nodes (compute-node.ts)\<close>

datatype node_mode = AUTO | OFF | LOCAL_ONLY

datatype node_health = NodeHealthy | NodeDegraded | NodeOffline

definition isDispatchable :: "node_mode \<Rightarrow> node_health \<Rightarrow> bool" where
  "isDispatchable mode health = (mode = AUTO \<and> health = NodeHealthy)"

section \<open>Events (event.ts)\<close>

datatype event_type =
    ET_objective_created | ET_task_created | ET_task_planned | ET_task_assigned
  | ET_worker_started | ET_tool_called | ET_artifact_created | ET_approval_requested
  | ET_approval_decided | ET_task_blocked | ET_task_retried | ET_task_completed
  | ET_task_failed | ET_memory_updated | ET_node_health_changed | ET_system_alert

fun event_type_text :: "event_type \<Rightarrow> string" where
  "event_type_text ET_objective_created = ''objective.created''"
| "event_type_text ET_task_created = ''task.created''"
| "event_type_text ET_task_planned = ''task.planned''"
| "event_type_text ET_task_assigned = ''task.assigned''"
| "event_type_text ET_worker_started = ''worker.started''"
| "event_type_text ET_tool_called = ''tool.called''"
| "event_type_text ET_artifact_created = ''artifact.created''"
| "event_type_text ET_approval_requested = ''approval.requested''"
| "event_type_text ET_approval_decided = ''approval.decided''"
| "event_type_text ET_task_blocked = ''task.blocked''"
| "event_type_text ET_task_retried = ''task.retried''"
| "event_type_text ET_task_completed = ''task.completed''"
| "event_type_text ET_task_failed = ''task.failed''"
| "event_type_text ET_memory_updated = ''memory.updated''"
| "event_type_text ET_node_health_changed = ''node.health_changed''"
| "event_type_text ET_system_alert = ''system.alert''"

definition EVENT_TYPES :: "event_type list" where [donna_enum]:
  "EVENT_TYPES =
     [ET_objective_created, ET_task_created, ET_task_planned, ET_task_assigned,
      ET_worker_started, ET_tool_called, ET_artifact_created, ET_approval_requested,
      ET_approval_decided, ET_task_blocked, ET_task_retried, ET_task_completed,
      ET_task_failed, ET_memory_updated, ET_node_health_changed, ET_system_alert]"

datatype actor_type = ActorHuman | ActorOrchestrator | ActorAdapter | ActorChecker

fun actor_type_text :: "actor_type \<Rightarrow> string" where
  "actor_type_text ActorHuman = ''human''"
| "actor_type_text ActorOrchestrator = ''orchestrator''"
| "actor_type_text ActorAdapter = ''adapter''"
| "actor_type_text ActorChecker = ''checker''"

definition ACTOR_TYPES :: "actor_type list" where [donna_enum]:
  "ACTOR_TYPES = [ActorHuman, ActorOrchestrator, ActorAdapter, ActorChecker]"

record actor =
  actor_kind :: actor_type
  actor_id :: string

record event_envelope =
  ev_id :: ident
  ev_type :: event_type
  ev_organizationId :: ident
  ev_objectiveId :: "ident option"
  ev_taskId :: "ident option"
  ev_actor :: actor
  ev_correlationId :: ident
  ev_causationId :: "ident option"
  ev_payloadRef :: "string option"
  ev_createdAt :: time

definition isEventType :: "string \<Rightarrow> bool" where
  "isEventType value = is_union_text event_type_text EVENT_TYPES value"

interpretation event_types: string_union event_type_text EVENT_TYPES
  by (rule string_unionI) (simp add: donna_enum, (case_tac x; simp), simp add: donna_enum)

interpretation actor_types: string_union actor_type_text ACTOR_TYPES
  by (rule string_unionI) (simp add: donna_enum, (case_tac x; simp), simp add: donna_enum)

section \<open>Roles and scopes (roles.ts, scope.ts)\<close>

datatype role = Owner | Admin | Executive | Team_lead | Team_member | Contractor

fun role_text :: "role \<Rightarrow> string" where
  "role_text Owner = ''owner''"
| "role_text Admin = ''admin''"
| "role_text Executive = ''executive''"
| "role_text Team_lead = ''team_lead''"
| "role_text Team_member = ''team_member''"
| "role_text Contractor = ''contractor''"

definition ROLES :: "role list" where [donna_enum]:
  "ROLES = [Owner, Admin, Executive, Team_lead, Team_member, Contractor]"

definition isRole :: "string \<Rightarrow> bool" where
  "isRole value = is_union_text role_text ROLES value"

interpretation roles: string_union role_text ROLES
  by (rule string_unionI) (simp add: donna_enum, (case_tac x; simp), simp add: donna_enum)

text \<open>
  A scope that comes from a request body is read at its TypeScript type without a check, so a text
  outside the union reaches the policy engine; \<open>Other_scope\<close> is such a text.
\<close>

datatype scope = PRIVATE | PROJECT | TEAM | ORGANIZATION | Other_scope string

fun scope_text :: "scope \<Rightarrow> string" where
  "scope_text PRIVATE = ''PRIVATE''"
| "scope_text PROJECT = ''PROJECT''"
| "scope_text TEAM = ''TEAM''"
| "scope_text ORGANIZATION = ''ORGANIZATION''"
| "scope_text (Other_scope s) = s"

definition SCOPES :: "scope list" where
  "SCOPES = [PRIVATE, PROJECT, TEAM, ORGANIZATION]"

definition isScope :: "string \<Rightarrow> bool" where
  "isScope value = is_union_text scope_text SCOPES value"

definition scope_of_text :: "string \<Rightarrow> scope" where
  "scope_of_text s = coalesce (union_of_text scope_text SCOPES s) (Other_scope s)"

lemma scope_of_text_simps [simp]:
  "scope_of_text ''PRIVATE'' = PRIVATE"
  "scope_of_text ''PROJECT'' = PROJECT"
  "scope_of_text ''TEAM'' = TEAM"
  "scope_of_text ''ORGANIZATION'' = ORGANIZATION"
  by (simp_all add: scope_of_text_def union_of_text_def SCOPES_def)

lemma scope_of_text_known: "isScope s \<longleftrightarrow> scope_of_text s \<in> set SCOPES"
  by (auto simp: isScope_def is_union_text_def scope_of_text_def union_of_text_def SCOPES_def)

section \<open>Source confidence (source-confidence.ts)\<close>

datatype source_confidence = AUTHORITATIVE | PRIMARY | DERIVED | INFERRED | UNVERIFIED

section \<open>Objectives (objective.ts)\<close>

datatype objective_status = OS_draft | OS_active | OS_blocked | OS_completed | OS_cancelled

text \<open>A risk level of a request body is not checked either; \<open>Other_risk\<close> is a text outside the union.\<close>

datatype risk_level = RiskLow | RiskMedium | RiskHigh | RiskCritical | Other_risk string

fun risk_level_text :: "risk_level \<Rightarrow> string" where
  "risk_level_text RiskLow = ''low''"
| "risk_level_text RiskMedium = ''medium''"
| "risk_level_text RiskHigh = ''high''"
| "risk_level_text RiskCritical = ''critical''"
| "risk_level_text (Other_risk s) = s"

definition RISK_LEVELS :: "risk_level list" where
  "RISK_LEVELS = [RiskLow, RiskMedium, RiskHigh, RiskCritical]"

definition risk_level_of_text :: "string \<Rightarrow> risk_level" where
  "risk_level_of_text s = coalesce (union_of_text risk_level_text RISK_LEVELS s) (Other_risk s)"

record objective =
  ob_id :: ident
  ob_scope :: scope
  ob_requesterId :: ident
  ob_ownerId :: ident
  ob_requestedOutcome :: string
  ob_definitionOfDone :: string
  ob_status :: objective_status
  ob_riskLevel :: risk_level
  ob_projectId :: "ident option"
  ob_teamId :: "ident option"
  ob_dueAt :: "time option"
  ob_completionSummary :: "string option"

section \<open>Tasks (task.ts)\<close>

datatype execution_class =
  EC_deterministic | EC_automation | EC_human | EC_browser | EC_coding_agent | EC_local_ai | EC_cloud_ai

fun isAiExecutionClass :: "execution_class \<Rightarrow> bool" where
  "isAiExecutionClass cls = (cls = EC_local_ai \<or> cls = EC_cloud_ai)"

datatype task_status =
    TS_pending | TS_planned | TS_assigned | TS_running | TS_blocked
  | TS_awaiting_approval | TS_checking | TS_completed | TS_failed | TS_cancelled

definition TERMINAL_TASK_STATUSES :: "task_status list" where
  "TERMINAL_TASK_STATUSES = [TS_completed, TS_cancelled]"

definition isTerminalTaskStatus :: "task_status \<Rightarrow> bool" where
  "isTerminalTaskStatus status = (status \<in> set TERMINAL_TASK_STATUSES)"

lemma isTerminalTaskStatus_iff [simp]:
  "isTerminalTaskStatus s \<longleftrightarrow> s = TS_completed \<or> s = TS_cancelled"
  by (auto simp: isTerminalTaskStatus_def TERMINAL_TASK_STATUSES_def)

record task =
  tk_id :: ident
  tk_objectiveId :: ident
  tk_parentTaskId :: "ident option"
  tk_goal :: string
  tk_definitionOfDone :: string
  tk_status :: task_status
  tk_executionClass :: "execution_class option"
  tk_requiredAuthority :: authority_level
  tk_idempotencyKey :: "string option"
  tk_retryCount :: int
  tk_maxRetries :: int

end
