(* ===== verification/Task_Machine.thy ===== *)
theory Task_Machine
  imports Core_Domain
begin

text \<open>
  The durable job lifecycle (\<open>packages/core-domain/src/task-state-machine.ts\<close>): the transition
  table, the guarded \<open>transition\<close> with its retry accounting, runs of it, and the facts the worker
  rests on: terminal states are final, every other state can still finish, retries are bounded.
\<close>

section \<open>The table and the guarded step\<close>

fun ALLOWED_TRANSITIONS :: "task_status \<Rightarrow> task_status list" where
  "ALLOWED_TRANSITIONS TS_pending = [TS_planned, TS_cancelled]"
| "ALLOWED_TRANSITIONS TS_planned = [TS_assigned, TS_blocked, TS_cancelled]"
| "ALLOWED_TRANSITIONS TS_assigned = [TS_running, TS_blocked, TS_cancelled]"
| "ALLOWED_TRANSITIONS TS_running =
     [TS_checking, TS_awaiting_approval, TS_blocked, TS_completed, TS_failed, TS_cancelled]"
| "ALLOWED_TRANSITIONS TS_blocked = [TS_assigned, TS_running, TS_failed, TS_cancelled]"
| "ALLOWED_TRANSITIONS TS_awaiting_approval = [TS_running, TS_failed, TS_cancelled]"
| "ALLOWED_TRANSITIONS TS_checking = [TS_completed, TS_running, TS_failed]"
| "ALLOWED_TRANSITIONS TS_completed = []"
| "ALLOWED_TRANSITIONS TS_failed = [TS_pending, TS_cancelled]"
| "ALLOWED_TRANSITIONS TS_cancelled = []"

datatype task_error = IllegalTaskTransitionError task_status task_status

definition allowedTransitions :: "task_status \<Rightarrow> task_status list" where
  "allowedTransitions src = ALLOWED_TRANSITIONS src"

definition canTransition :: "task_status \<Rightarrow> task_status \<Rightarrow> bool" where
  "canTransition src dst = (dst \<in> set (ALLOWED_TRANSITIONS src))"

definition transition :: "task \<Rightarrow> task_status \<Rightarrow> task_error + task" where
  "transition t dst =
     (if \<not> canTransition (tk_status t) dst then Inl (IllegalTaskTransitionError (tk_status t) dst)
      else
        let isRetry = (tk_status t = TS_failed \<and> dst = TS_pending) in
        if isRetry \<and> tk_retryCount t \<ge> tk_maxRetries t
        then Inl (IllegalTaskTransitionError (tk_status t) dst)
        else Inr (t\<lparr>tk_status := dst,
                    tk_retryCount := (if isRetry then tk_retryCount t + 1 else tk_retryCount t)\<rparr>))"

definition isDone :: "task \<Rightarrow> bool" where
  "isDone t = isTerminalTaskStatus (tk_status t)"

lemma canTransition_pending [simp]: "canTransition s TS_pending \<longleftrightarrow> s = TS_failed"
  by (cases s) (simp_all add: canTransition_def)

lemma canTransition_from_failed [simp]:
  "canTransition TS_failed s \<longleftrightarrow> s = TS_pending \<or> s = TS_cancelled"
  by (auto simp: canTransition_def)

lemma terminal_no_transition: "isTerminalTaskStatus s \<longleftrightarrow> ALLOWED_TRANSITIONS s = []"
  by (cases s) simp_all

section \<open>Runs\<close>

text \<open>A sequence of requested statuses, applied until the first refusal.\<close>

fun run_transitions :: "task \<Rightarrow> task_status list \<Rightarrow> task_error + task" where
  "run_transitions t [] = Inr t"
| "run_transitions t (s # ss) =
     (case transition t s of Inl e \<Rightarrow> Inl e | Inr t' \<Rightarrow> run_transitions t' ss)"

text \<open>The step relation on tasks, and the tasks reachable from a given one.\<close>

inductive task_step :: "task \<Rightarrow> task \<Rightarrow> bool" where
  step: "transition t s = Inr t' \<Longrightarrow> task_step t t'"

inductive_cases task_stepE: "task_step t t'"

inductive reachable_task :: "task \<Rightarrow> task \<Rightarrow> bool" for t0 where
  start: "reachable_task t0 t0"
| next_task: "reachable_task t0 t \<Longrightarrow> task_step t t' \<Longrightarrow> reachable_task t0 t'"

lemma transition_InrD:
  assumes "transition t s = Inr t'"
  shows "canTransition (tk_status t) s"
    and "tk_status t' = s"
    and "tk_maxRetries t' = tk_maxRetries t"
    and "tk_retryCount t' =
           tk_retryCount t + (if tk_status t = TS_failed \<and> s = TS_pending then 1 else 0)"
    and "tk_status t = TS_failed \<and> s = TS_pending \<Longrightarrow> tk_retryCount t < tk_maxRetries t"
  using assms by (auto simp: transition_def Let_def split: if_splits)

lemma transition_Inr_iff:
  "(\<exists>t'. transition t s = Inr t') \<longleftrightarrow>
     canTransition (tk_status t) s
     \<and> (tk_status t = TS_failed \<and> s = TS_pending \<longrightarrow> tk_retryCount t < tk_maxRetries t)"
  by (auto simp: transition_def Let_def)

lemma run_transitions_reachable:
  "run_transitions t ss = Inr t' \<Longrightarrow> reachable_task t0 t \<Longrightarrow> reachable_task t0 t'"
proof (induction ss arbitrary: t)
  case Nil
  then show ?case by simp
next
  case (Cons s ss)
  from Cons.prems(1) obtain t1
    where t1: "transition t s = Inr t1" and rest: "run_transitions t1 ss = Inr t'"
    by (auto split: sum.splits)
  from Cons.prems(2) t1 have "reachable_task t0 t1"
    by (blast intro: reachable_task.next_task task_step.step)
  with rest show ?case by (rule Cons.IH)
qed

lemma run_from_terminal: "isDone t \<Longrightarrow> run_transitions t ss = Inr t' \<Longrightarrow> ss = []"
  by (cases ss)
    (auto simp: isDone_def canTransition_def transition_def Let_def split: sum.splits if_splits)

lemma reachable_task_retry_bound:
  "reachable_task t0 t \<Longrightarrow> tk_retryCount t0 \<le> tk_maxRetries t0 \<Longrightarrow>
     tk_maxRetries t = tk_maxRetries t0 \<and> tk_retryCount t0 \<le> tk_retryCount t
     \<and> tk_retryCount t \<le> tk_maxRetries t"
proof (induction rule: reachable_task.induct)
  case start
  then show ?case by simp
next
  case (next_task t t')
  from next_task.hyps(2) obtain s where "transition t s = Inr t'" by (rule task_stepE)
  from transition_InrD [OF this] next_task show ?case by auto
qed

text \<open>
  A failure costs a retry: entering \<open>failed\<close> again needs \<open>failed \<rightarrow> pending\<close> in between, which spends
  one of the remaining retries.
\<close>

lemma run_failures_bounded_gen:
  "run_transitions t ss = Inr t' \<Longrightarrow>
     int (count_list ss TS_failed) + (if tk_status t = TS_failed then 1 else 0)
       \<le> max 0 (tk_maxRetries t - tk_retryCount t) + 1"
proof (induction ss arbitrary: t)
  case Nil
  then show ?case by simp
next
  case (Cons s ss)
  then obtain t1 where t1: "transition t s = Inr t1" and rest: "run_transitions t1 ss = Inr t'"
    by (auto split: sum.splits)
  note st = transition_InrD [OF t1]
  have "s = TS_failed \<Longrightarrow> tk_status t \<noteq> TS_failed"
    using st(1) by auto
  moreover have "s = TS_cancelled \<Longrightarrow> ss = []"
    using run_from_terminal [OF _ rest] st(2) by (simp add: isDone_def)
  ultimately show ?case
    using Cons.IH [OF rest] st by (auto split: if_splits)
qed

lemma run_retry_count:
  "run_transitions t ss = Inr t' \<Longrightarrow>
     tk_retryCount t' = tk_retryCount t + int (count_list ss TS_pending)"
proof (induction ss arbitrary: t)
  case Nil
  then show ?case by simp
next
  case (Cons s ss)
  then obtain t1 where t1: "transition t s = Inr t1" and rest: "run_transitions t1 ss = Inr t'"
    by (auto split: sum.splits)
  have "s = TS_pending \<Longrightarrow> tk_status t = TS_failed"
    using transition_InrD(1) [OF t1] by simp
  with Cons.IH [OF rest] transition_InrD(4) [OF t1] show ?case by auto
qed

text \<open>A status path from every status to a terminal one.\<close>

fun finish_path :: "task_status \<Rightarrow> task_status list" where
  "finish_path TS_completed = []"
| "finish_path TS_cancelled = []"
| "finish_path TS_checking = [TS_completed]"
| "finish_path s = [TS_cancelled]"

lemma finish_path_runs:
  "\<exists>t'. run_transitions t (finish_path (tk_status t)) = Inr t' \<and> isDone t'"
  by (cases "tk_status t") (simp_all add: transition_def canTransition_def Let_def isDone_def)

section \<open>Properties\<close>

text \<open>
  In every sequence of transitions that the machine accepts from a task within its retry budget,
  the retry counter never exceeds the budget and never decreases, it counts the \<open>failed \<rightarrow> pending\<close>
  steps, and the task fails at most once more than the retries it has left.
\<close>

theorem run_retries_bounded:
  assumes "run_transitions t ss = Inr t'" and "tk_retryCount t \<le> tk_maxRetries t"
  shows "tk_retryCount t' \<le> tk_maxRetries t'
    \<and> tk_maxRetries t' = tk_maxRetries t
    \<and> tk_retryCount t' = tk_retryCount t + int (count_list ss TS_pending)
    \<and> int (count_list ss TS_failed) \<le> tk_maxRetries t - tk_retryCount t + 1"
proof -
  have "reachable_task t t'"
    using assms(1) reachable_task.start by (rule run_transitions_reachable)
  moreover have "tk_retryCount t' = tk_retryCount t + int (count_list ss TS_pending)"
    using assms(1) by (rule run_retry_count)
  ultimately show ?thesis
    using reachable_task_retry_bound [of t t'] run_failures_bounded_gen [OF assms(1)] assms(2)
    by (auto split: if_splits)
qed

definition sample_task :: task where
  "sample_task =
     \<lparr>tk_id = ''t1'', tk_objectiveId = ''o1'', tk_parentTaskId = None, tk_goal = ''goal'',
      tk_definitionOfDone = ''done'', tk_status = TS_running, tk_executionClass = None,
      tk_requiredAuthority = PREPARE, tk_idempotencyKey = None, tk_retryCount = 0, tk_maxRetries = 1\<rparr>"

theorem run_retries_bounded_witness:
  "\<exists>t'. run_transitions sample_task [TS_failed, TS_pending, TS_planned, TS_assigned, TS_running, TS_failed] = Inr t'
     \<and> tk_retryCount t' \<le> tk_maxRetries t'"
proof -
  have "\<exists>t'. run_transitions sample_task
      [TS_failed, TS_pending, TS_planned, TS_assigned, TS_running, TS_failed] = Inr t'"
    by (simp add: sample_task_def transition_def canTransition_def Let_def)
  moreover have "tk_retryCount sample_task \<le> tk_maxRetries sample_task"
    by (simp add: sample_task_def)
  ultimately show ?thesis using run_retries_bounded by blast
qed

text \<open>
  A task is done exactly when no transition is accepted from it, and from every other state a
  terminal state is one accepted run away: no task is stuck, not even one out of retries.
\<close>

theorem done_iff_stuck:
  "(isDone t \<longleftrightarrow> (\<forall>s. \<exists>e. transition t s = Inl e))
   \<and> (\<exists>ss t'. length ss \<le> 1 \<and> run_transitions t ss = Inr t' \<and> isDone t')"
proof
  show "isDone t \<longleftrightarrow> (\<forall>s. \<exists>e. transition t s = Inl e)"
  proof
    assume "isDone t"
    then show "\<forall>s. \<exists>e. transition t s = Inl e"
      by (auto simp: isDone_def transition_def canTransition_def)
  next
    assume stuck: "\<forall>s. \<exists>e. transition t s = Inl e"
    obtain t' where run: "run_transitions t (finish_path (tk_status t)) = Inr t'" and "isDone t'"
      using finish_path_runs by blast
    show "isDone t"
    proof (cases "finish_path (tk_status t)")
      case Nil
      with run \<open>isDone t'\<close> show ?thesis by simp
    next
      case (Cons s ss)
      from stuck obtain e where "transition t s = Inl e" by blast
      with run Cons show ?thesis by simp
    qed
  qed
  have "length (finish_path (tk_status t)) \<le> 1"
    by (cases "tk_status t") simp_all
  then show "\<exists>ss t'. length ss \<le> 1 \<and> run_transitions t ss = Inr t' \<and> isDone t'"
    using finish_path_runs by blast
qed

end
