(* ===== verification/Js_Values.thy ===== *)
theory Js_Values
  imports Donna_Prelude "HOL-Library.Char_ord" "HOL-Library.List_Lexorder"
begin

text \<open>
  JavaScript values that arrive at run time as \<open>unknown\<close>: JSON-like values with \<open>undefined\<close>, over a
  type of numbers, and the standard-library operations the code applies to them
  (\<open>JSON.stringify\<close> of primitives, \<open>Array.prototype.join\<close>, \<open>String.prototype.trim\<close> and
  \<open>toLowerCase\<close>). Strings are lists of 8-bit characters, so text outside Latin-1 is not modelled.
  Objects are association lists in insertion order; \<open>distinct_keys\<close> says that each key occurs once.
\<close>

section \<open>Values\<close>

datatype 'n jsval =
    JUndefined
  | JNull
  | JBool bool
  | JNum 'n
  | JStr string
  | JArr "'n jsval list"
  | JObj "(string \<times> 'n jsval) list"

text \<open>A JavaScript number as a payload can hold it; arithmetic is only done on finite ones.\<close>

datatype jsnum = Finite number | Infinite bool | NotANumber

type_synonym js = "jsnum jsval"

text \<open>\<open>record[key]\<close>, \<open>undefined\<close> when the key is absent.\<close>

definition js_get :: "(string \<times> 'n jsval) list \<Rightarrow> string \<Rightarrow> 'n jsval" where
  "js_get kvs k = coalesce (map_of kvs k) JUndefined"

lemma js_get_simps [simp]:
  "js_get [] k = JUndefined"
  "js_get ((k', v) # kvs) k = (if k' = k then v else js_get kvs k)"
  by (auto simp: js_get_def)

lemma js_get_append:
  "js_get (xs @ ys) k = (if k \<in> fst ` set xs then js_get xs k else js_get ys k)"
  by (induction xs) (simp_all add: js_get_def case_prod_beta del: map_of_append)

lemma js_get_notin: "k \<notin> fst ` set xs \<Longrightarrow> js_get xs k = JUndefined"
  by (induction xs) auto

fun distinct_keys :: "'n jsval \<Rightarrow> bool" where
  "distinct_keys (JArr vs) = (\<forall>v \<in> set vs. distinct_keys v)"
| "distinct_keys (JObj kvs) = (distinct (map fst kvs) \<and> (\<forall>kv \<in> set kvs. distinct_keys (snd kv)))"
| "distinct_keys v = True"

section \<open>Text\<close>

text \<open>\<open>xs.join(sep)\<close>.\<close>

fun join_with :: "string \<Rightarrow> string list \<Rightarrow> string" where
  "join_with sep [] = []"
| "join_with sep [x] = x"
| "join_with sep (x # y # ys) = x @ sep @ join_with sep (y # ys)"

lemma join_with_Cons: "join_with sep (x # xs) = x @ (if xs = [] then [] else sep @ join_with sep xs)"
  by (cases xs) auto

text \<open>White space of \<open>trim\<close> and of the regular expression class \<open>\s\<close>.\<close>

definition js_space :: "char \<Rightarrow> bool" where
  "js_space c = (let n = of_char c :: nat in (9 \<le> n \<and> n \<le> 13) \<or> n = 32 \<or> n = 160)"

definition js_trim :: "string \<Rightarrow> string" where
  "js_trim s = rev (dropWhile js_space (rev (dropWhile js_space s)))"

definition js_lower_char :: "char \<Rightarrow> char" where
  "js_lower_char c =
     (let n = of_char c :: nat in
      if (65 \<le> n \<and> n \<le> 90) \<or> (192 \<le> n \<and> n \<le> 222 \<and> n \<noteq> 215) then char_of (n + 32) else c)"

definition js_lower :: "string \<Rightarrow> string" where
  "js_lower s = map js_lower_char s"

text \<open>The decimal text of a non-negative integer and of an integer.\<close>

definition digit_char :: "nat \<Rightarrow> char" where
  "digit_char d = char_of (48 + d)"

fun nat_text :: "nat \<Rightarrow> string" where
  "nat_text n = (if n < 10 then [digit_char n] else nat_text (n div 10) @ [digit_char (n mod 10)])"

declare nat_text.simps [simp del]

definition js_integer_text :: "int \<Rightarrow> string" where
  "js_integer_text i = (if i < 0 then CHR ''-'' # nat_text (nat (- i)) else nat_text (nat i))"

definition read_digits :: "string \<Rightarrow> nat" where
  "read_digits s = foldl (\<lambda>n c. 10 * n + (of_char c - 48)) 0 s"

lemma of_char_digit_char [simp]: "d < 10 \<Longrightarrow> of_char (digit_char d) = 48 + d"
  by (simp add: digit_char_def)

lemma read_nat_text: "read_digits (nat_text n) = n"
proof (induction n rule: nat_text.induct)
  case (1 n)
  then show ?case
    by (subst nat_text.simps) (auto simp: read_digits_def)
qed

lemma nat_text_digits: "c \<in> set (nat_text n) \<Longrightarrow> 48 \<le> (of_char c :: nat) \<and> (of_char c :: nat) \<le> 57"
proof (induction n rule: nat_text.induct)
  case (1 n)
  show ?case
  proof (cases "n < 10")
    case True
    with "1.prems" show ?thesis by (simp add: nat_text.simps)
  next
    case False
    with 1 show ?thesis by (subst (asm) (2) nat_text.simps) auto
  qed
qed

lemma nat_text_nonempty: "nat_text n \<noteq> []"
  by (subst nat_text.simps) simp

lemma nat_text_inj: "nat_text m = nat_text n \<Longrightarrow> m = n"
  by (metis read_nat_text)

lemma js_integer_text_chars:
  "c \<in> set (js_integer_text i) \<Longrightarrow> c = CHR ''-'' \<or> (48 \<le> (of_char c :: nat) \<and> (of_char c :: nat) \<le> 57)"
  by (auto simp: js_integer_text_def dest: nat_text_digits split: if_splits)

lemma js_integer_text_inj: "js_integer_text i = js_integer_text j \<Longrightarrow> i = j"
proof -
  have minus: "CHR ''-'' # xs \<noteq> nat_text n" for xs n
  proof
    assume "CHR ''-'' # xs = nat_text n"
    then have "CHR ''-'' \<in> set (nat_text n)" by (metis list.set_intros(1))
    from nat_text_digits [OF this] show False by simp
  qed
  assume "js_integer_text i = js_integer_text j"
  with minus minus [symmetric] show "i = j"
    by (auto simp: js_integer_text_def dest: nat_text_inj split: if_splits)
qed

section \<open>JSON.stringify of strings\<close>

definition hex_char :: "nat \<Rightarrow> char" where
  "hex_char d = (if d < 10 then char_of (48 + d) else char_of (87 + d))"

definition quote_char :: "char \<Rightarrow> string" where
  "quote_char c =
     (let n = of_char c :: nat in
      if n = 34 then [CHR 0x5C, CHR 0x22]
      else if n = 92 then [CHR 0x5C, CHR 0x5C]
      else if n = 8 then [CHR 0x5C, CHR ''b'']
      else if n = 9 then [CHR 0x5C, CHR ''t'']
      else if n = 10 then [CHR 0x5C, CHR ''n'']
      else if n = 12 then [CHR 0x5C, CHR ''f'']
      else if n = 13 then [CHR 0x5C, CHR ''r'']
      else if n < 32 then [CHR 0x5C, CHR ''u'', CHR ''0'', CHR ''0'', hex_char (n div 16), hex_char (n mod 16)]
      else [c])"

definition quote :: "string \<Rightarrow> string" where
  "quote s = [CHR 0x22] @ concat (map quote_char s) @ [CHR 0x22]"

text \<open>Reading one quoted character back shows that quoting is a prefix code.\<close>

definition unhex :: "char \<Rightarrow> nat" where
  "unhex c = (let n = of_char c in if n < 58 then n - 48 else n - 87)"

fun unquote_char :: "string \<Rightarrow> (char \<times> string) option" where
  "unquote_char (c # d # r) =
     (if c \<noteq> CHR 0x5C then Some (c, d # r)
      else if d = CHR ''b'' then Some (CHR 0x08, r)
      else if d = CHR ''t'' then Some (CHR 0x09, r)
      else if d = CHR ''n'' then Some (CHR 0x0A, r)
      else if d = CHR ''f'' then Some (CHR 0x0C, r)
      else if d = CHR ''r'' then Some (CHR 0x0D, r)
      else if d = CHR ''u'' then
        (case r of a # b # h # l # r' \<Rightarrow> Some (char_of (16 * unhex h + unhex l), r') | _ \<Rightarrow> None)
      else Some (d, r))"
| "unquote_char [c] = Some (c, [])"
| "unquote_char [] = None"

lemma unhex_hex_char: "d < 16 \<Longrightarrow> unhex (hex_char d) = d"
  by (auto simp: unhex_def hex_char_def Let_def)

lemma char_codeI: "(of_char c :: nat) = of_char d \<Longrightarrow> c = d"
  by (metis char_of_char)

lemma quote_char_cases:
  obtains "c = CHR 0x22" | "c = CHR 0x5C" | "c = CHR 0x08" | "c = CHR 0x09" | "c = CHR 0x0A"
    | "c = CHR 0x0C" | "c = CHR 0x0D"
    | (control) "(of_char c :: nat) < 32"
        "quote_char c = [CHR 0x5C, CHR ''u'', CHR ''0'', CHR ''0'',
           hex_char (of_char c div 16), hex_char (of_char c mod 16)]"
    | (plain) "c \<noteq> CHR 0x22" "c \<noteq> CHR 0x5C" "quote_char c = [c]"
proof (cases "(of_char c :: nat) \<in> set [34, 92, 8, 9, 10, 12, 13]")
  case True
  then have "c \<in> {CHR 0x22, CHR 0x5C, CHR 0x08, CHR 0x09, CHR 0x0A, CHR 0x0C, CHR 0x0D}"
    by (auto intro: char_codeI)
  then show thesis using that(1-7) by blast
next
  case other: False
  show thesis
  proof (cases "(of_char c :: nat) < 32")
    case True
    with other show thesis by (intro control) (simp_all add: quote_char_def Let_def)
  next
    case False
    from other have "c \<noteq> CHR 0x22" "c \<noteq> CHR 0x5C" by auto
    with False other show thesis by (intro plain) (simp_all add: quote_char_def Let_def)
  qed
qed

lemma unquote_quote_char: "unquote_char (quote_char c @ d # r) = Some (c, d # r)"
proof (cases c rule: quote_char_cases)
  case control
  have "16 * (of_char c div 16) + of_char c mod 16 = (of_char c :: nat)" by simp
  with control show ?thesis
    by (simp add: unhex_hex_char)
qed (simp_all add: quote_char_def Let_def)

lemma quote_char_not_quote: "\<exists>d ds. quote_char c = d # ds \<and> d \<noteq> CHR 0x22"
  by (cases c rule: quote_char_cases) (simp_all add: quote_char_def Let_def)

lemma quote_chars_prefix:
  "concat (map quote_char s) @ CHR 0x22 # r = concat (map quote_char t) @ CHR 0x22 # r' \<Longrightarrow>
     s = t \<and> r = r'"
proof (induction s arbitrary: t)
  case Nil
  show ?case
  proof (cases t)
    case (Cons d t')
    with Nil quote_char_not_quote [of d] show ?thesis by auto
  qed (use Nil in simp)
next
  case (Cons c s)
  show ?case
  proof (cases t)
    case Nil
    with Cons.prems quote_char_not_quote [of c] show ?thesis by auto
  next
    case (Cons d t')
    let ?x = "concat (map quote_char s) @ CHR 0x22 # r"
    let ?y = "concat (map quote_char t') @ CHR 0x22 # r'"
    obtain a xs where x: "?x = a # xs" by (cases ?x) auto
    obtain b ys where y: "?y = b # ys" by (cases ?y) auto
    from Cons.prems Cons have "quote_char c @ ?x = quote_char d @ ?y" by simp
    with x y have "Some (c, ?x) = Some (d, ?y)"
      by (metis unquote_quote_char)
    then have "c = d" and "?x = ?y" by auto
    with Cons.IH [of t'] Cons show ?thesis by simp
  qed
qed

lemma quote_prefix: "quote s @ r = quote t @ r' \<Longrightarrow> s = t \<and> r = r'"
  using quote_chars_prefix [of s r t r'] by (simp add: quote_def)

lemma quote_eq_Cons: "quote s = CHR 0x22 # tl (quote s)"
  by (simp add: quote_def)

end
