(* ===== verification/Policy_Engine.thy ===== *)
theory Policy_Engine
  imports Core_Domain
begin

text \<open>
  The deterministic permission engine (\<open>packages/policy/src\<close>: types.ts, roles.ts, kill-switches.ts,
  engine.ts). \<open>evaluate\<close> is the source's function, branch by branch and with its messages; the
  lemmas characterise when it allows, defers to approval or denies, and order its denials.
\<close>

section \<open>Types (types.ts)\<close>

datatype actor_kind = KindHuman | KindAgent

record principal_context =
  pr_userId :: ident
  pr_organizationId :: ident
  pr_role :: role
  pr_actorKind :: actor_kind
  pr_teamIds :: "ident list"
  pr_projectIds :: "ident list"

datatype capability_category =
  outbound_comms | browser_actions | deployments | api_spend | local_compute

record action_descriptor =
  ac_name :: string
  ac_authorityLevel :: authority_level
  ac_sideEffecting :: bool
  ac_capability :: "capability_category option"

record resource_descriptor =
  rs_organizationId :: ident
  rs_scope :: scope
  rs_ownerUserId :: "ident option"
  rs_teamId :: "ident option"
  rs_projectId :: "ident option"

record kill_switch_state =
  ks_globalPause :: bool
  ks_disabledCapabilities :: "capability_category list"

datatype policy_effect = Allow | Deny | Requires_approval

datatype policy_reason =
    PR_ok | PR_approval_required | PR_cross_tenant | PR_scope_denied
  | PR_insufficient_authority | PR_never_autonomous | PR_kill_switch

record policy_decision =
  pd_effect :: policy_effect
  pd_reason :: policy_reason
  pd_message :: string

record policy_input =
  pi_principal :: principal_context
  pi_action :: action_descriptor
  pi_resource :: resource_descriptor
  pi_killSwitches :: "kill_switch_state option"
  pi_roleCeilings :: "(role \<Rightarrow> authority_level) option"

section \<open>Role ceilings and kill switches (roles.ts, kill-switches.ts)\<close>

fun DEFAULT_ROLE_CEILINGS :: "role \<Rightarrow> authority_level" where
  "DEFAULT_ROLE_CEILINGS Owner = NEVER_AUTONOMOUS"
| "DEFAULT_ROLE_CEILINGS Admin = NEVER_AUTONOMOUS"
| "DEFAULT_ROLE_CEILINGS Executive = APPROVAL_REQUIRED"
| "DEFAULT_ROLE_CEILINGS Team_lead = APPROVAL_REQUIRED"
| "DEFAULT_ROLE_CEILINGS Team_member = ROUTINE_ACTION"
| "DEFAULT_ROLE_CEILINGS Contractor = PREPARE"

definition NO_KILL_SWITCHES :: kill_switch_state where
  "NO_KILL_SWITCHES = \<lparr>ks_globalPause = False, ks_disabledCapabilities = []\<rparr>"

definition isBlockedByKillSwitch :: "action_descriptor \<Rightarrow> kill_switch_state \<Rightarrow> bool" where
  "isBlockedByKillSwitch action state =
     (if \<not> ac_sideEffecting action then False
      else if ks_globalPause state then True
      else (case ac_capability action of
              None \<Rightarrow> False
            | Some c \<Rightarrow> c \<in> set (ks_disabledCapabilities state)))"

lemma no_kill_switches [simp]: "isBlockedByKillSwitch a NO_KILL_SWITCHES = False"
  by (simp add: isBlockedByKillSwitch_def NO_KILL_SWITCHES_def split: option.splits)

lemma reads_never_blocked [simp]: "\<not> ac_sideEffecting a \<Longrightarrow> isBlockedByKillSwitch a ks = False"
  by (simp add: isBlockedByKillSwitch_def)

section \<open>The decision (engine.ts)\<close>

definition decide :: "policy_effect \<Rightarrow> policy_reason \<Rightarrow> string \<Rightarrow> policy_decision" where
  "decide effect reason message = \<lparr>pd_effect = effect, pd_reason = reason, pd_message = message\<rparr>"

fun hasScopeAccess :: "principal_context \<Rightarrow> resource_descriptor \<Rightarrow> bool" where
  "hasScopeAccess prin resource =
     (case rs_scope resource of
        ORGANIZATION \<Rightarrow> True
      | TEAM \<Rightarrow>
          (case rs_teamId resource of None \<Rightarrow> False | Some t \<Rightarrow> t \<in> set (pr_teamIds prin))
      | PROJECT \<Rightarrow>
          (case rs_projectId resource of None \<Rightarrow> False | Some p \<Rightarrow> p \<in> set (pr_projectIds prin))
      | PRIVATE \<Rightarrow>
          (case rs_ownerUserId resource of None \<Rightarrow> False | Some u \<Rightarrow> u = pr_userId prin)
      | Other_scope _ \<Rightarrow> False)"

declare hasScopeAccess.simps [simp del]

lemma hasScopeAccess_cases:
  "hasScopeAccess p r \<longleftrightarrow>
     rs_scope r = ORGANIZATION
     \<or> (rs_scope r = TEAM \<and> (\<exists>t \<in> set (pr_teamIds p). rs_teamId r = Some t))
     \<or> (rs_scope r = PROJECT \<and> (\<exists>q \<in> set (pr_projectIds p). rs_projectId r = Some q))
     \<or> (rs_scope r = PRIVATE \<and> rs_ownerUserId r = Some (pr_userId p))"
  by (auto simp: hasScopeAccess.simps split: scope.splits option.splits)

definition level_text :: "authority_level \<Rightarrow> string" where
  "level_text l = [char_of (48 + AUTHORITY_LEVELS l)]"

definition evaluate :: "policy_input \<Rightarrow> policy_decision" where
  "evaluate input =
     (let prin = pi_principal input;
          action = pi_action input;
          resource = pi_resource input;
          killSwitches = coalesce (pi_killSwitches input) NO_KILL_SWITCHES;
          roleCeilings = coalesce (pi_roleCeilings input) DEFAULT_ROLE_CEILINGS
      in
      if rs_organizationId resource \<noteq> pr_organizationId prin
      then decide Deny PR_cross_tenant ''Resource belongs to a different organization.''
      else if \<not> hasScopeAccess prin resource
      then decide Deny PR_scope_denied
             (''Principal lacks access to '' @ scope_text (rs_scope resource) @ '' resource.'')
      else if isBlockedByKillSwitch action killSwitches
      then decide Deny PR_kill_switch
             (''Action \"'' @ ac_name action @ ''\" is paused by a kill switch.'')
      else let ceiling = roleCeilings (pr_role prin) in
      if ac_authorityLevel action > ceiling
      then decide Deny PR_insufficient_authority
             (''Role \"'' @ role_text (pr_role prin)
              @ ''\" may not attempt an action at authority level ''
              @ level_text (ac_authorityLevel action) @ ''.'')
      else if ac_authorityLevel action = NEVER_AUTONOMOUS
      then (if pr_actorKind prin = KindHuman
            then decide Allow PR_ok
                   ''Permitted: direct human execution of a never-autonomous action.''
            else decide Deny PR_never_autonomous
                   ''This action always requires direct human execution.'')
      else if ac_authorityLevel action = APPROVAL_REQUIRED
      then decide Requires_approval PR_approval_required ''This action requires explicit approval.''
      else decide Allow PR_ok ''Permitted.'')"

section \<open>What a decision means\<close>

text \<open>
  The conditions of the decision, named as the comments of the source name them and stated without its
  helpers.
\<close>

definition effective_ceiling :: "policy_input \<Rightarrow> authority_level" where
  "effective_ceiling i =
     coalesce (pi_roleCeilings i) DEFAULT_ROLE_CEILINGS (pr_role (pi_principal i))"

definition killed :: "policy_input \<Rightarrow> bool" where
  "killed i =
     (case pi_killSwitches i of
        None \<Rightarrow> False
      | Some ks \<Rightarrow> ac_sideEffecting (pi_action i)
          \<and> (ks_globalPause ks \<or> ac_capability (pi_action i) \<in> Some ` set (ks_disabledCapabilities ks)))"

definition same_tenant :: "policy_input \<Rightarrow> bool" where
  "same_tenant i = (rs_organizationId (pi_resource i) = pr_organizationId (pi_principal i))"

definition in_scope :: "policy_input \<Rightarrow> bool" where
  "in_scope i =
     (let p = pi_principal i; r = pi_resource i in
      rs_scope r = ORGANIZATION
      \<or> (rs_scope r = TEAM \<and> rs_teamId r \<in> Some ` set (pr_teamIds p))
      \<or> (rs_scope r = PROJECT \<and> rs_projectId r \<in> Some ` set (pr_projectIds p))
      \<or> (rs_scope r = PRIVATE \<and> rs_ownerUserId r = Some (pr_userId p)))"

definition attempt_permitted :: "policy_input \<Rightarrow> bool" where
  "attempt_permitted i =
     (same_tenant i \<and> in_scope i \<and> \<not> killed i \<and> ac_authorityLevel (pi_action i) \<le> effective_ceiling i)"

lemma killed_blocks: "killed i = isBlockedByKillSwitch (pi_action i) (coalesce (pi_killSwitches i) NO_KILL_SWITCHES)"
  by (auto simp: killed_def isBlockedByKillSwitch_def NO_KILL_SWITCHES_def split: option.split)

lemma in_scope_access: "in_scope i = hasScopeAccess (pi_principal i) (pi_resource i)"
  by (auto simp: in_scope_def hasScopeAccess_cases Let_def)

lemmas policy_conditions =
  effective_ceiling_def killed_blocks same_tenant_def in_scope_access attempt_permitted_def

lemma decide_simps [simp]:
  "pd_effect (decide e r m) = e"
  "pd_reason (decide e r m) = r"
  "pd_message (decide e r m) = m"
  by (simp_all add: decide_def)

text \<open>Effect and reason together, without the message.\<close>

lemma evaluate_outcome:
  "(pd_effect (evaluate i), pd_reason (evaluate i)) =
     (if \<not> same_tenant i then (Deny, PR_cross_tenant)
      else if \<not> in_scope i then (Deny, PR_scope_denied)
      else if killed i then (Deny, PR_kill_switch)
      else if effective_ceiling i < ac_authorityLevel (pi_action i) then (Deny, PR_insufficient_authority)
      else (case ac_authorityLevel (pi_action i) of
              NEVER_AUTONOMOUS \<Rightarrow>
                (if pr_actorKind (pi_principal i) = KindHuman then (Allow, PR_ok)
                 else (Deny, PR_never_autonomous))
            | APPROVAL_REQUIRED \<Rightarrow> (Requires_approval, PR_approval_required)
            | _ \<Rightarrow> (Allow, PR_ok)))"
  by (cases "ac_authorityLevel (pi_action i)")
    (simp_all add: evaluate_def Let_def policy_conditions)

lemma evaluate_effect:
  "pd_effect (evaluate i) =
     (if \<not> attempt_permitted i then Deny
      else (case ac_authorityLevel (pi_action i) of
              NEVER_AUTONOMOUS \<Rightarrow> (if pr_actorKind (pi_principal i) = KindHuman then Allow else Deny)
            | APPROVAL_REQUIRED \<Rightarrow> Requires_approval
            | _ \<Rightarrow> Allow))"
  using evaluate_outcome [of i]
  by (auto simp: attempt_permitted_def not_le split: authority_level.splits if_splits)

lemma killed_mono:
  assumes "isBlockedByKillSwitch a ks"
    and "ks_globalPause ks \<longrightarrow> ks_globalPause ks'"
    and "set (ks_disabledCapabilities ks) \<subseteq> set (ks_disabledCapabilities ks')"
  shows "isBlockedByKillSwitch a ks'"
  using assms by (auto simp: isBlockedByKillSwitch_def split: option.splits if_splits)

section \<open>Properties\<close>

text \<open>
  C11: An action is allowed exactly when the resource is in the principal's tenant and scope, no kill
  switch blocks the action, its level is within the role's ceiling, and it is either autonomously
  executable or a never-autonomous action taken by a human directly. Approval is asked for exactly at
  the level that needs it, and everything else is denied.
\<close>

theorem evaluate_effect_iff:
  "(pd_effect (evaluate i) = Allow \<longleftrightarrow>
      attempt_permitted i
      \<and> (isAutonomouslyExecutable (ac_authorityLevel (pi_action i))
         \<or> ac_authorityLevel (pi_action i) = NEVER_AUTONOMOUS \<and> pr_actorKind (pi_principal i) = KindHuman))
   \<and> (pd_effect (evaluate i) = Requires_approval \<longleftrightarrow>
      attempt_permitted i \<and> ac_authorityLevel (pi_action i) = APPROVAL_REQUIRED)
   \<and> (pd_effect (evaluate i) = Allow \<longleftrightarrow> pd_reason (evaluate i) = PR_ok)
   \<and> (pd_reason (evaluate i) = PR_cross_tenant \<longleftrightarrow>
      rs_organizationId (pi_resource i) \<noteq> pr_organizationId (pi_principal i))"
  using evaluate_outcome [of i]
  by (cases "ac_authorityLevel (pi_action i)")
    (auto simp: attempt_permitted_def isAutonomouslyExecutable_def authority_le same_tenant_def
      split: if_splits)

text \<open>The effects ordered by how much they permit.\<close>

fun permissiveness :: "policy_effect \<Rightarrow> nat" where
  "permissiveness Deny = 0"
| "permissiveness Requires_approval = 1"
| "permissiveness Allow = 2"

lemma attempt_permitted_mono:
  assumes "attempt_permitted j"
    and "pi_action j = pi_action i" and "pi_resource j = pi_resource i"
    and "pr_userId (pi_principal j) = pr_userId (pi_principal i)"
    and "pr_organizationId (pi_principal j) = pr_organizationId (pi_principal i)"
    and "set (pr_teamIds (pi_principal j)) \<subseteq> set (pr_teamIds (pi_principal i))"
    and "set (pr_projectIds (pi_principal j)) \<subseteq> set (pr_projectIds (pi_principal i))"
    and "killed i \<Longrightarrow> killed j"
    and "effective_ceiling j \<le> effective_ceiling i"
  shows "attempt_permitted i"
  using assms by (auto simp: attempt_permitted_def same_tenant_def in_scope_access hasScopeAccess_cases)

text \<open>
  C12: The engine is monotone: taking away team or project memberships, lowering the role ceiling, or
  switching on further kill switches never makes the decision on the same action and resource more
  permissive.
\<close>

theorem evaluate_monotone:
  assumes action: "pi_action j = pi_action i" and resource: "pi_resource j = pi_resource i"
    and who: "pr_userId (pi_principal j) = pr_userId (pi_principal i)"
      "pr_organizationId (pi_principal j) = pr_organizationId (pi_principal i)"
      "pr_actorKind (pi_principal j) = pr_actorKind (pi_principal i)"
    and teams: "set (pr_teamIds (pi_principal j)) \<subseteq> set (pr_teamIds (pi_principal i))"
    and projects: "set (pr_projectIds (pi_principal j)) \<subseteq> set (pr_projectIds (pi_principal i))"
    and ceiling: "effective_ceiling j \<le> effective_ceiling i"
    and pause: "ks_globalPause (coalesce (pi_killSwitches i) NO_KILL_SWITCHES) \<longrightarrow>
      ks_globalPause (coalesce (pi_killSwitches j) NO_KILL_SWITCHES)"
    and switches: "set (ks_disabledCapabilities (coalesce (pi_killSwitches i) NO_KILL_SWITCHES)) \<subseteq>
      set (ks_disabledCapabilities (coalesce (pi_killSwitches j) NO_KILL_SWITCHES))"
  shows "permissiveness (pd_effect (evaluate j)) \<le> permissiveness (pd_effect (evaluate i))"
proof -
  have "killed i \<Longrightarrow> killed j"
    using killed_mono [OF _ pause switches] by (simp add: killed_blocks action)
  with assms have "attempt_permitted j \<Longrightarrow> attempt_permitted i"
    by (intro attempt_permitted_mono [of j i])
  then show ?thesis
    by (auto simp: evaluate_effect action who split: authority_level.split)
qed

definition sample_agent :: principal_context where
  "sample_agent =
     \<lparr>pr_userId = ''u1'', pr_organizationId = ''org'', pr_role = Team_lead, pr_actorKind = KindAgent,
      pr_teamIds = [''t1'', ''t2''], pr_projectIds = []\<rparr>"

definition sample_policy_input :: policy_input where
  "sample_policy_input =
     \<lparr>pi_principal = sample_agent,
      pi_action = \<lparr>ac_name = ''send email'', ac_authorityLevel = ROUTINE_ACTION,
        ac_sideEffecting = True, ac_capability = Some outbound_comms\<rparr>,
      pi_resource = \<lparr>rs_organizationId = ''org'', rs_scope = TEAM, rs_ownerUserId = None,
        rs_teamId = Some ''t1'', rs_projectId = None\<rparr>,
      pi_killSwitches = None, pi_roleCeilings = None\<rparr>"

theorem evaluate_monotone_witness:
  "permissiveness (pd_effect (evaluate (sample_policy_input
       \<lparr>pi_killSwitches := Some \<lparr>ks_globalPause = False, ks_disabledCapabilities = [outbound_comms]\<rparr>\<rparr>)))
     \<le> permissiveness (pd_effect (evaluate sample_policy_input))"
  by (rule evaluate_monotone)
    (simp_all add: sample_policy_input_def NO_KILL_SWITCHES_def effective_ceiling_def)

end
