(* ===== verification/Approval.thy ===== *)
theory Approval
  imports Js_Values
begin

text \<open>
  Approval gates (\<open>packages/policy/src/approval.ts\<close>). A prior approval covers the current action when
  its scope prints to the same text under \<open>stableStringify\<close>. The theory shows what that comparison
  decides: two scopes print alike exactly when they are the same value once object keys are sorted
  and \<open>undefined\<close> is read as \<open>null\<close>.
\<close>

section \<open>The code\<close>

datatype approval_decision = DecisionPending | DecisionApproved | DecisionRejected | DecisionExpired

record 'n approval_record =
  ar_decision :: approval_decision
  ar_exactScope :: "'n jsval"
  ar_expiresAt :: "time option"

text \<open>
  \<open>numText\<close> is what \<open>JSON.stringify\<close> prints for a number. The recursive calls are made on the fields
  in insertion order and then laid out in key order, as \<open>keys.map\<close> does on the sorted keys.
\<close>

fun stableStringify :: "('n \<Rightarrow> string) \<Rightarrow> 'n jsval \<Rightarrow> string" where
  "stableStringify numText JUndefined = ''null''"
| "stableStringify numText JNull = ''null''"
| "stableStringify numText (JBool b) = (if b then ''true'' else ''false'')"
| "stableStringify numText (JNum n) = numText n"
| "stableStringify numText (JStr s) = quote s"
| "stableStringify numText (JArr vs) =
     ''['' @ join_with '','' (map (stableStringify numText) vs) @ '']''"
| "stableStringify numText (JObj kvs) =
     (let texts = map (\<lambda>kv. (fst kv, stableStringify numText (snd kv))) kvs;
          keys = sort (map fst kvs)
      in ''{'' @ join_with '','' (map (\<lambda>k. quote k @ '':'' @ coalesce (map_of texts k) []) keys) @ ''}'')"

definition scopesEqual :: "('n \<Rightarrow> string) \<Rightarrow> 'n jsval \<Rightarrow> 'n jsval \<Rightarrow> bool" where
  "scopesEqual numText a b = (stableStringify numText a = stableStringify numText b)"

definition isScopeChangeMaterial :: "('n \<Rightarrow> string) \<Rightarrow> 'n jsval \<Rightarrow> 'n jsval \<Rightarrow> bool" where
  "isScopeChangeMaterial numText approvedScope currentScope =
     (\<not> scopesEqual numText approvedScope currentScope)"

definition approvalStillValid ::
    "('n \<Rightarrow> string) \<Rightarrow> 'n approval_record \<Rightarrow> 'n jsval \<Rightarrow> time \<Rightarrow> bool" where
  "approvalStillValid numText approval currentScope now =
     (if ar_decision approval \<noteq> DecisionApproved then False
      else if (case ar_expiresAt approval of None \<Rightarrow> False | Some t \<Rightarrow> t \<le> now) then False
      else scopesEqual numText (ar_exactScope approval) currentScope)"

section \<open>Canonical values\<close>

text \<open>The same value with sorted keys and without \<open>undefined\<close>, and its plain rendering.\<close>

fun canon :: "'n jsval \<Rightarrow> 'n jsval" where
  "canon JUndefined = JNull"
| "canon (JArr vs) = JArr (map canon vs)"
| "canon (JObj kvs) =
     (let fields = map (\<lambda>kv. (fst kv, canon (snd kv))) kvs
      in JObj (map (\<lambda>k. (k, coalesce (map_of fields k) JNull)) (sort (map fst kvs))))"
| "canon v = v"

fun render :: "('n \<Rightarrow> string) \<Rightarrow> 'n jsval \<Rightarrow> string" where
  "render numText JUndefined = ''null''"
| "render numText JNull = ''null''"
| "render numText (JBool b) = (if b then ''true'' else ''false'')"
| "render numText (JNum n) = numText n"
| "render numText (JStr s) = quote s"
| "render numText (JArr vs) = ''['' @ join_with '','' (map (render numText) vs) @ '']''"
| "render numText (JObj kvs) =
     ''{'' @ join_with '','' (map (\<lambda>kv. quote (fst kv) @ '':'' @ render numText (snd kv)) kvs) @ ''}''"

fun defined :: "'n jsval \<Rightarrow> bool" where
  "defined JUndefined = False"
| "defined (JArr vs) = (\<forall>v \<in> set vs. defined v)"
| "defined (JObj kvs) = (\<forall>kv \<in> set kvs. defined (snd kv))"
| "defined v = True"

lemma map_of_map_snd: "map_of (map (\<lambda>kv. (fst kv, f (snd kv))) kvs) k = map_option f (map_of kvs k)"
  by (induction kvs) auto

lemma map_of_in_keys: "k \<in> fst ` set kvs \<Longrightarrow> \<exists>v. map_of kvs k = Some v \<and> (k, v) \<in> set kvs"
  by (metis map_of_SomeD map_of_eq_None_iff not_None_eq)

lemma stableStringify_render: "stableStringify numText v = render numText (canon v)"
proof (induction v)
  case (JObj kvs)
  let ?text = "\<lambda>k. coalesce (map_of (map (\<lambda>kv. (fst kv, stableStringify numText (snd kv))) kvs) k) []"
  let ?val = "\<lambda>k. coalesce (map_of (map (\<lambda>kv. (fst kv, canon (snd kv))) kvs) k) JNull"
  have "?text k = render numText (?val k)" if "k \<in> fst ` set kvs" for k
  proof -
    from map_of_in_keys [OF that] obtain v where "map_of kvs k = Some v" and "(k, v) \<in> set kvs"
      by blast
    with JObj [of "(k, v)" v] show ?thesis by (simp add: map_of_map_snd)
  qed
  then have "map (\<lambda>k. quote k @ '':'' @ ?text k) (sort (map fst kvs)) =
      map (\<lambda>k. quote k @ '':'' @ render numText (?val k)) (sort (map fst kvs))"
    by simp
  then show ?case
    by (simp add: Let_def comp_def del: map_eq_conv)
qed (simp_all add: comp_def cong: map_cong)

lemma defined_canon: "defined (canon v)"
proof (induction v)
  case (JObj kvs)
  have "defined (coalesce (map_of (map (\<lambda>kv. (fst kv, canon (snd kv))) kvs) k) JNull)"
    if "k \<in> fst ` set kvs" for k
  proof -
    from map_of_in_keys [OF that] obtain v where "map_of kvs k = Some v" and "(k, v) \<in> set kvs"
      by blast
    with JObj [of "(k, v)" v] show ?thesis by (simp add: map_of_map_snd)
  qed
  then show ?case by (auto simp: Let_def)
qed auto

section \<open>Rendering is injective\<close>

text \<open>What follows a value inside a text: nothing, a comma or a closing bracket.\<close>

fun delim :: "string \<Rightarrow> bool" where
  "delim [] = True"
| "delim (c # _) = (c = CHR '','' \<or> c = CHR '']'' \<or> c = CHR ''}'')"

definition number_char :: "char \<Rightarrow> bool" where
  "number_char c = (c = CHR ''-'' \<or> c = CHR ''+'' \<or> c = CHR ''.'' \<or> c = CHR ''e''
     \<or> (48 \<le> (of_char c :: nat) \<and> (of_char c :: nat) \<le> 57))"

definition number_start :: "char \<Rightarrow> bool" where
  "number_start c = (c = CHR ''-'' \<or> (48 \<le> (of_char c :: nat) \<and> (of_char c :: nat) \<le> 57))"

locale number_printer =
  fixes numText :: "'n \<Rightarrow> string"
  assumes numText_inj: "numText m = numText n \<Longrightarrow> m = n"
    and numText_start: "\<exists>c cs. numText n = c # cs \<and> number_start c"
    and numText_chars: "c \<in> set (numText n) \<Longrightarrow> number_char c"
begin

lemma numText_takeWhile: "delim r \<Longrightarrow> takeWhile number_char (numText n @ r) = numText n"
  using numText_chars [of _ n] by (cases r) (auto simp: takeWhile_append number_char_def)

lemma numText_prefix:
  assumes "numText m @ r = numText n @ s" and "delim r" and "delim s"
  shows "m = n \<and> r = s"
proof -
  from assms have "numText m = numText n"
    by (metis numText_takeWhile)
  with assms(1) show ?thesis by (auto dest: numText_inj)
qed

definition rigid :: "'n jsval \<Rightarrow> bool" where
  "rigid v \<longleftrightarrow> (\<forall>w r s. defined w \<longrightarrow> delim r \<longrightarrow> delim s \<longrightarrow>
     render numText v @ r = render numText w @ s \<longrightarrow> v = w \<and> r = s)"

lemma rigidD:
  "rigid v \<Longrightarrow> render numText v @ r = render numText w @ s \<Longrightarrow> defined w \<Longrightarrow> delim r \<Longrightarrow> delim s \<Longrightarrow>
     v = w \<and> r = s"
  by (auto simp: rigid_def)

text \<open>The first character tells the kind of a value.\<close>

fun kind :: "'n jsval \<Rightarrow> nat" where
  "kind (JBool b) = (if b then 2 else 3)"
| "kind (JNum _) = 4"
| "kind (JStr _) = 5"
| "kind (JArr _) = 6"
| "kind (JObj _) = 7"
| "kind _ = 1"

definition char_kind :: "char \<Rightarrow> nat" where
  "char_kind c =
     (if c = CHR ''n'' then 1 else if c = CHR ''t'' then 2 else if c = CHR ''f'' then 3
      else if number_start c then 4 else if c = CHR 0x22 then 5 else if c = CHR ''['' then 6
      else if c = CHR ''{'' then 7 else 0)"

lemma render_first: "\<exists>c cs. render numText v = c # cs \<and> char_kind c = kind v"
proof (cases v)
  case (JNum n)
  obtain c cs where "numText n = c # cs" "number_start c"
    using numText_start by blast
  moreover from this(2) have "char_kind c = 4"
    by (auto simp: char_kind_def number_start_def)
  ultimately show ?thesis using JNum by simp
qed (auto simp: quote_def char_kind_def number_start_def)

lemma render_kind: "render numText v @ r = render numText w @ s \<Longrightarrow> kind v = kind w"
  using render_first [of v] render_first [of w] by auto

lemma rigid_atom:
  assumes "v \<in> {JNull, JBool True, JBool False}"
  shows "rigid v"
  unfolding rigid_def
proof (intro allI impI)
  fix w r s
  assume w: "defined w" and eq: "render numText v @ r = render numText w @ s"
  show "v = w \<and> r = s"
    using assms w eq render_kind [OF eq] by (cases w) (auto split: if_splits)
qed

lemma rigid_num: "rigid (JNum n)"
  unfolding rigid_def
proof (intro allI impI)
  fix w r s
  assume w: "defined w" and d: "delim r" "delim s"
    and eq: "render numText (JNum n) @ r = render numText w @ s"
  from render_kind [OF eq] obtain m where "w = JNum m"
    by (cases w) (auto split: if_splits)
  with eq numText_prefix [of n r m s] d show "JNum n = w \<and> r = s" by simp
qed

lemma rigid_str: "rigid (JStr t)"
  unfolding rigid_def
proof (intro allI impI)
  fix w r s
  assume eq: "render numText (JStr t) @ r = render numText w @ s"
  from render_kind [OF eq] obtain u where "w = JStr u"
    by (cases w) (auto split: if_splits)
  with eq quote_prefix [of t r u s] show "JStr t = w \<and> r = s" by simp
qed

text \<open>Comma-separated values up to a closing bracket, read off one by one.\<close>

lemma render_not_close: "\<exists>c cs. render numText v = c # cs \<and> c \<noteq> CHR '']'' \<and> c \<noteq> CHR ''}'' \<and> c \<noteq> CHR '',''"
proof -
  obtain c cs where c: "render numText v = c # cs" "char_kind c = kind v"
    using render_first by blast
  have "kind v \<noteq> 0" by (cases v) auto
  with c(2) have "c \<noteq> CHR '']'' \<and> c \<noteq> CHR ''}'' \<and> c \<noteq> CHR '',''"
    by (auto simp: char_kind_def number_start_def)
  with c(1) show ?thesis by simp
qed

lemma items_prefix:
  assumes "\<forall>x \<in> set xs. \<forall>y r s. ok y \<longrightarrow> delim r \<longrightarrow> delim s \<longrightarrow> f x @ r = f y @ s \<longrightarrow> x = y \<and> r = s"
    and "\<forall>y \<in> set ys. ok y"
    and close: "c = CHR '']'' \<or> c = CHR ''}''"
    and open_: "\<And>x. \<exists>d ds. f x = d # ds \<and> d \<noteq> c"
    and "join_with '','' (map f xs) @ c # r = join_with '','' (map f ys) @ c # s"
  shows "xs = ys \<and> r = s"
  using assms(1,2,5)
proof (induction xs arbitrary: ys)
  case Nil
  show ?case
  proof (cases ys)
    case (Cons y ys')
    with Nil.prems(3) open_ [of y] show ?thesis by (auto simp: join_with_Cons)
  qed (use Nil.prems(3) in simp)
next
  case (Cons x xs)
  show ?case
  proof (cases ys)
    case Nil
    with Cons.prems(3) open_ [of x] show ?thesis by (auto simp: join_with_Cons)
  next
    case ys: (Cons y ys')
    let ?tail = "\<lambda>zs q. (if zs = [] then [] else '','' @ join_with '','' (map f zs)) @ c # q"
    have step: "f x @ p = f y @ q \<Longrightarrow> delim p \<Longrightarrow> delim q \<Longrightarrow> x = y \<and> p = q" for p q
      using Cons.prems(1,2) ys by (metis list.set_intros(1))
    have eq: "f x @ ?tail xs r = f y @ ?tail ys' s"
      using Cons.prems(3) ys by (simp add: join_with_Cons)
    have tail: "delim (?tail zs q)" for zs q using close by auto
    from step [OF eq tail tail] have "x = y" and tails: "?tail xs r = ?tail ys' s" by blast+
    have "xs = ys' \<and> r = s"
    proof (cases "xs = [] \<or> ys' = []")
      case True
      with tails close show ?thesis by (auto split: if_splits)
    next
      case False
      with tails have "join_with '','' (map f xs) @ c # r = join_with '','' (map f ys') @ c # s"
        by simp
      with Cons.IH [of ys'] Cons.prems(1,2) ys show ?thesis by simp
    qed
    with \<open>x = y\<close> ys show ?thesis by simp
  qed
qed

lemma rigid_arr:
  assumes "\<And>v. v \<in> set vs \<Longrightarrow> rigid v"
  shows "rigid (JArr vs)"
  unfolding rigid_def
proof (intro allI impI)
  fix w r s
  assume w: "defined w" and d: "delim r" "delim s"
    and eq: "render numText (JArr vs) @ r = render numText w @ s"
  from render_kind [OF eq] obtain ws where w_eq: "w = JArr ws"
    by (cases w) (auto split: if_splits)
  have "vs = ws \<and> r = s"
    proof (rule items_prefix [where f = "render numText" and ok = defined and c = "CHR '']''"])
      show "\<forall>x\<in>set vs. \<forall>y r s. defined y \<longrightarrow> delim r \<longrightarrow> delim s \<longrightarrow>
          render numText x @ r = render numText y @ s \<longrightarrow> x = y \<and> r = s"
        using assms unfolding rigid_def by blast
      show "\<forall>y\<in>set ws. defined y" using w w_eq by simp
      show "\<exists>d ds. render numText x = d # ds \<and> d \<noteq> CHR '']''" for x
        using render_not_close [of x] by blast
    qed (use eq w_eq in simp_all)
  with w_eq show "JArr vs = w \<and> r = s" by simp
qed

lemma rigid_obj:
  assumes "\<And>kv. kv \<in> set kvs \<Longrightarrow> rigid (snd kv)"
  shows "rigid (JObj kvs)"
  unfolding rigid_def
proof (intro allI impI)
  fix w r s
  assume w: "defined w" and d: "delim r" "delim s"
    and eq: "render numText (JObj kvs) @ r = render numText w @ s"
  let ?f = "\<lambda>kv. quote (fst kv) @ '':'' @ render numText (snd kv)"
  from render_kind [OF eq] obtain lvs where w_eq: "w = JObj lvs"
    by (cases w) (auto split: if_splits)
  have "kvs = lvs \<and> r = s"
    proof (rule items_prefix [where f = ?f and ok = "\<lambda>kv. defined (snd kv)" and c = "CHR ''}''"])
      show "\<forall>x\<in>set kvs. \<forall>y r s. defined (snd y) \<longrightarrow> delim r \<longrightarrow> delim s \<longrightarrow>
          ?f x @ r = ?f y @ s \<longrightarrow> x = y \<and> r = s"
      proof (intro ballI allI impI)
        fix x y r s
        assume x: "x \<in> set kvs" and y: "defined (snd y)" "delim r" "delim s"
          and e: "?f x @ r = ?f y @ s"
        then have k: "fst x = fst y"
          and "'':'' @ render numText (snd x) @ r = '':'' @ render numText (snd y) @ s"
          using quote_prefix [of "fst x" "'':'' @ render numText (snd x) @ r" "fst y"] by auto
        then have "snd x = snd y \<and> r = s"
          using rigidD [OF assms [OF x], of r "snd y" s] y by simp
        with k show "x = y \<and> r = s" by (simp add: prod_eq_iff)
      qed
      show "\<forall>y\<in>set lvs. defined (snd y)" using w w_eq by simp
      show "\<exists>d ds. ?f x = d # ds \<and> d \<noteq> CHR ''}''" for x
        by (simp add: quote_def)
    qed (use eq w_eq in simp_all)
  with w_eq show "JObj kvs = w \<and> r = s" by simp
qed

lemma rigid_defined: "defined v \<Longrightarrow> rigid v"
proof (induction v)
  case (JBool b)
  then show ?case by (cases b) (simp_all add: rigid_atom)
next
  case (JObj kvs)
  then show ?case by (intro rigid_obj) (auto simp: snds.simps)
qed (auto intro: rigid_atom rigid_num rigid_str rigid_arr)

lemma render_inj: "defined v \<Longrightarrow> defined w \<Longrightarrow> render numText v = render numText w \<Longrightarrow> v = w"
  using rigidD [OF rigid_defined, of v "[]" w "[]"] by simp

theorem stableStringify_eq_iff:
  "stableStringify numText a = stableStringify numText b \<longleftrightarrow> canon a = canon b"
  using render_inj [OF defined_canon defined_canon] by (auto simp: stableStringify_render)

end

text \<open>
  Integers up to \<open>10\<^sup>2\<^sup>1\<close> print as their decimal digits, so for scopes whose numbers are integers
  (ids, counts, amounts in minor units) \<open>js_integer_text\<close> is what \<open>JSON.stringify\<close> prints.
\<close>

interpretation integers: number_printer js_integer_text
proof
  show "js_integer_text m = js_integer_text n \<Longrightarrow> m = n" for m n
    by (rule js_integer_text_inj)
  show "c \<in> set (js_integer_text n) \<Longrightarrow> number_char c" for c n
    using js_integer_text_chars [of c n] by (auto simp: number_char_def)
  show "\<exists>c cs. js_integer_text n = c # cs \<and> number_start c" for n
  proof (cases "js_integer_text n")
    case Nil
    then show ?thesis by (simp add: js_integer_text_def nat_text_nonempty split: if_splits)
  next
    case (Cons c cs)
    then show ?thesis
      using js_integer_text_chars [of c n] by (auto simp: number_start_def)
  qed
qed

section \<open>Properties\<close>

definition same_scope :: "int jsval \<Rightarrow> int jsval \<Rightarrow> bool" where
  "same_scope a b = (canon a = canon b)"

text \<open>
  C13: A prior approval is still valid exactly when it was approved, has not expired at the given time
  (an expiry equal to the time counts as expired), and its scope is the same value as the current one
  up to the order of object keys, with \<open>undefined\<close> read as \<open>null\<close>: equal printed text never hides a
  material change of the scope.
\<close>

theorem approvalStillValid_iff:
  "approvalStillValid js_integer_text a current now \<longleftrightarrow>
     ar_decision a = DecisionApproved
     \<and> (\<forall>t. ar_expiresAt a = Some t \<longrightarrow> now < t)
     \<and> same_scope (ar_exactScope a) current"
  by (auto simp: approvalStillValid_def scopesEqual_def same_scope_def
      integers.stableStringify_eq_iff split: option.splits)

theorem approvalStillValid_iff_witness:
  "approvalStillValid js_integer_text
     \<lparr>ar_decision = DecisionApproved,
      ar_exactScope = JObj [(''to'', JStr ''a''), (''amount'', JNum 5)], ar_expiresAt = Some 10\<rparr>
     (JObj [(''amount'', JNum 5), (''to'', JStr ''a'')]) 9
   \<and> \<not> approvalStillValid js_integer_text
     \<lparr>ar_decision = DecisionApproved,
      ar_exactScope = JObj [(''to'', JStr ''a''), (''amount'', JNum 5)], ar_expiresAt = Some 10\<rparr>
     (JObj [(''amount'', JNum 6), (''to'', JStr ''a'')]) 9"
  unfolding approvalStillValid_iff by (simp add: same_scope_def Let_def)

lemma canon_fields_cong:
  assumes "distinct (map fst kvs)" and "mset kvs = mset lvs"
  shows "canon (JObj kvs) = canon (JObj lvs)"
proof -
  let ?f = "\<lambda>kv :: string \<times> 'a jsval. (fst kv, canon (snd kv))"
  from assms have d: "distinct (map fst lvs)"
    by (metis mset_eq_imp_distinct_iff mset_map)
  have "mset (map fst kvs) = mset (map fst lvs)"
    using assms(2) by (metis mset_map)
  then have keys: "sort (map fst kvs) = sort (map fst lvs)"
    by (metis properties_for_sort mset_sort sorted_sort)
  have s: "set kvs = set lvs"
    using assms(2) by (metis mset_eq_setD)
  have "map_of (map ?f kvs) = map_of (map ?f lvs)"
    using assms(1) d s by (intro map_of_inject_set [THEN iffD2]) (simp_all add: comp_def)
  with keys show ?thesis by (simp add: Let_def)
qed

lemma canon_field_change:
  assumes "k \<in> fst ` set kvs" and "canon (JObj kvs) = canon (JObj lvs)"
    and "map fst lvs = map fst kvs"
  shows "canon (js_get kvs k) = canon (js_get lvs k)"
proof -
  have look: "coalesce (map_of (map (\<lambda>kv. (fst kv, canon (snd kv))) xs) k) JNull = canon (js_get xs k)"
    if "k \<in> fst ` set xs" for xs :: "(string \<times> 'a jsval) list"
    using map_of_in_keys [OF that] by (auto simp: map_of_map_snd js_get_def)
  have "k \<in> fst ` set lvs" using assms(1,3) by (metis image_set)
  moreover from assms have "\<forall>j \<in> set (sort (map fst kvs)).
      coalesce (map_of (map (\<lambda>kv. (fst kv, canon (snd kv))) kvs) j) JNull
      = coalesce (map_of (map (\<lambda>kv. (fst kv, canon (snd kv))) lvs) j) JNull"
    by (simp add: Let_def)
  ultimately show ?thesis using assms(1) look [of kvs] look [of lvs] by fastforce
qed

text \<open>
  C14: The comparison that decides re-approval ignores the order of an object's keys and nothing else
  of it: a permutation of the fields is not material, while two scopes with the same keys that differ
  in the value of one key (beyond \<open>undefined\<close> against \<open>null\<close>) are a material change.
\<close>

theorem material_scope_change:
  assumes "distinct (map fst kvs)"
  shows "(mset lvs = mset kvs \<longrightarrow>
            \<not> isScopeChangeMaterial js_integer_text (JObj kvs) (JObj lvs))
       \<and> (map fst lvs = map fst kvs \<longrightarrow> k \<in> fst ` set kvs \<longrightarrow>
            canon (js_get kvs k) \<noteq> canon (js_get lvs k) \<longrightarrow>
            isScopeChangeMaterial js_integer_text (JObj kvs) (JObj lvs))"
proof -
  have mat: "isScopeChangeMaterial js_integer_text a b \<longleftrightarrow> canon a \<noteq> canon b" for a b
    by (simp add: isScopeChangeMaterial_def scopesEqual_def integers.stableStringify_eq_iff)
  show ?thesis
    unfolding mat using canon_fields_cong [OF assms, of lvs] canon_field_change [of k kvs lvs]
    by auto
qed

theorem material_scope_change_witness:
  "isScopeChangeMaterial js_integer_text
     (JObj [(''b'', JNum 1), (''a'', JNull)]) (JObj [(''b'', JNum 2), (''a'', JUndefined)])"
  using material_scope_change
    [of "[(''b'', JNum 1), (''a'', JNull)]" "[(''b'', JNum 2), (''a'', JUndefined)]" "''b''"]
  by simp

end
