(* ===== verification/Work_Routing.thy ===== *)
theory Work_Routing
  imports Core_Domain
begin

text \<open>
  Adapter health and failure classes (\<open>packages/adapters/base/src/health.ts\<close>) and the Work Router
  (\<open>packages/work-router/src\<close>: registry.ts, router.ts), which picks the execution class of an order
  before any model is chosen. The router's sort is interpreted in the locale \<open>comparator\<close>, so its
  laws (order, permutation, stability) come from there.
\<close>

section \<open>Health and failure classes\<close>

datatype health_status = Healthy | Degraded | Offline

record health_report =
  hr_status :: health_status
  hr_detail :: "string option"

datatype error_class =
  ErrTransient | ErrRateLimit | ErrUnavailable | ErrAuth | ErrDeterministic | ErrUnknown

fun SEVERITY :: "health_status \<Rightarrow> nat" where
  "SEVERITY Healthy = 0"
| "SEVERITY Degraded = 1"
| "SEVERITY Offline = 2"

definition worstHealth :: "health_report list \<Rightarrow> health_status" where
  "worstHealth reports =
     fold (\<lambda>r worst. if SEVERITY (hr_status r) > SEVERITY worst then hr_status r else worst)
       reports Healthy"

definition isRetryable :: "error_class \<Rightarrow> bool" where
  "isRetryable cls = (cls = ErrTransient \<or> cls = ErrRateLimit \<or> cls = ErrUnavailable)"

lemma SEVERITY_inj: "SEVERITY a = SEVERITY b \<Longrightarrow> a = b"
  by (cases a; cases b) simp_all

lemma worst_fold:
  fixes reports w
  defines "res \<equiv> fold (\<lambda>r worst. if SEVERITY (hr_status r) > SEVERITY worst then hr_status r else worst)
             reports w"
  shows "SEVERITY w \<le> SEVERITY res \<and> (\<forall>r \<in> set reports. SEVERITY (hr_status r) \<le> SEVERITY res)
         \<and> (res = w \<or> (\<exists>r \<in> set reports. res = hr_status r))"
  unfolding res_def
proof (induction reports arbitrary: w)
  case Nil
  then show ?case by simp
next
  case (Cons r rs)
  from Cons.IH [of "if SEVERITY (hr_status r) > SEVERITY w then hr_status r else w"]
  show ?case by (auto split: if_splits)
qed

section \<open>The capability registry (registry.ts)\<close>

record registered_capability =
  rc_id :: string
  rc_executionClass :: execution_class
  rc_provides :: "string list"
  rc_health :: health_status

type_synonym capability_registry = "registered_capability list"

definition registry_register :: "registered_capability \<Rightarrow> capability_registry \<Rightarrow> capability_registry" where
  "registry_register capability items = items @ [capability]"

definition registry_all :: "capability_registry \<Rightarrow> registered_capability list" where
  "registry_all items = items"

definition healthyProviding :: "capability_registry \<Rightarrow> string list \<Rightarrow> registered_capability list" where
  "healthyProviding items required =
     filter (\<lambda>c. rc_health c = Healthy \<and> (\<forall>r \<in> set required. r \<in> set (rc_provides c))) items"

lemma healthyProviding_iff:
  "c \<in> set (healthyProviding items required) \<longleftrightarrow>
     c \<in> set items \<and> rc_health c = Healthy \<and> set required \<subseteq> set (rc_provides c)"
  by (auto simp: healthyProviding_def)

section \<open>The Work Router (router.ts)\<close>

definition CLASS_PREFERENCE :: "execution_class list" where
  "CLASS_PREFERENCE =
     [EC_deterministic, EC_automation, EC_human, EC_browser, EC_coding_agent, EC_local_ai, EC_cloud_ai]"

record work_routing_input =
  wr_requiredCapabilities :: "string list"
  wr_prefersHuman :: "bool option"
  wr_needsReasoning :: "bool option"

datatype work_routing_reason =
  WR_human_required | WR_capability_matched | WR_ai_reasoning_required | WR_no_capability_fallback_human

record work_routing_decision =
  wd_executionClass :: execution_class
  wd_capabilityId :: "string option"
  wd_reason :: work_routing_reason
  wd_message :: string

fun execution_class_text :: "execution_class \<Rightarrow> string" where
  "execution_class_text EC_deterministic = ''deterministic''"
| "execution_class_text EC_automation = ''automation''"
| "execution_class_text EC_human = ''human''"
| "execution_class_text EC_browser = ''browser''"
| "execution_class_text EC_coding_agent = ''coding_agent''"
| "execution_class_text EC_local_ai = ''local_ai''"
| "execution_class_text EC_cloud_ai = ''cloud_ai''"

definition byPreference :: "registered_capability \<Rightarrow> registered_capability \<Rightarrow> number" where
  "byPreference a b =
     of_int (index_of CLASS_PREFERENCE (rc_executionClass a))
     - of_int (index_of CLASS_PREFERENCE (rc_executionClass b))"

definition routeWork :: "work_routing_input \<Rightarrow> capability_registry \<Rightarrow> work_routing_decision" where
  "routeWork input registry =
     (if is_true (wr_prefersHuman input)
      then \<lparr>wd_executionClass = EC_human, wd_capabilityId = None, wd_reason = WR_human_required,
            wd_message = ''Task requires human judgment, ownership, or policy.''\<rparr>
      else
        let candidates = healthyProviding registry (wr_requiredCapabilities input) in
        case first_of (js_sort byPreference candidates) of
          Some chosen \<Rightarrow>
            \<lparr>wd_executionClass = rc_executionClass chosen, wd_capabilityId = Some (rc_id chosen),
             wd_reason = WR_capability_matched,
             wd_message = ''Matched capability \"'' @ rc_id chosen @ ''\" (''
               @ execution_class_text (rc_executionClass chosen) @ '').''\<rparr>
        | None \<Rightarrow>
            if is_true (wr_needsReasoning input)
            then \<lparr>wd_executionClass = EC_cloud_ai, wd_capabilityId = None,
                  wd_reason = WR_ai_reasoning_required,
                  wd_message = ''No deterministic path; AI reasoning required (Model Router selects model/node).''\<rparr>
            else \<lparr>wd_executionClass = EC_human, wd_capabilityId = None,
                  wd_reason = WR_no_capability_fallback_human,
                  wd_message = ''No capability available; routed to a human.''\<rparr>)"

definition candidateCapabilities ::
    "work_routing_input \<Rightarrow> capability_registry \<Rightarrow> registered_capability list" where
  "candidateCapabilities input registry =
     (if is_true (wr_prefersHuman input) then []
      else js_sort byPreference (healthyProviding registry (wr_requiredCapabilities input)))"

definition candidateClasses :: "work_routing_input \<Rightarrow> capability_registry \<Rightarrow> execution_class list" where
  "candidateClasses input registry =
     (let ordered0 = (if is_true (wr_prefersHuman input) then push_new EC_human [] else []);
          ordered1 = fold push_new
            (map rc_executionClass
              (js_sort byPreference (healthyProviding registry (wr_requiredCapabilities input)))) ordered0;
          ordered2 = (if is_true (wr_needsReasoning input) then push_new EC_cloud_ai ordered1 else ordered1)
      in push_new EC_human ordered2)"

section \<open>Facts about routing\<close>

abbreviation preference :: "execution_class \<Rightarrow> int" where
  "preference c \<equiv> index_of CLASS_PREFERENCE c"

lemma preference_inj: "preference a = preference b \<Longrightarrow> a = b"
  by (cases a; cases b) (simp_all add: CLASS_PREFERENCE_def)

lemma byPreference_by_key: "byPreference = by_key (\<lambda>c. of_int (preference (rc_executionClass c)))"
  by (simp add: fun_eq_iff byPreference_def by_key_def)

interpretation preferred: comparator byPreference
  unfolding byPreference_by_key by (rule comparator_by_key)

lemma byPreference_le:
  "byPreference a b \<le> 0 \<longleftrightarrow> preference (rc_executionClass a) \<le> preference (rc_executionClass b)"
  by (simp add: byPreference_def)

lemma candidates_iff:
  "\<not> is_true (wr_prefersHuman i) \<Longrightarrow>
     c \<in> set (candidateCapabilities i reg) \<longleftrightarrow>
       c \<in> set reg \<and> rc_health c = Healthy \<and> set (wr_requiredCapabilities i) \<subseteq> set (rc_provides c)"
  by (simp add: candidateCapabilities_def healthyProviding_iff)

lemma candidates_sorted:
  "sorted_wrt (\<lambda>a b. preference (rc_executionClass a) \<le> preference (rc_executionClass b))
     (candidateCapabilities i reg)"
  using preferred.sorted_js_sort [of "healthyProviding reg (wr_requiredCapabilities i)"]
  by (simp add: candidateCapabilities_def byPreference_le)

lemma routeWork_candidates:
  "routeWork i reg =
     (if is_true (wr_prefersHuman i) then routeWork i []
      else case candidateCapabilities i reg of
             c # _ \<Rightarrow> \<lparr>wd_executionClass = rc_executionClass c, wd_capabilityId = Some (rc_id c),
                       wd_reason = WR_capability_matched,
                       wd_message = ''Matched capability \"'' @ rc_id c @ ''\" (''
                         @ execution_class_text (rc_executionClass c) @ '').''\<rparr>
           | [] \<Rightarrow> routeWork i [])"
  by (auto simp: routeWork_def candidateCapabilities_def healthyProviding_def Let_def split: list.splits)

lemma routeWork_no_match:
  "candidateCapabilities i reg = [] \<Longrightarrow> \<not> is_true (wr_prefersHuman i) \<Longrightarrow>
     wd_executionClass (routeWork i reg) =
       (if is_true (wr_needsReasoning i) then EC_cloud_ai else EC_human)"
  by (auto simp: routeWork_def candidateCapabilities_def healthyProviding_def Let_def)

lemma last_push_new: "last (push_new x xs) = (if x \<in> set xs then last xs else x)"
  by (simp add: push_new_def)

lemma candidateClasses_set:
  "set (candidateClasses i reg) =
     insert EC_human ((if is_true (wr_needsReasoning i) then {EC_cloud_ai} else {})
       \<union> rc_executionClass ` set (healthyProviding reg (wr_requiredCapabilities i)))"
  by (auto simp: candidateClasses_def Let_def)

lemma candidateClasses_distinct: "distinct (candidateClasses i reg)"
  by (simp add: candidateClasses_def Let_def)

lemma hd_push_new: "hd (push_new x xs) = (if xs = [] then x else hd xs)"
  by (cases xs) (auto simp: push_new_def)

lemma push_new_neq_Nil [simp]: "push_new x xs \<noteq> []"
  by (cases xs) (auto simp: push_new_def)

lemma hd_fold_push_new: "hd (fold push_new ys xs) = (if xs = [] then hd ys else hd xs)" if "ys \<noteq> [] \<or> xs \<noteq> []"
  using that by (induction ys arbitrary: xs) (auto simp: hd_push_new)

lemma fold_push_new_eq_Nil [simp]: "fold push_new ys xs = [] \<longleftrightarrow> ys = [] \<and> xs = []"
  by (induction ys arbitrary: xs) auto

lemma candidateClasses_hd: "hd (candidateClasses i reg) = wd_executionClass (routeWork i reg)"
  by (auto simp: candidateClasses_def routeWork_def Let_def hd_push_new hd_fold_push_new
      first_of_def hd_map split: list.splits)

lemma candidateClasses_last:
  assumes "\<not> is_true (wr_prefersHuman i)"
    and "EC_human \<notin> rc_executionClass ` set (healthyProviding reg (wr_requiredCapabilities i))"
  shows "last (candidateClasses i reg) = EC_human"
proof -
  define xs where "xs = fold push_new (map rc_executionClass
      (js_sort byPreference (healthyProviding reg (wr_requiredCapabilities i)))) []"
  have "EC_human \<notin> set xs"
    using assms(2) by (auto simp: xs_def)
  with assms(1) show ?thesis
    by (simp add: candidateClasses_def Let_def last_push_new flip: xs_def)
qed

section \<open>Properties\<close>

text \<open>
  The health of a system is the worst of its reports: no report is worse, and unless everything is
  healthy some report has exactly that status; adding a report never improves it.
\<close>

theorem worstHealth_max:
  "(\<forall>r \<in> set reports. SEVERITY (hr_status r) \<le> SEVERITY (worstHealth reports))
   \<and> (worstHealth reports \<noteq> Healthy \<longrightarrow> (\<exists>r \<in> set reports. worstHealth reports = hr_status r))
   \<and> SEVERITY (worstHealth reports) \<le> SEVERITY (worstHealth (reports @ extra))"
proof -
  let ?f = "\<lambda>r worst. if SEVERITY (hr_status r) > SEVERITY worst then hr_status r else worst"
  have "worstHealth (reports @ extra) = fold ?f extra (worstHealth reports)"
    by (simp add: worstHealth_def)
  then have "SEVERITY (worstHealth reports) \<le> SEVERITY (worstHealth (reports @ extra))"
    using worst_fold [where w = "worstHealth reports" and reports = extra] by simp
  then show ?thesis
    using worst_fold [where w = Healthy and reports = reports] by (auto simp: worstHealth_def)
qed

theorem worstHealth_max_witness:
  "SEVERITY (hr_status \<lparr>hr_status = Degraded, hr_detail = None\<rparr>)
     \<le> SEVERITY (worstHealth [\<lparr>hr_status = Degraded, hr_detail = None\<rparr>, \<lparr>hr_status = Healthy, hr_detail = None\<rparr>])"
  using worstHealth_max
    [of "[\<lparr>hr_status = Degraded, hr_detail = None\<rparr>, \<lparr>hr_status = Healthy, hr_detail = None\<rparr>]" "[]"]
  by simp

text \<open>
  C15: Unless a human is asked for, the router picks a healthy capability that provides everything
  required, of the least complex class there is (deterministic before automation before human before
  the AI classes), the first registered one of that class; and it falls back to AI, or to a human,
  exactly when no healthy capability provides everything.
\<close>

theorem routeWork_least_complex:
  fixes i reg
  assumes "\<not> is_true (wr_prefersHuman i)"
  defines "fit \<equiv> \<lambda>c. rc_health c = Healthy \<and> set (wr_requiredCapabilities i) \<subseteq> set (rc_provides c)"
  shows "case find (\<lambda>c. fit c \<and> (\<forall>d \<in> set reg. fit d \<longrightarrow>
             preference (rc_executionClass c) \<le> preference (rc_executionClass d))) reg of
      Some c \<Rightarrow> wd_capabilityId (routeWork i reg) = Some (rc_id c)
        \<and> wd_executionClass (routeWork i reg) = rc_executionClass c
        \<and> wd_reason (routeWork i reg) = WR_capability_matched
    | None \<Rightarrow> (\<forall>c \<in> set reg. \<not> fit c) \<and> wd_capabilityId (routeWork i reg) = None
        \<and> wd_executionClass (routeWork i reg) =
            (if is_true (wr_needsReasoning i) then EC_cloud_ai else EC_human)"
proof -
  let ?p = "\<lambda>c. fit c \<and> (\<forall>d \<in> set reg. fit d \<longrightarrow>
             preference (rc_executionClass c) \<le> preference (rc_executionClass d))"
  have cand: "healthyProviding reg (wr_requiredCapabilities i) = filter fit reg"
    by (auto simp: healthyProviding_def fit_def intro: filter_cong)
  show ?thesis
  proof (cases "js_sort byPreference (filter fit reg)")
    case Nil
    then have none: "\<forall>c \<in> set reg. \<not> fit c" by (auto simp: filter_empty_conv)
    then have "find ?p reg = None" by (auto simp: find_None_conv)
    with none Nil assms(1) show ?thesis
      by (simp add: routeWork_def cand)
  next
    case (Cons c cs)
    have "c \<in> set (js_sort byPreference (filter fit reg))"
      unfolding Cons by simp
    then have mem: "c \<in> set reg" "fit c" by simp_all
    have least: "\<forall>d \<in> set reg. fit d \<longrightarrow>
        preference (rc_executionClass c) \<le> preference (rc_executionClass d)"
      using preferred.js_sort_hd_le [OF Cons] by (auto simp: byPreference_le)
    have "filter ?p reg = filter (\<lambda>d. byPreference d c = 0) (filter fit reg)"
      unfolding filter_filter
    proof (rule filter_cong [OF refl])
      fix d assume d: "d \<in> set reg"
      have "byPreference d c = 0 \<longleftrightarrow>
          preference (rc_executionClass d) = preference (rc_executionClass c)"
        by (simp add: byPreference_def)
      with d mem least show "?p d \<longleftrightarrow> fit d \<and> byPreference d c = 0" by force
    qed
    also have "\<dots> = filter (\<lambda>d. byPreference d c = 0) (js_sort byPreference (filter fit reg))"
      by (simp add: preferred.js_sort_stable)
    also have "first_of \<dots> = Some c"
      using Cons by simp
    finally have "find ?p reg = Some c"
      by (simp add: first_of_filter)
    with Cons assms(1) show ?thesis
      by (simp add: routeWork_def cand)
  qed
qed

definition sample_registry :: capability_registry where
  "sample_registry =
     [\<lparr>rc_id = ''llm'', rc_executionClass = EC_cloud_ai, rc_provides = [''crm'', ''draft''], rc_health = Healthy\<rparr>,
      \<lparr>rc_id = ''crm-down'', rc_executionClass = EC_deterministic, rc_provides = [''crm''], rc_health = Offline\<rparr>,
      \<lparr>rc_id = ''crm-a'', rc_executionClass = EC_automation, rc_provides = [''crm''], rc_health = Healthy\<rparr>,
      \<lparr>rc_id = ''crm-b'', rc_executionClass = EC_automation, rc_provides = [''crm''], rc_health = Healthy\<rparr>]"

theorem routeWork_least_complex_witness:
  "wd_capabilityId (routeWork
     \<lparr>wr_requiredCapabilities = [''crm''], wr_prefersHuman = None, wr_needsReasoning = None\<rparr>
     sample_registry) = Some ''crm-a''"
  using routeWork_least_complex
    [of "\<lparr>wr_requiredCapabilities = [''crm''], wr_prefersHuman = None, wr_needsReasoning = None\<rparr>"
      sample_registry]
  by (simp add: sample_registry_def CLASS_PREFERENCE_def)

text \<open>
  The fallback classes offered for an order are pairwise distinct and are exactly the classes of
  the healthy capabilities that fit, cloud AI if reasoning is needed, and a human, so the list is never
  empty; \<open>routeWork\<close>'s class is the first of them; and the list ends with a human unless one was asked for
  (then it comes first) or a capability of the class human fits.
\<close>

theorem candidateClasses_fallbacks:
  "distinct (candidateClasses i reg)
   \<and> set (candidateClasses i reg) =
       insert EC_human ((if is_true (wr_needsReasoning i) then {EC_cloud_ai} else {})
         \<union> rc_executionClass ` set (healthyProviding reg (wr_requiredCapabilities i)))
   \<and> hd (candidateClasses i reg) = wd_executionClass (routeWork i reg)
   \<and> (\<not> is_true (wr_prefersHuman i)
       \<and> EC_human \<notin> rc_executionClass ` set (healthyProviding reg (wr_requiredCapabilities i))
       \<longrightarrow> last (candidateClasses i reg) = EC_human)"
  using candidateClasses_distinct candidateClasses_set
    candidateClasses_hd candidateClasses_last by blast

theorem candidateClasses_fallbacks_witness:
  "last (candidateClasses
     \<lparr>wr_requiredCapabilities = [''crm''], wr_prefersHuman = None, wr_needsReasoning = Some True\<rparr>
     sample_registry) = EC_human"
  using candidateClasses_fallbacks
    [of "\<lparr>wr_requiredCapabilities = [''crm''], wr_prefersHuman = None, wr_needsReasoning = Some True\<rparr>"
      sample_registry]
  by (simp add: sample_registry_def healthyProviding_def)

end
