(* ===== verification/Model_Routing.thy ===== *)
theory Model_Routing
  imports Donna_Prelude
begin

text \<open>
  The model registry and feature flags (\<open>packages/config/src\<close>), the Model Router
  (\<open>packages/model-router/src/router.ts\<close>), and the Cost Governor (\<open>packages/cost-governor/src\<close>:
  cost.ts, budget.ts, ledger.ts).
\<close>

section \<open>The model registry (models.ts)\<close>

datatype model_provider = Anthropic | OpenAI | LocalProvider

datatype model_privacy = Cloud | LocalNode

record model_capability_flags =
  mc_tools :: bool
  mc_vision :: bool
  mc_reasoning :: bool

record model_entry =
  me_id :: string
  me_provider :: model_provider
  me_displayName :: string
  me_contextTokens :: number
  me_inputCostPer1M :: number
  me_outputCostPer1M :: number
  me_cachedInputCostPer1M :: "number option"
  me_capabilities :: model_capability_flags
  me_tierRange :: "number \<times> number"
  me_privacy :: model_privacy
  me_available :: bool

definition cloudCaps :: model_capability_flags where
  "cloudCaps = \<lparr>mc_tools = True, mc_vision = True, mc_reasoning = True\<rparr>"

definition MODEL_REGISTRY :: "model_entry list" where
  "MODEL_REGISTRY =
    [\<lparr>me_id = ''claude-haiku-4-5'', me_provider = Anthropic, me_displayName = ''Claude Haiku 4.5'',
      me_contextTokens = 200000, me_inputCostPer1M = 1, me_outputCostPer1M = 5,
      me_cachedInputCostPer1M = Some (1 / 10), me_capabilities = cloudCaps, me_tierRange = (0, 4),
      me_privacy = Cloud, me_available = True\<rparr>,
     \<lparr>me_id = ''claude-sonnet-5'', me_provider = Anthropic, me_displayName = ''Claude Sonnet 5'',
      me_contextTokens = 1000000, me_inputCostPer1M = 2, me_outputCostPer1M = 10,
      me_cachedInputCostPer1M = Some (2 / 10), me_capabilities = cloudCaps, me_tierRange = (3, 7),
      me_privacy = Cloud, me_available = True\<rparr>,
     \<lparr>me_id = ''claude-opus-5'', me_provider = Anthropic, me_displayName = ''Claude Opus 5'',
      me_contextTokens = 1000000, me_inputCostPer1M = 5, me_outputCostPer1M = 25,
      me_cachedInputCostPer1M = Some (5 / 10), me_capabilities = cloudCaps, me_tierRange = (6, 9),
      me_privacy = Cloud, me_available = True\<rparr>,
     \<lparr>me_id = ''claude-fable-5-1'', me_provider = Anthropic, me_displayName = ''Claude Fable 5.1'',
      me_contextTokens = 1000000, me_inputCostPer1M = 10, me_outputCostPer1M = 50,
      me_cachedInputCostPer1M = Some (25 / 100), me_capabilities = cloudCaps, me_tierRange = (8, 10),
      me_privacy = Cloud, me_available = True\<rparr>,
     \<lparr>me_id = ''openai-frontier-placeholder'', me_provider = OpenAI,
      me_displayName = ''OpenAI frontier (placeholder)'',
      me_contextTokens = 400000, me_inputCostPer1M = 5, me_outputCostPer1M = 20,
      me_cachedInputCostPer1M = None, me_capabilities = cloudCaps, me_tierRange = (6, 9),
      me_privacy = Cloud, me_available = False\<rparr>,
     \<lparr>me_id = ''local-small-placeholder'', me_provider = LocalProvider,
      me_displayName = ''Local small model (placeholder)'',
      me_contextTokens = 32000, me_inputCostPer1M = 0, me_outputCostPer1M = 0,
      me_cachedInputCostPer1M = None,
      me_capabilities = \<lparr>mc_tools = False, mc_vision = False, mc_reasoning = False\<rparr>,
      me_tierRange = (0, 3), me_privacy = LocalNode, me_available = False\<rparr>]"

section \<open>Feature flags (feature-flags.ts)\<close>

record flag_rollout =
  fr_allowUserIds :: "string list option"
  fr_allowOrgIds :: "string list option"

record feature_flag =
  ff_key :: string
  ff_enabled :: bool
  ff_rollout :: "flag_rollout option"

record flag_context =
  fc_userId :: "string option"
  fc_organizationId :: "string option"

text \<open>\<open>list?.includes(id) === true\<close> with \<open>id !== undefined\<close>.\<close>

definition on_allow_list :: "string option \<Rightarrow> string list option \<Rightarrow> bool" where
  "on_allow_list i allow = (case i of None \<Rightarrow> False | Some x \<Rightarrow>
     (case allow of None \<Rightarrow> False | Some xs \<Rightarrow> x \<in> set xs))"

definition isFeatureEnabled :: "feature_flag \<Rightarrow> flag_context \<Rightarrow> bool" where
  "isFeatureEnabled flag ctx =
     (case ff_rollout flag of
        None \<Rightarrow> ff_enabled flag
      | Some rollout \<Rightarrow>
          if on_allow_list (fc_userId ctx) (fr_allowUserIds rollout) then True
          else if on_allow_list (fc_organizationId ctx) (fr_allowOrgIds rollout) then True
          else ff_enabled flag)"

section \<open>The Model Router (router.ts)\<close>

record model_routing_input =
  mi_reasoningTier :: number
  mi_needsTools :: "bool option"
  mi_needsVision :: "bool option"
  mi_requireLocal :: "bool option"
  mi_minContextTokens :: "number option"
  mi_excludeProviders :: "model_provider list option"

record model_routing_decision =
  md_model :: model_entry
  md_fallbacks :: "model_entry list"
  md_reason :: string

definition isEligible :: "model_entry \<Rightarrow> model_routing_input \<Rightarrow> bool" where
  "isEligible m input =
     (if \<not> me_available m then False
      else if is_true (mi_needsTools input) \<and> \<not> mc_tools (me_capabilities m) then False
      else if is_true (mi_needsVision input) \<and> \<not> mc_vision (me_capabilities m) then False
      else if is_true (mi_requireLocal input) \<and> me_privacy m \<noteq> LocalNode then False
      else if me_contextTokens m < coalesce (mi_minContextTokens input) 0 then False
      else if (case mi_excludeProviders input of None \<Rightarrow> False | Some ps \<Rightarrow> me_provider m \<in> set ps)
           then False
      else True)"

definition byCost :: "model_entry \<Rightarrow> model_entry \<Rightarrow> number" where
  "byCost a b =
     (let d = me_outputCostPer1M a - me_outputCostPer1M b in
      if d \<noteq> 0 then d else me_inputCostPer1M a - me_inputCostPer1M b)"

text \<open>
  The reason's text prints the tier; \<open>numText\<close> is the template literal's \<open>Number::toString\<close>.
\<close>

definition routeModel ::
    "(number \<Rightarrow> string) \<Rightarrow> model_routing_input \<Rightarrow> model_entry list \<Rightarrow> model_routing_decision option" where
  "routeModel numText input registry =
     (let eligible = filter (\<lambda>m. isEligible m input) registry in
      if eligible = [] then None
      else
        let tier = mi_reasoningTier input;
            coversTier = filter (\<lambda>m. fst (me_tierRange m) \<le> tier \<and> tier \<le> snd (me_tierRange m)) eligible;
            capableOfTier = filter (\<lambda>m. snd (me_tierRange m) \<ge> tier) eligible;
            pool = (if coversTier \<noteq> [] then coversTier else capableOfTier)
        in case js_sort byCost pool of
             [] \<Rightarrow> None
           | primary # rest \<Rightarrow>
               Some \<lparr>md_model = primary, md_fallbacks = rest,
                     md_reason =
                       (if coversTier \<noteq> []
                        then ''Cheapest model covering tier '' @ numText tier @ '': '' @ me_id primary @ ''.''
                        else ''No model covers tier '' @ numText tier
                             @ '' exactly; escalated to cheapest capable model '' @ me_id primary @ ''.'')\<rparr>)"

lemma byCost_or_else: "byCost = or_else (by_key me_outputCostPer1M) (by_key me_inputCostPer1M)"
  by (simp add: fun_eq_iff byCost_def or_else_def by_key_def Let_def)

interpretation cheapest: comparator byCost
  unfolding byCost_or_else by (rule comparator_or_else)

text \<open>At most as expensive: by output price, then by input price.\<close>

definition no_dearer :: "model_entry \<Rightarrow> model_entry \<Rightarrow> bool" where
  "no_dearer a b \<longleftrightarrow> me_outputCostPer1M a < me_outputCostPer1M b
     \<or> (me_outputCostPer1M a = me_outputCostPer1M b \<and> me_inputCostPer1M a \<le> me_inputCostPer1M b)"

lemma byCost_le: "byCost a b \<le> 0 \<longleftrightarrow> no_dearer a b"
  by (simp add: byCost_or_else or_else_le_iff no_dearer_def)

text \<open>The pool the router ranks: models that cover the tier, or else models that reach it.\<close>

definition covers :: "model_routing_input \<Rightarrow> model_entry \<Rightarrow> bool" where
  "covers i m = (fst (me_tierRange m) \<le> mi_reasoningTier i \<and> mi_reasoningTier i \<le> snd (me_tierRange m))"

definition reaches :: "model_routing_input \<Rightarrow> model_entry \<Rightarrow> bool" where
  "reaches i m = (mi_reasoningTier i \<le> snd (me_tierRange m))"

definition model_pool :: "model_routing_input \<Rightarrow> model_entry list \<Rightarrow> model_entry list" where
  "model_pool i reg =
     (let eligible = filter (\<lambda>m. isEligible m i) reg in
      if \<exists>m \<in> set eligible. covers i m then filter (covers i) eligible else filter (reaches i) eligible)"

lemma routeModel_pool:
  "map_option (\<lambda>d. md_model d # md_fallbacks d) (routeModel numText i reg) =
     (if model_pool i reg = [] then None else Some (js_sort byCost (model_pool i reg)))"
proof -
  have eq: "(\<lambda>m. fst (me_tierRange m) \<le> mi_reasoningTier i \<and> mi_reasoningTier i \<le> snd (me_tierRange m)) = covers i"
    "(\<lambda>m. mi_reasoningTier i \<le> snd (me_tierRange m)) = reaches i"
    by (simp_all add: fun_eq_iff covers_def reaches_def)
  let ?e = "filter (\<lambda>m. isEligible m i) reg"
  have ne: "filter (covers i) ?e \<noteq> [] \<longleftrightarrow> (\<exists>m \<in> set ?e. covers i m)"
    by (auto simp: filter_empty_conv)
  have "model_pool i reg = (if filter (covers i) ?e \<noteq> [] then filter (covers i) ?e else filter (reaches i) ?e)"
    by (simp only: model_pool_def Let_def ne)
  then show ?thesis
    unfolding routeModel_def Let_def eq
    by (auto split: list.splits simp del: filter_filter)
qed

section \<open>Costs and budgets (cost.ts, budget.ts)\<close>

record token_usage =
  tu_inputTokens :: number
  tu_cachedInputTokens :: "number option"
  tu_outputTokens :: number

definition estimateCostUsd :: "model_entry \<Rightarrow> token_usage \<Rightarrow> number" where
  "estimateCostUsd model usage =
     (let cached = coalesce (tu_cachedInputTokens usage) 0;
          uncachedInput = max 0 (tu_inputTokens usage - cached);
          cachedRate = coalesce (me_cachedInputCostPer1M model) (me_inputCostPer1M model);
          inputCost = (uncachedInput * me_inputCostPer1M model + cached * cachedRate) / 1000000;
          outputCost = (tu_outputTokens usage * me_outputCostPer1M model) / 1000000
      in inputCost + outputCost)"

datatype budget_scope =
  BS_organization | BS_project | BS_user | BS_objective | BS_task | BS_provider | BS_model

record budget =
  bu_scope :: budget_scope
  bu_scopeRef :: string
  bu_limitUsd :: number

datatype budget_reason = BudgetOk | ExceedsBudget

record budget_check =
  bc_allowed :: bool
  bc_remainingUsd :: number
  bc_reason :: budget_reason

definition checkBudget :: "budget \<Rightarrow> number \<Rightarrow> number \<Rightarrow> budget_check" where
  "checkBudget budget spentUsd estimateUsd =
     (let remaining = bu_limitUsd budget - spentUsd;
          allowed = (estimateUsd \<le> remaining)
      in \<lparr>bc_allowed = allowed, bc_remainingUsd = remaining, 
          bc_reason = (if allowed then BudgetOk else ExceedsBudget)\<rparr>)"

section \<open>The usage ledger and evaluations (ledger.ts)\<close>

record usage_record =
  ur_inputTokens :: number
  ur_cachedInputTokens :: "number option"
  ur_outputTokens :: number
  ur_modelId :: string
  ur_provider :: string
  ur_costUsd :: number
  ur_latencyMs :: number
  ur_taskId :: "string option"
  ur_objectiveId :: "string option"

type_synonym usage_ledger = "usage_record list"

definition ledger_record :: "usage_record \<Rightarrow> usage_ledger \<Rightarrow> usage_ledger" where
  "ledger_record entry records = records @ [entry]"

definition totalUsd :: "(usage_record \<Rightarrow> bool) option \<Rightarrow> usage_ledger \<Rightarrow> number" where
  "totalUsd predicate records =
     (let rows = (case predicate of None \<Rightarrow> records | Some p \<Rightarrow> filter p records)
      in foldl (\<lambda>sum r. sum + ur_costUsd r) 0 rows)"

lemma foldl_plus_sum: "foldl (\<lambda>s r. s + f r) (a :: number) xs = a + sum_list (map f xs)"
  by (induction xs arbitrary: a) (simp_all add: algebra_simps)

lemma totalUsd_sum:
  "totalUsd None records = sum_list (map ur_costUsd records)"
  "totalUsd (Some p) records = sum_list (map ur_costUsd (filter p records))"
  by (simp_all add: totalUsd_def foldl_plus_sum)

record model_evaluation =
  ml_taskClass :: string
  ml_modelId :: string
  ml_reasoningTier :: number
  ml_qualityScore :: number
  ml_accepted :: bool
  ml_corrected :: bool
  ml_costUsd :: number
  ml_latencyMs :: number

record model_class_summary =
  ms_count :: nat
  ms_acceptanceRate :: number
  ms_avgCostUsd :: number
  ms_avgQuality :: number

fun group_by_model :: "model_evaluation list \<Rightarrow> (string \<times> model_evaluation list) list \<Rightarrow>
    (string \<times> model_evaluation list) list" where
  "group_by_model [] groups = groups"
| "group_by_model (e # es) groups =
     (let bucket = coalesce (map_of groups (ml_modelId e)) []
      in group_by_model es (map_set (ml_modelId e) (bucket @ [e]) groups))"

definition summarize_rows :: "model_evaluation list \<Rightarrow> model_class_summary" where
  "summarize_rows rows =
     (let count = length rows;
          accepted = length (filter ml_accepted rows)
      in \<lparr>ms_count = count,
          ms_acceptanceRate = of_nat accepted / of_nat count,
          ms_avgCostUsd = foldl (\<lambda>s r. s + ml_costUsd r) 0 rows / of_nat count,
          ms_avgQuality = foldl (\<lambda>s r. s + ml_qualityScore r) 0 rows / of_nat count\<rparr>)"

definition summarizeByModel :: "model_evaluation list \<Rightarrow> (string \<times> model_class_summary) list" where
  "summarizeByModel evals = map (\<lambda>g. (fst g, summarize_rows (snd g))) (group_by_model evals [])"

lemma group_by_model_lookup:
  "map_of (group_by_model es groups) m =
     (let old = map_of groups m; new = filter (\<lambda>e. ml_modelId e = m) es
      in if old = None \<and> new = [] then None else Some (coalesce old [] @ new))"
proof (induction es arbitrary: groups)
  case Nil
  then show ?case by (cases "map_of groups m") (simp_all add: Let_def)
next
  case (Cons e es)
  then show ?case
    by (cases "map_of groups m") (auto simp: Let_def)
qed

lemma summarizeByModel_lookup:
  "map_of (summarizeByModel evals) m =
     (let rows = filter (\<lambda>e. ml_modelId e = m) evals
      in if rows = [] then None else Some (summarize_rows rows))"
proof -
  have "map_of (map (\<lambda>g. (fst g, summarize_rows (snd g))) gs) m = map_option summarize_rows (map_of gs m)" for gs
    by (induction gs) auto
  then show ?thesis
    by (simp add: summarizeByModel_def group_by_model_lookup Let_def)
qed

lemma group_by_model_keys:
  "map fst (group_by_model es groups) = fold push_new (map ml_modelId es) (map fst groups)"
  by (induction es arbitrary: groups) (simp_all add: Let_def keys_map_set)

lemma summarizeByModel_keys:
  "map fst (summarizeByModel evals) = fold push_new (map ml_modelId evals) []"
  using group_by_model_keys [of evals "[]"] by (simp add: summarizeByModel_def comp_def)

definition rows_total :: "(string \<times> model_evaluation list) list \<Rightarrow> nat" where
  "rows_total groups = sum_list (map (length \<circ> snd) groups)"

lemma rows_total_map_set:
  "rows_total (map_set k (coalesce (map_of m k) [] @ [e]) m) = Suc (rows_total m)"
  by (induction m) (auto simp: rows_total_def)

lemma group_by_model_total: "rows_total (group_by_model es groups) = rows_total groups + length es"
  by (induction es arbitrary: groups) (simp_all add: Let_def rows_total_map_set)

lemma summarizeByModel_counts:
  "sum_list (map (ms_count \<circ> snd) (summarizeByModel evals)) = length evals"
  using group_by_model_total [of evals "[]"]
  by (simp add: summarizeByModel_def comp_def summarize_rows_def Let_def rows_total_def)

lemma summarize_rows_rate: "0 \<le> ms_acceptanceRate (summarize_rows rows) \<and> ms_acceptanceRate (summarize_rows rows) \<le> 1"
  using length_filter_le [of ml_accepted rows]
  by (simp add: summarize_rows_def Let_def divide_le_eq_1)

lemma summarizeByModel_rates:
  "\<forall>s \<in> snd ` set (summarizeByModel evals). 0 \<le> ms_acceptanceRate s \<and> ms_acceptanceRate s \<le> 1"
  by (auto simp: summarizeByModel_def summarize_rows_rate)

section \<open>Properties\<close>

text \<open>
  C17: The router answers with an eligible model that covers the requested tier when there is one, and
  otherwise with one whose range reaches up to it; no model of that pool is cheaper; its fallbacks are
  exactly the other models of the pool, ordered by price; and it gives no answer exactly when no
  eligible model reaches the tier.
\<close>

theorem routeModel_cheapest:
  "case routeModel numText i reg of
     Some d \<Rightarrow> md_model d \<in> set (model_pool i reg)
       \<and> (\<forall>m \<in> set (model_pool i reg). no_dearer (md_model d) m)
       \<and> mset (md_model d # md_fallbacks d) = mset (model_pool i reg)
       \<and> sorted_wrt no_dearer (md_fallbacks d)
       \<and> (\<forall>m \<in> set (md_model d # md_fallbacks d). isEligible m i \<and> reaches i m)
   | None \<Rightarrow> \<forall>m \<in> set reg. isEligible m i \<longrightarrow> \<not> reaches i m"
proof (cases "routeModel numText i reg")
  case None
  with routeModel_pool [of numText i reg] have "model_pool i reg = []"
    by (simp split: if_splits)
  then have "\<forall>m \<in> set reg. isEligible m i \<longrightarrow> \<not> reaches i m"
    by (auto simp: model_pool_def Let_def filter_empty_conv covers_def reaches_def split: if_splits)
  with None show ?thesis by simp
next
  case (Some d)
  with routeModel_pool [of numText i reg]
  have eq: "js_sort byCost (model_pool i reg) = md_model d # md_fallbacks d"
    by (simp split: if_splits)
  have "mset (md_model d # md_fallbacks d) = mset (model_pool i reg)"
    unfolding eq [symmetric] by simp
  moreover from this have members: "set (md_model d # md_fallbacks d) = set (model_pool i reg)"
    by (rule mset_eq_setD)
  moreover have "\<forall>m \<in> set (model_pool i reg). no_dearer (md_model d) m"
    using cheapest.js_sort_hd_le [OF eq] by (simp add: byCost_le)
  moreover have "sorted_wrt no_dearer (md_fallbacks d)"
    using cheapest.sorted_js_sort [of "model_pool i reg"] by (simp add: eq byCost_le)
  moreover have "\<forall>m \<in> set (model_pool i reg). isEligible m i \<and> reaches i m"
    by (auto simp: model_pool_def Let_def covers_def reaches_def split: if_splits)
  ultimately show ?thesis
    unfolding Some option.case members by (auto simp: members [symmetric])
qed

definition tier_request :: "number \<Rightarrow> model_routing_input" where
  "tier_request tier =
     \<lparr>mi_reasoningTier = tier, mi_needsTools = None, mi_needsVision = None, mi_requireLocal = None,
      mi_minContextTokens = None, mi_excludeProviders = None\<rparr>"

theorem routeModel_cheapest_witness:
  "case routeModel (\<lambda>_. ''5'') (tier_request 5) MODEL_REGISTRY of
     Some d \<Rightarrow> no_dearer (md_model d) (MODEL_REGISTRY ! 1) | None \<Rightarrow> False"
  using routeModel_cheapest [where numText = "\<lambda>_. ''5''" and i = "tier_request 5" and reg = MODEL_REGISTRY]
  by (simp add: MODEL_REGISTRY_def tier_request_def model_pool_def Let_def isEligible_def covers_def
      reaches_def split: option.splits)

text \<open>
  For every model of the registry and a call whose cached tokens are part of its input, the
  estimated cost is not negative, and reading part of the input from the cache saves exactly the
  difference of the two rates on the cached tokens, which is never a loss.
\<close>

theorem estimateCostUsd_cache_saving:
  assumes "m \<in> set MODEL_REGISTRY" and "0 \<le> c" and "c \<le> tin" and "0 \<le> tout"
  shows "let full = estimateCostUsd m \<lparr>tu_inputTokens = tin, tu_cachedInputTokens = None, tu_outputTokens = tout\<rparr>;
             cached = estimateCostUsd m \<lparr>tu_inputTokens = tin, tu_cachedInputTokens = Some c, tu_outputTokens = tout\<rparr>;
             saving = c * (me_inputCostPer1M m - coalesce (me_cachedInputCostPer1M m) (me_inputCostPer1M m)) / 1000000
         in 0 \<le> cached \<and> cached = full - saving \<and> 0 \<le> saving"
proof -
  have rates: "0 \<le> coalesce (me_cachedInputCostPer1M m) (me_inputCostPer1M m)
      \<and> coalesce (me_cachedInputCostPer1M m) (me_inputCostPer1M m) \<le> me_inputCostPer1M m
      \<and> 0 \<le> me_outputCostPer1M m"
    using assms(1) by (auto simp: MODEL_REGISTRY_def)
  let ?r = "coalesce (me_cachedInputCostPer1M m) (me_inputCostPer1M m)"
  have m: "max 0 (tin - c) = tin - c" "max 0 tin = tin"
    using assms by simp_all
  have "0 \<le> (tin - c) * me_inputCostPer1M m" "0 \<le> c * ?r" "0 \<le> tout * me_outputCostPer1M m"
    "0 \<le> c * (me_inputCostPer1M m - ?r)"
    using assms rates by (auto intro!: mult_nonneg_nonneg)
  then show ?thesis
    by (simp add: estimateCostUsd_def Let_def m field_simps)
qed

theorem estimateCostUsd_cache_saving_witness:
  "estimateCostUsd (MODEL_REGISTRY ! 1)
     \<lparr>tu_inputTokens = 1000, tu_cachedInputTokens = Some 500, tu_outputTokens = 100\<rparr> \<ge> 0"
  using estimateCostUsd_cache_saving [of "MODEL_REGISTRY ! 1" 500 1000 100]
  by (simp add: MODEL_REGISTRY_def Let_def)

text \<open>
  The per-model summary is keyed by each evaluated model once, in order of first appearance; the
  summary of a model covers exactly the evaluations of that model, so the counts add up to the number
  of evaluations, and every acceptance rate lies between 0 and 1.
\<close>

theorem summarizeByModel_partition:
  "map_of (summarizeByModel evals) m =
      (let rows = filter (\<lambda>e. ml_modelId e = m) evals
       in if rows = [] then None else Some (summarize_rows rows))
   \<and> distinct (map fst (summarizeByModel evals))
   \<and> map fst (summarizeByModel evals) = fold push_new (map ml_modelId evals) []
   \<and> sum_list (map (ms_count \<circ> snd) (summarizeByModel evals)) = length evals
   \<and> (\<forall>s \<in> snd ` set (summarizeByModel evals). 0 \<le> ms_acceptanceRate s \<and> ms_acceptanceRate s \<le> 1)"
  using summarizeByModel_lookup summarizeByModel_keys summarizeByModel_counts summarizeByModel_rates
  by (metis distinct.simps(1) fold_push_new_props(2))

definition sample_evaluation :: "string \<Rightarrow> bool \<Rightarrow> model_evaluation" where
  "sample_evaluation m ok =
     \<lparr>ml_taskClass = ''draft'', ml_modelId = m, ml_reasoningTier = 3, ml_qualityScore = 4,
      ml_accepted = ok, ml_corrected = False, ml_costUsd = 1, ml_latencyMs = 10\<rparr>"

theorem summarizeByModel_partition_witness:
  "ms_acceptanceRate (snd (hd (summarizeByModel [sample_evaluation ''m1'' True, sample_evaluation ''m1'' False]))) \<le> 1"
proof -
  have "hd (summarizeByModel [sample_evaluation ''m1'' True, sample_evaluation ''m1'' False])
      \<in> set (summarizeByModel [sample_evaluation ''m1'' True, sample_evaluation ''m1'' False])"
    by (simp add: summarizeByModel_def sample_evaluation_def)
  then show ?thesis
    using summarizeByModel_partition
      [of "[sample_evaluation ''m1'' True, sample_evaluation ''m1'' False]" "''m1''"] by blast
qed

end
