(* ===== verification/Context_Packet.thy ===== *)
theory Context_Packet
  imports Donna_Prelude
begin

text \<open>
  The Context Packet builder (\<open>packages/context/src/packet.ts\<close>): a greedy selection by priority under
  a token budget, then ordered by cache tier. The selection loop keeps the source's accumulators; its
  facts are about what was kept and what was dropped.
\<close>

section \<open>The code\<close>

datatype cache_tier = STATIC | SEMI_STABLE | DYNAMIC

fun TIER_ORDER :: "cache_tier \<Rightarrow> number" where
  "TIER_ORDER STATIC = 0"
| "TIER_ORDER SEMI_STABLE = 1"
| "TIER_ORDER DYNAMIC = 2"

record context_item =
  ci_id :: string
  ci_priority :: number
  ci_tokens :: number
  ci_cacheTier :: cache_tier

record context_packet =
  cp_items :: "context_item list"
  cp_totalTokens :: number
  cp_budgetTokens :: number
  cp_dropped :: "context_item list"

definition byPriority :: "context_item \<Rightarrow> context_item \<Rightarrow> number" where
  "byPriority a b = ci_priority b - ci_priority a"

definition byTier :: "context_item \<Rightarrow> context_item \<Rightarrow> number" where
  "byTier a b =
     (let d = TIER_ORDER (ci_cacheTier a) - TIER_ORDER (ci_cacheTier b) in
      if d \<noteq> 0 then d else ci_priority b - ci_priority a)"

fun select_items :: "number \<Rightarrow> context_item list \<Rightarrow>
    context_item list \<times> context_item list \<times> number \<Rightarrow>
    context_item list \<times> context_item list \<times> number" where
  "select_items budget [] acc = acc"
| "select_items budget (item # items) (selected, dropped, used) =
     (if used + ci_tokens item \<le> budget
      then select_items budget items (selected @ [item], dropped, used + ci_tokens item)
      else select_items budget items (selected, dropped @ [item], used))"

definition buildContextPacket :: "context_item list \<Rightarrow> number \<Rightarrow> context_packet" where
  "buildContextPacket items budgetTokens =
     (case select_items budgetTokens (js_sort byPriority items) ([], [], 0) of
        (selected, dropped, used) \<Rightarrow>
          \<lparr>cp_items = js_sort byTier selected, cp_totalTokens = used,
           cp_budgetTokens = budgetTokens, cp_dropped = dropped\<rparr>)"

section \<open>Comparators\<close>

lemma byPriority_by_key: "byPriority = by_key (\<lambda>c. - ci_priority c)"
  by (simp add: fun_eq_iff byPriority_def by_key_def)

lemma byTier_or_else:
  "byTier = or_else (by_key (\<lambda>c. TIER_ORDER (ci_cacheTier c))) (by_key (\<lambda>c. - ci_priority c))"
  by (simp add: fun_eq_iff byTier_def or_else_def by_key_def Let_def)

interpretation priority: comparator byPriority
  unfolding byPriority_by_key by (rule comparator_by_key)

interpretation tier: comparator byTier
  unfolding byTier_or_else by (rule comparator_or_else)

lemma byPriority_le: "byPriority a b \<le> 0 \<longleftrightarrow> ci_priority b \<le> ci_priority a"
  by (simp add: byPriority_def)

lemma byTier_le:
  "byTier a b \<le> 0 \<longleftrightarrow> TIER_ORDER (ci_cacheTier a) < TIER_ORDER (ci_cacheTier b)
     \<or> (ci_cacheTier a = ci_cacheTier b \<and> ci_priority b \<le> ci_priority a)"
  by (cases "ci_cacheTier a"; cases "ci_cacheTier b")
    (simp_all add: byTier_or_else or_else_le_iff)

section \<open>The selection loop\<close>

definition tokens_of :: "context_item list \<Rightarrow> number" where
  "tokens_of xs = sum_list (map ci_tokens xs)"

lemma tokens_of_simps [simp]:
  "tokens_of [] = 0"
  "tokens_of (x # xs) = ci_tokens x + tokens_of xs"
  "tokens_of (xs @ ys) = tokens_of xs + tokens_of ys"
  by (simp_all add: tokens_of_def)

lemma tokens_of_mset: "mset xs = mset ys \<Longrightarrow> tokens_of xs = tokens_of ys"
  unfolding tokens_of_def by (metis mset_map sum_mset_sum_list)

text \<open>
  The loop over a run of items, described by the items it selects and drops: they are a partition in
  order, the counter is the sum of what was selected, and a dropped item did not fit at its turn.
\<close>

lemma select_items_acc:
  "select_items b xs (s, d, u) =
     (case select_items b xs ([], [], u) of (s', d', u') \<Rightarrow> (s @ s', d @ d', u'))"
proof (induction xs arbitrary: s d u)
  case Nil
  then show ?case by simp
next
  case (Cons x xs)
  show ?case
    using Cons.IH [of "s @ [x]" d "u + ci_tokens x"] Cons.IH [of "[x]" "[]" "u + ci_tokens x"]
      Cons.IH [of s "d @ [x]" u] Cons.IH [of "[]" "[x]" u]
    by (auto split: prod.splits)
qed

lemma select_items_partition:
  "select_items b xs ([], [], u) = (s, d, u') \<Longrightarrow>
     mset xs = mset s + mset d \<and> u' = u + tokens_of s \<and> (u \<le> b \<longrightarrow> u' \<le> b)"
proof (induction xs arbitrary: u s d u')
  case Nil
  then show ?case by simp
next
  case (Cons x xs)
  show ?case
  proof (cases "u + ci_tokens x \<le> b")
    case True
    with Cons.prems obtain s' where "select_items b xs ([], [], u + ci_tokens x) = (s', d, u')" "s = x # s'"
      by (subst (asm) select_items.simps, subst (asm) select_items_acc) (auto split: prod.splits)
    with Cons.IH True show ?thesis by fastforce
  next
    case False
    with Cons.prems obtain d' where "select_items b xs ([], [], u) = (s, d', u')" "d = x # d'"
      by (subst (asm) select_items.simps, subst (asm) select_items_acc) (auto split: prod.splits)
    with Cons.IH False show ?thesis by fastforce
  qed
qed

text \<open>The items selected before a position of the run, and what an item dropped there met.\<close>

lemma select_items_dropped:
  assumes "select_items b (xs @ x # ys) ([], [], u) = (s, d, u')"
    and "select_items b xs ([], [], u) = (s1, d1, u1)"
  shows "(if u1 + ci_tokens x \<le> b then mset s1 + {#x#} \<subseteq># mset s else mset d1 + {#x#} \<subseteq># mset d)
    \<and> mset s1 \<subseteq># mset s \<and> mset d1 \<subseteq># mset d"
  using assms
proof (induction xs arbitrary: u s d s1 d1)
  case Nil
  then show ?case
    by (subst (asm) append_Nil, subst (asm) select_items.simps, subst (asm) (1 2) select_items_acc)
      (auto split: prod.splits if_splits)
next
  case (Cons y xs)
  show ?case
  proof (cases "u + ci_tokens y \<le> b")
    case True
    with Cons.prems(1) obtain s' where
      "select_items b (xs @ x # ys) ([], [], u + ci_tokens y) = (s', d, u')" "s = y # s'"
      by (simp, subst (asm) select_items_acc) (auto split: prod.splits)
    moreover from True Cons.prems(2) obtain s1' where
      "select_items b xs ([], [], u + ci_tokens y) = (s1', d1, u1)" "s1 = y # s1'"
      by (simp, subst (asm) select_items_acc) (auto split: prod.splits)
    ultimately show ?thesis using Cons.IH [of "u + ci_tokens y" s' d s1' d1] by auto
  next
    case False
    with Cons.prems(1) obtain d' where
      "select_items b (xs @ x # ys) ([], [], u) = (s, d', u')" "d = y # d'"
      by (simp, subst (asm) select_items_acc) (auto split: prod.splits)
    moreover from False Cons.prems(2) obtain d1' where
      "select_items b xs ([], [], u) = (s1, d1', u1)" "d1 = y # d1'"
      by (simp, subst (asm) select_items_acc) (auto split: prod.splits)
    ultimately show ?thesis using Cons.IH [of u s d' s1 d1'] by auto
  qed
qed

text \<open>With non-negative sizes, a dropped item would overflow the final packet as well.\<close>

lemma select_items_used_mono:
  assumes "\<forall>x \<in> set xs. 0 \<le> ci_tokens x" and "select_items b xs (s, d, u) = (s', d', u')"
  shows "u \<le> u'"
  using assms
proof (induction xs arbitrary: s d u)
  case Nil
  then show ?case by simp
next
  case (Cons x xs)
  from Cons.prems(1) have x: "0 \<le> ci_tokens x" and xs: "\<forall>x \<in> set xs. 0 \<le> ci_tokens x" by auto
  show ?case
  proof (cases "u + ci_tokens x \<le> b")
    case True
    with Cons.prems(2) have "u + ci_tokens x \<le> u'" by (intro Cons.IH [OF xs]) simp
    with x show ?thesis by simp
  next
    case False
    with Cons.prems(2) show ?thesis by (intro Cons.IH [OF xs]) simp
  qed
qed

lemma select_items_dropped_overflow:
  assumes "\<forall>x \<in> set xs. 0 \<le> ci_tokens x"
    and "select_items b xs (s, d, u) = (s', d', u')"
    and "x \<in> set d'" and "x \<notin> set d"
  shows "b < u' + ci_tokens x"
  using assms
proof (induction xs arbitrary: s d u)
  case Nil
  then show ?case by simp
next
  case (Cons y ys)
  show ?case
  proof (cases "u + ci_tokens y \<le> b")
    case True
    with Cons.prems show ?thesis by (intro Cons.IH [of "s @ [y]" d "u + ci_tokens y"]) simp_all
  next
    case False
    with Cons.prems(2) have rest: "select_items b ys (s, d @ [y], u) = (s', d', u')" by simp
    show ?thesis
    proof (cases "x = y")
      case True
      have "u \<le> u'" using Cons.prems(1) by (intro select_items_used_mono [OF _ rest]) simp
      with False True show ?thesis by simp
    next
      case neq: False
      with Cons.prems show ?thesis by (intro Cons.IH [OF _ rest]) simp_all
    qed
  qed
qed

section \<open>Properties\<close>

text \<open>
  A context packet never exceeds its token budget; its items and its dropped items are together
  exactly the items given; the items are laid out static first, then semi-stable, then dynamic, each
  by falling priority; and every dropped item is one the finished packet has no room for.
\<close>

theorem buildContextPacket_within_budget:
  assumes "\<forall>x \<in> set items. 0 \<le> ci_tokens x" and "0 \<le> budget"
  shows "let p = buildContextPacket items budget in
      cp_totalTokens p \<le> budget
      \<and> cp_totalTokens p = tokens_of (cp_items p)
      \<and> mset (cp_items p) + mset (cp_dropped p) = mset items
      \<and> sorted_wrt (\<lambda>a b. TIER_ORDER (ci_cacheTier a) < TIER_ORDER (ci_cacheTier b)
           \<or> ci_cacheTier a = ci_cacheTier b \<and> ci_priority b \<le> ci_priority a) (cp_items p)
      \<and> (\<forall>x \<in> set (cp_dropped p). budget < tokens_of (cp_items p) + ci_tokens x)"
proof -
  obtain s d u where sel: "select_items budget (js_sort byPriority items) ([], [], 0) = (s, d, u)"
    by (metis prod_cases3)
  have part: "mset (js_sort byPriority items) = mset s + mset d" "u = 0 + tokens_of s" "u \<le> budget"
    using select_items_partition [OF sel] assms(2) by auto
  have items: "cp_items (buildContextPacket items budget) = js_sort byTier s"
    and rest: "cp_totalTokens (buildContextPacket items budget) = u"
      "cp_dropped (buildContextPacket items budget) = d"
    by (simp_all add: buildContextPacket_def sel)
  have total: "tokens_of (js_sort byTier s) = u"
    using part(2) tokens_of_mset [of "js_sort byTier s" s] by simp
  have "\<forall>x \<in> set d. budget < u + ci_tokens x"
    using select_items_dropped_overflow [OF _ sel] assms(1) by auto
  moreover have "mset (js_sort byTier s) + mset d = mset items"
    using part(1) by simp
  ultimately show ?thesis
    using part(3) tier.sorted_js_sort [of s]
    by (simp add: items rest total byTier_le)
qed

text \<open>
  C20: The packet is greedy by priority: an item is kept exactly when it fits beside the kept items of
  higher priority (or of equal priority and given earlier), and is dropped otherwise: the tokens it
  competes with are those of the items kept before it, all at least as important.
\<close>

theorem buildContextPacket_greedy:
  assumes split: "js_sort byPriority items = xs @ x # ys"
    and before: "select_items budget xs ([], [], 0) = (s, d, u)"
  shows "(if u + ci_tokens x \<le> budget
          then mset s + {#x#} \<subseteq># mset (cp_items (buildContextPacket items budget))
          else mset d + {#x#} \<subseteq># mset (cp_dropped (buildContextPacket items budget)))
       \<and> (\<forall>y \<in> set s. ci_priority x \<le> ci_priority y)
       \<and> u = tokens_of s"
proof -
  obtain s' d' u' where sel: "select_items budget (xs @ x # ys) ([], [], 0) = (s', d', u')"
    by (metis prod_cases3)
  have kept: "cp_items (buildContextPacket items budget) = js_sort byTier s'"
    "cp_dropped (buildContextPacket items budget) = d'"
    by (simp_all add: buildContextPacket_def split sel)
  have "sorted_wrt (\<lambda>a b. byPriority a b \<le> 0) (xs @ x # ys)"
    using priority.sorted_js_sort [of items] by (simp add: split)
  then have "\<forall>y \<in> set xs. ci_priority x \<le> ci_priority y"
    by (auto simp: sorted_wrt_append byPriority_le)
  moreover have "mset xs = mset s + mset d" "u = 0 + tokens_of s"
    using select_items_partition [OF before] by auto
  moreover from this have "set s \<subseteq> set xs"
    by (metis mset_subset_eq_add_left set_mset_mono set_mset_mset)
  ultimately show ?thesis
    using select_items_dropped [OF sel before] by (auto simp: kept split: if_splits)
qed

definition sample_items :: "context_item list" where
  "sample_items =
     [\<lparr>ci_id = ''note'', ci_priority = 1, ci_tokens = 30, ci_cacheTier = DYNAMIC\<rparr>,
      \<lparr>ci_id = ''policy'', ci_priority = 9, ci_tokens = 60, ci_cacheTier = STATIC\<rparr>,
      \<lparr>ci_id = ''history'', ci_priority = 5, ci_tokens = 50, ci_cacheTier = SEMI_STABLE\<rparr>]"

theorem buildContextPacket_within_budget_witness:
  "cp_totalTokens (buildContextPacket sample_items 100) \<le> 100"
  using buildContextPacket_within_budget [of sample_items 100]
  by (simp add: sample_items_def Let_def)

theorem buildContextPacket_greedy_witness:
  "mset [sample_items ! 1] \<subseteq># mset (cp_items (buildContextPacket sample_items 100))"
  using buildContextPacket_greedy
    [of sample_items "[]" "sample_items ! 1" "[sample_items ! 2, sample_items ! 0]" 100 "[]" "[]" 0]
  by (simp add: sample_items_def byPriority_def)

end
