(* ===== verification/Events.thy ===== *)
theory Events
  imports Core_Domain Effects
begin

text \<open>
  Event creation, the in-process bus and the transactional outbox (\<open>packages/events/src\<close>), the row
  mapping of the \<open>events\<close> table (\<open>packages/db/src/events-mapper.ts\<close>) and the worker's Postgres store
  (\<open>apps/worker/src/outbox-store.ts\<close>). The store interface is the locale \<open>outbox_store\<close>; the dispatcher's
  facts are proved in it and interpreted on both stores.
\<close>

section \<open>Creating events (create-event.ts)\<close>

text \<open>
  Random identifiers and the clock are read from an environment: the n-th \<open>randomUUID()\<close> and the time of
  the n-th \<open>new Date()\<close>. An event takes its id from an even position and its fresh correlation id, if it
  needs one, from the odd one after it.
\<close>

record env =
  uuid_at :: "nat \<Rightarrow> ident"
  clock_at :: "nat \<Rightarrow> time"

record create_event_input =
  ce_type :: event_type
  ce_organizationId :: ident
  ce_actor :: actor
  ce_objectiveId :: "ident option"
  ce_taskId :: "ident option"
  ce_correlationId :: "ident option"
  ce_causationId :: "ident option"
  ce_payloadRef :: "string option"
  ce_now :: "time option"

definition createEvent :: "env \<Rightarrow> nat \<Rightarrow> create_event_input \<Rightarrow> event_envelope" where
  "createEvent env tick input =
     \<lparr>ev_id = uuid_at env (2 * tick),
      ev_type = ce_type input,
      ev_organizationId = ce_organizationId input,
      ev_objectiveId = ce_objectiveId input,
      ev_taskId = ce_taskId input,
      ev_actor = ce_actor input,
      ev_correlationId = coalesce (ce_correlationId input) (uuid_at env (2 * tick + 1)),
      ev_causationId = ce_causationId input,
      ev_payloadRef = ce_payloadRef input,
      ev_createdAt = coalesce (ce_now input) (clock_at env tick)\<rparr>"

text \<open>
  A request takes the random id of the new entity from one position of the environment's supply and its
  event from the next.
\<close>

definition fresh_id :: "env \<Rightarrow> nat \<Rightarrow> ident" where
  "fresh_id env tick = uuid_at env (2 * tick)"

section \<open>The in-process bus (bus.ts)\<close>

text \<open>
  Handlers have identities (\<open>Set\<close> compares function objects); what calling one does is a parameter, an
  action that may throw. The snapshot of matched handlers is taken when \<open>publish\<close> starts.
\<close>

datatype subscription = On event_type | OnAll

type_synonym 'h bus_handlers = "subscription \<Rightarrow> 'h list option"

definition bus_subscribe :: "subscription \<Rightarrow> 'h \<Rightarrow> 'h bus_handlers \<Rightarrow> 'h bus_handlers" where
  "bus_subscribe on handler hs = hs(on \<mapsto> push_new handler (coalesce (hs on) []))"

definition bus_unsubscribe :: "subscription \<Rightarrow> 'h \<Rightarrow> 'h bus_handlers \<Rightarrow> 'h bus_handlers" where
  "bus_unsubscribe on handler hs =
     (case hs on of None \<Rightarrow> hs | Some hset \<Rightarrow> hs(on \<mapsto> filter (\<lambda>h. h \<noteq> handler) hset))"

definition matched :: "'h bus_handlers \<Rightarrow> event_envelope \<Rightarrow> 'h list" where
  "matched hs event = coalesce (hs (On (ev_type event))) [] @ coalesce (hs OnAll) []"

definition bus_publish ::
    "('h \<Rightarrow> event_envelope \<Rightarrow> ('s, 'e, unit) act) \<Rightarrow>
     ('e \<Rightarrow> event_envelope \<Rightarrow> ('s, 'e, unit) act) option \<Rightarrow>
     'h bus_handlers \<Rightarrow> event_envelope \<Rightarrow> ('s, 'e, unit) act" where
  "bus_publish call onError hs event =
     for_each
       (\<lambda>handler. try_act (call handler event)
          (\<lambda>error. case onError of None \<Rightarrow> ret () | Some report \<Rightarrow> report error event))
       (matched hs event)"

section \<open>Rows of the events table (events-mapper.ts, outbox-store.ts)\<close>

text \<open>
  The columns of \<open>type\<close> and \<open>actor_type\<close> are Postgres enums with the members of the unions, so a row
  holds a member and the casts of \<open>rowToEnvelope\<close> are the identity.
\<close>

record event_row =
  er_id :: ident
  er_type :: event_type
  er_organizationId :: ident
  er_objectiveId :: "ident option"
  er_taskId :: "ident option"
  er_actorType :: actor_type
  er_actorId :: string
  er_correlationId :: ident
  er_causationId :: "ident option"
  er_payloadRef :: "string option"
  er_createdAt :: time
  er_dispatchedAt :: "time option"

definition eventEnvelopeToRow :: "event_envelope \<Rightarrow> event_row" where
  "eventEnvelopeToRow event =
     \<lparr>er_id = ev_id event, er_type = ev_type event, er_organizationId = ev_organizationId event,
      er_objectiveId = ev_objectiveId event, er_taskId = ev_taskId event,
      er_actorType = actor_kind (ev_actor event), er_actorId = actor_id (ev_actor event),
      er_correlationId = ev_correlationId event, er_causationId = ev_causationId event,
      er_payloadRef = ev_payloadRef event, er_createdAt = ev_createdAt event,
      er_dispatchedAt = None\<rparr>"

definition rowToEnvelope :: "event_row \<Rightarrow> event_envelope" where
  "rowToEnvelope row =
     \<lparr>ev_id = er_id row, ev_type = er_type row, ev_organizationId = er_organizationId row,
      ev_objectiveId = er_objectiveId row, ev_taskId = er_taskId row,
      ev_actor = \<lparr>actor_kind = er_actorType row, actor_id = er_actorId row\<rparr>,
      ev_correlationId = er_correlationId row, ev_causationId = er_causationId row,
      ev_payloadRef = er_payloadRef row, ev_createdAt = er_createdAt row\<rparr>"

lemma rowToEnvelope_id [simp]: "ev_id (rowToEnvelope r) = er_id r"
  by (simp add: rowToEnvelope_def)

lemma eventEnvelopeToRow_id [simp]:
  "er_id (eventEnvelopeToRow e) = ev_id e"
  "er_dispatchedAt (eventEnvelopeToRow e) = None"
  "er_organizationId (eventEnvelopeToRow e) = ev_organizationId e"
  "er_taskId (eventEnvelopeToRow e) = ev_taskId e"
  "er_objectiveId (eventEnvelopeToRow e) = ev_objectiveId e"
  by (simp_all add: eventEnvelopeToRow_def)

section \<open>The outbox dispatcher (outbox.ts)\<close>

text \<open>
  The state is the store beside the bus's world. Delivered ids are collected by the loop and marked only
  after it, so an exception of \<open>publish\<close> leaves the store as it was.
\<close>

fun deliver :: "(event_envelope \<Rightarrow> ('w, 'e, unit) act) \<Rightarrow> event_envelope list \<Rightarrow> ident list \<Rightarrow>
    ('w, 'e, ident list) act" where
  "deliver publish [] delivered = ret delivered"
| "deliver publish (event # events) delivered =
     seq_act (publish event) (deliver publish events (delivered @ [ev_id event]))"

definition dispatchBatch ::
    "(nat \<Rightarrow> 's \<Rightarrow> event_envelope list) \<Rightarrow> (ident list \<Rightarrow> 's \<Rightarrow> 's) \<Rightarrow>
     (event_envelope \<Rightarrow> ('w, 'e, unit) act) \<Rightarrow> nat \<Rightarrow> ('s \<times> 'w, 'e, nat) act" where
  "dispatchBatch fetch mark publish limit = (\<lambda>(store, w).
     (case deliver publish (fetch limit store) [] w of
        (Inl e, w') \<Rightarrow> (Inl e, (store, w'))
      | (Inr delivered, w') \<Rightarrow>
          (Inr (length delivered),
           (if length delivered > 0 then mark delivered store else store, w'))))"

text \<open>The in-memory store.\<close>

record memory_outbox =
  mo_pending :: "event_envelope list"
  mo_published :: "ident list"

definition mo_enqueue :: "event_envelope \<Rightarrow> memory_outbox \<Rightarrow> memory_outbox" where
  "mo_enqueue event store = store\<lparr>mo_pending := mo_pending store @ [event]\<rparr>"

definition mo_unpublished :: "memory_outbox \<Rightarrow> event_envelope list" where
  "mo_unpublished store = filter (\<lambda>e. ev_id e \<notin> set (mo_published store)) (mo_pending store)"

definition mo_fetchUnpublished :: "nat \<Rightarrow> memory_outbox \<Rightarrow> event_envelope list" where
  "mo_fetchUnpublished limit store = take limit (mo_unpublished store)"

definition mo_markPublished :: "ident list \<Rightarrow> memory_outbox \<Rightarrow> memory_outbox" where
  "mo_markPublished ids store = store\<lparr>mo_published := fold push_new ids (mo_published store)\<rparr>"

definition mo_unpublishedCount :: "memory_outbox \<Rightarrow> nat" where
  "mo_unpublishedCount store = length (mo_unpublished store)"

text \<open>
  The Postgres store, over the rows of the table. \<open>order by created_at\<close> is the stable sort: rows of equal
  time keep their table order, a choice SQL leaves open.
\<close>

definition byCreatedAt :: "event_row \<Rightarrow> event_row \<Rightarrow> number" where
  "byCreatedAt a b = of_int (er_createdAt a) - of_int (er_createdAt b)"

definition undispatched :: "event_row list \<Rightarrow> event_row list" where
  "undispatched rows = js_sort byCreatedAt (filter (\<lambda>r. er_dispatchedAt r = None) rows)"

definition db_fetchUnpublished :: "nat \<Rightarrow> event_row list \<Rightarrow> event_envelope list" where
  "db_fetchUnpublished limit rows = map rowToEnvelope (take limit (undispatched rows))"

definition db_markPublished :: "time \<Rightarrow> ident list \<Rightarrow> event_row list \<Rightarrow> event_row list" where
  "db_markPublished now ids rows =
     (if ids = [] then rows
      else map (\<lambda>r. if er_id r \<in> set ids then r\<lparr>er_dispatchedAt := Some now\<rparr> else r) rows)"

section \<open>The store contract\<close>

text \<open>
  What the dispatcher relies on: a fetch answers the oldest pending events, and marking removes exactly
  the marked ones from them.
\<close>

locale outbox_store =
  fixes fetch :: "nat \<Rightarrow> 's \<Rightarrow> event_envelope list"
    and mark :: "ident list \<Rightarrow> 's \<Rightarrow> 's"
    and pending :: "'s \<Rightarrow> event_envelope list"
  assumes fetch_pending: "fetch n s = take n (pending s)"
    and pending_mark: "pending (mark ids s) = filter (\<lambda>e. ev_id e \<notin> set ids) (pending s)"
begin

lemma deliver_Inr:
  "deliver publish es acc w = (Inr ids, w') \<Longrightarrow>
     ids = acc @ map ev_id es \<and> for_each publish es w = (Inr (), w')"
  by (induction es arbitrary: acc w)
    (fastforce simp: ret_def seq_act_def bind_act_def split: prod.splits sum.splits)+

lemma deliver_Inl:
  "deliver publish es acc w = (Inl x, w') \<Longrightarrow>
     \<exists>es1 e es2 w1. es = es1 @ e # es2 \<and> for_each publish es1 w = (Inr (), w1) \<and> publish e w1 = (Inl x, w')"
proof (induction es arbitrary: acc w)
  case Nil
  then show ?case by (simp add: ret_def)
next
  case (Cons e es)
  show ?case
  proof (cases "publish e w")
    case (Pair r w1)
    show ?thesis
    proof (cases r)
      case (Inl y)
      with Pair Cons.prems have "publish e w = (Inl x, w')"
        by (simp add: seq_act_def bind_act_def)
      then have "e # es = [] @ e # es \<and> for_each publish [] w = (Inr (), w) \<and> publish e w = (Inl x, w')"
        by (simp add: ret_def)
      then show ?thesis by blast
    next
      case (Inr u)
      with Pair Cons.prems have "deliver publish es (acc @ [ev_id e]) w1 = (Inl x, w')"
        by (simp add: seq_act_def bind_act_def)
      from Cons.IH [OF this] obtain es1 e' es2 w2 where "es = es1 @ e' # es2"
        "for_each publish es1 w1 = (Inr (), w2)" "publish e' w2 = (Inl x, w')"
        by blast
      then have "e # es = (e # es1) @ e' # es2 \<and> for_each publish (e # es1) w = (Inr (), w2)
          \<and> publish e' w2 = (Inl x, w')"
        using Pair Inr by (simp add: seq_act_def bind_act_def)
      then show ?thesis by blast
    qed
  qed
qed

lemma filter_after_take:
  assumes "distinct (map ev_id es)"
  shows "filter (\<lambda>e. ev_id e \<notin> set (map ev_id (take n es))) es = drop n es"
proof -
  have "distinct (map ev_id (take n es) @ map ev_id (drop n es))"
    using assms by (metis append_take_drop_id map_append)
  then have "\<forall>e \<in> set (drop n es). ev_id e \<notin> set (map ev_id (take n es))"
    by auto
  then have "filter (\<lambda>e. ev_id e \<notin> set (map ev_id (take n es))) (take n es) = []"
    and "filter (\<lambda>e. ev_id e \<notin> set (map ev_id (take n es))) (drop n es) = drop n es"
    by (simp_all add: filter_empty_conv filter_id_conv)
  then show ?thesis
    by (metis append_Nil append_take_drop_id filter_append)
qed

lemma dispatch_returns:
  assumes "dispatchBatch fetch mark publish n (s, w) = (Inr k, (s', w'))"
    and "distinct (map ev_id (pending s))"
  shows "k = min n (length (pending s))
    \<and> for_each publish (take n (pending s)) w = (Inr (), w')
    \<and> pending s' = drop n (pending s)"
proof -
  from assms(1) obtain ids where d: "deliver publish (take n (pending s)) [] w = (Inr ids, w')"
    and k: "k = length ids" and s': "s' = (if length ids > 0 then mark ids s else s)"
    by (auto simp: dispatchBatch_def fetch_pending split: prod.splits sum.splits)
  from deliver_Inr [OF d] have ids: "ids = map ev_id (take n (pending s))"
    and run: "for_each publish (take n (pending s)) w = (Inr (), w')"
    by simp_all
  have "pending s' = drop n (pending s)"
    using filter_after_take [OF assms(2), of n] by (auto simp: s' pending_mark ids)
  with run ids k show ?thesis by simp
qed

lemma dispatch_throws:
  assumes "dispatchBatch fetch mark publish n (s, w) = (Inl x, (s', w'))"
  shows "s' = s \<and> (\<exists>es1 e es2 w1. take n (pending s) = es1 @ e # es2
    \<and> for_each publish es1 w = (Inr (), w1) \<and> publish e w1 = (Inl x, w'))"
proof -
  from assms have "deliver publish (take n (pending s)) [] w = (Inl x, w')" and "s' = s"
    by (auto simp: dispatchBatch_def fetch_pending split: prod.splits sum.splits)
  with deliver_Inl [of publish "take n (pending s)" "[]" w x w'] show ?thesis by blast
qed

end

fun dispatch_times :: "(nat \<Rightarrow> 's \<Rightarrow> event_envelope list) \<Rightarrow> (ident list \<Rightarrow> 's \<Rightarrow> 's) \<Rightarrow>
     (event_envelope \<Rightarrow> ('w, 'e, unit) act) \<Rightarrow> nat \<Rightarrow> nat \<Rightarrow> 's \<times> 'w \<Rightarrow> 's \<times> 'w" where
  "dispatch_times fetch mark publish limit 0 sw = sw"
| "dispatch_times fetch mark publish limit (Suc k) sw =
     dispatch_times fetch mark publish limit k (snd (dispatchBatch fetch mark publish limit sw))"

context outbox_store
begin

lemma deliver_total:
  assumes "\<And>e w. fst (publish e w) = Inr ()"
  shows "\<exists>ids w'. deliver publish es acc w = (Inr ids, w')"
proof (induction es arbitrary: acc w)
  case Nil
  then show ?case by (simp add: ret_def)
next
  case (Cons e es)
  obtain w1 where "publish e w = (Inr (), w1)"
    using assms [of e w] by (metis prod.collapse)
  with Cons.IH show ?case by (simp add: seq_act_def bind_act_def)
qed

lemma for_each_append:
  "for_each f (xs @ ys) = seq_act (for_each f xs) (for_each f ys)"
  by (induction xs) (auto simp: fun_eq_iff seq_act_def bind_act_def ret_def split: prod.splits sum.splits)

text \<open>With a bus that delivers, ticks of the dispatcher drain the store, in order and without repeats.\<close>

lemma dispatch_drains:
  assumes "\<And>e w. fst (publish e w) = Inr ()" and "distinct (map ev_id (pending s))"
    and "dispatch_times fetch mark publish n k (s, w) = (s', w')"
  shows "pending s' = drop (k * n) (pending s)
    \<and> for_each publish (take (k * n) (pending s)) w = (Inr (), w')"
  using assms(2,3)
proof (induction k arbitrary: s w)
  case 0
  then show ?case by (simp add: ret_def)
next
  case (Suc k)
  obtain r s1 w1 where b: "dispatchBatch fetch mark publish n (s, w) = (r, (s1, w1))"
    by (metis prod_cases3)
  have "\<exists>ids w'. deliver publish (fetch n s) [] w = (Inr ids, w')"
    using assms(1) by (rule deliver_total)
  with b obtain c where r: "r = Inr c"
    by (auto simp: dispatchBatch_def)
  note step = dispatch_returns [OF b [unfolded r] Suc.prems(1)]
  have "distinct (map ev_id (pending s1))"
    using step Suc.prems(1) by (metis distinct_drop drop_map)
  with Suc b have IH: "pending s' = drop (k * n) (pending s1)"
    "for_each publish (take (k * n) (pending s1)) w1 = (Inr (), w')"
    by auto
  have "take (Suc k * n) (pending s) = take n (pending s) @ take (k * n) (pending s1)"
    using step by (simp add: take_add)
  with step IH show ?case
    by (simp add: for_each_append seq_act_def bind_act_def add.commute)
qed

end

interpretation memory: outbox_store mo_fetchUnpublished mo_markPublished mo_unpublished
  by unfold_locales
    (auto simp: mo_fetchUnpublished_def mo_unpublished_def mo_markPublished_def intro: filter_cong)

lemma byCreatedAt_by_key: "byCreatedAt = by_key (\<lambda>r. of_int (er_createdAt r))"
  by (simp add: fun_eq_iff byCreatedAt_def by_key_def)

interpretation oldest: comparator byCreatedAt
  unfolding byCreatedAt_by_key by (rule comparator_by_key)

definition db_pending :: "event_row list \<Rightarrow> event_envelope list" where
  "db_pending rows = map rowToEnvelope (undispatched rows)"

lemma undispatched_mark:
  "undispatched (db_markPublished now ids rows) = filter (\<lambda>r. er_id r \<notin> set ids) (undispatched rows)"
proof -
  have "filter (\<lambda>r. er_dispatchedAt r = None)
      (map (\<lambda>r. if er_id r \<in> set ids then r\<lparr>er_dispatchedAt := Some now\<rparr> else r) rows)
    = filter (\<lambda>r. er_id r \<notin> set ids) (filter (\<lambda>r. er_dispatchedAt r = None) rows)"
    by (induction rows) auto
  then show ?thesis
    by (cases "ids = []") (simp_all add: undispatched_def db_markPublished_def oldest.js_sort_filter)
qed

interpretation postgres: outbox_store db_fetchUnpublished "db_markPublished now" db_pending for now
  by unfold_locales
    (auto simp: db_fetchUnpublished_def db_pending_def undispatched_mark take_map filter_map comp_def)

section \<open>Properties\<close>

text \<open>
  Mapping an event to its row and back gives the event again, and mapping a row to an event and back
  gives the row with its dispatch marker cleared: nothing of an event is lost in the events table, and
  the write half always leaves the event to be dispatched.
\<close>

theorem event_row_roundtrip:
  "rowToEnvelope (eventEnvelopeToRow e) = e
   \<and> eventEnvelopeToRow (rowToEnvelope r) = r\<lparr>er_dispatchedAt := None\<rparr>"
  by (simp add: rowToEnvelope_def eventEnvelopeToRow_def)

text \<open>The operations on the bus, and whether a handler is subscribed after a sequence of them.\<close>

datatype 'h bus_op = Subscribe subscription 'h | Unsubscribe subscription 'h

fun run_bus_op :: "'h bus_op \<Rightarrow> 'h bus_handlers \<Rightarrow> 'h bus_handlers" where
  "run_bus_op (Subscribe on h) hs = bus_subscribe on h hs"
| "run_bus_op (Unsubscribe on h) hs = bus_unsubscribe on h hs"

definition last_op :: "'h bus_op list \<Rightarrow> subscription \<Rightarrow> 'h \<Rightarrow> 'h bus_op option" where
  "last_op ops on h = find (\<lambda>o'. o' = Subscribe on h \<or> o' = Unsubscribe on h) (rev ops)"

definition after_ops :: "'h bus_op list \<Rightarrow> 'h bus_handlers" where
  "after_ops ops = fold run_bus_op ops (\<lambda>_. None)"

lemma after_ops_snoc: "after_ops (ops @ [p]) = run_bus_op p (after_ops ops)"
  by (simp add: after_ops_def)

lemma after_ops_set:
  "distinct (coalesce (after_ops ops on) [])
   \<and> (h \<in> set (coalesce (after_ops ops on) []) \<longleftrightarrow> last_op ops on h = Some (Subscribe on h))"
proof (induction ops rule: rev_induct)
  case Nil
  then show ?case by (simp add: after_ops_def last_op_def)
next
  case (snoc p ops)
  then show ?case
    by (cases p)
      (auto simp: after_ops_snoc bus_subscribe_def bus_unsubscribe_def last_op_def coalesce_def
        push_new_def split: option.splits if_splits)
qed

lemma count_list_distinct: "distinct xs \<Longrightarrow> count_list xs x = (if x \<in> set xs then 1 else 0)"
  by (induction xs) auto

text \<open>
  Publishing calls, one after the other, each handler whose latest subscription to the event's type
  or to every event has not been revoked, once per such subscription, whatever the handlers do: a handler
  that throws is reported when there is a reporter, the rest are still called, and publishing itself does
  not fail (a reporter that throws is the one exception, excluded here).
\<close>

theorem publish_isolates_handlers:
  assumes called: "\<And>h ev s. calls (snd (call h ev s)) = calls s @ [h]"
    and reporter: "\<And>f e ev s. onError = Some f \<Longrightarrow> fst (f e ev s) = Inr () \<and> calls (snd (f e ev s)) = calls s"
  shows "\<exists>s' delivered. bus_publish call onError (after_ops ops) ev s = (Inr (), s')
    \<and> calls s' = calls s @ delivered
    \<and> (\<forall>h. count_list delivered h =
         (if last_op ops (On (ev_type ev)) h = Some (Subscribe (On (ev_type ev)) h) then 1 else 0)
         + (if last_op ops OnAll h = Some (Subscribe OnAll h) then 1 else 0))"
proof -
  let ?f = "\<lambda>h. try_act (call h ev) (\<lambda>e. case onError of None \<Rightarrow> ret () | Some f \<Rightarrow> f e ev)"
  have one: "\<exists>s'. ?f h s = (Inr (), s') \<and> calls s' = calls s @ [h]" for h s
  proof -
    obtain r s1 where r: "call h ev s = (r, s1)" and c: "calls s1 = calls s @ [h]"
      using called [of h ev s] by (metis prod.collapse)
    show ?thesis
    proof (cases r)
      case (Inl e)
      show ?thesis
      proof (cases onError)
        case None
        with r c Inl show ?thesis by (simp add: try_act_def ret_def)
      next
        case (Some f)
        with reporter [OF Some, of e ev s1] r c Inl show ?thesis
          by (cases "f e ev s1") (simp add: try_act_def)
      qed
    qed (use r c in \<open>simp add: try_act_def\<close>)
  qed
  have "\<exists>s'. for_each ?f hs s = (Inr (), s') \<and> calls s' = calls s @ hs" for hs s
  proof (induction hs arbitrary: s)
    case Nil
    then show ?case by (simp add: ret_def)
  next
    case (Cons h hs)
    from one [of h s] obtain s1 where "?f h s = (Inr (), s1)" "calls s1 = calls s @ [h]" by blast
    with Cons.IH [of s1] show ?case by (auto simp: seq_act_def bind_act_def)
  qed
  from this [of "matched (after_ops ops) ev" s] obtain s' where
    "bus_publish call onError (after_ops ops) ev s = (Inr (), s')"
    "calls s' = calls s @ matched (after_ops ops) ev"
    by (auto simp: bus_publish_def)
  moreover have "count_list (matched (after_ops ops) ev) h =
      (if last_op ops (On (ev_type ev)) h = Some (Subscribe (On (ev_type ev)) h) then 1 else 0)
      + (if last_op ops OnAll h = Some (Subscribe OnAll h) then 1 else 0)" for h
    using after_ops_set [of ops "On (ev_type ev)" h] after_ops_set [of ops OnAll h]
    by (simp add: matched_def count_list_distinct)
  ultimately show ?thesis by blast
qed

definition sample_event :: "ident \<Rightarrow> event_envelope" where
  "sample_event i =
     \<lparr>ev_id = i, ev_type = ET_task_created, ev_organizationId = ''org'', ev_objectiveId = None,
      ev_taskId = None, ev_actor = \<lparr>actor_kind = ActorHuman, actor_id = ''u''\<rparr>, ev_correlationId = ''c'',
      ev_causationId = None, ev_payloadRef = None, ev_createdAt = 0\<rparr>"

definition log_call :: "nat \<Rightarrow> event_envelope \<Rightarrow> (nat list, unit, unit) act" where
  "log_call h ev s = ((if h = 0 then Inl () else Inr ()), s @ [h])"

theorem publish_isolates_handlers_witness:
  "\<exists>s' delivered. bus_publish log_call None
       (after_ops [Subscribe OnAll (0 :: nat), Subscribe (On ET_task_created) 1]) (sample_event ''e'') []
       = (Inr (), s') \<and> s' = [] @ delivered \<and> count_list delivered 1 = 1"
  using publish_isolates_handlers
    [where calls = "\<lambda>s. s" and call = log_call and onError = None and s = "[]"
      and ops = "[Subscribe OnAll 0, Subscribe (On ET_task_created) 1]" and ev = "sample_event ''e''"]
  by (fastforce simp: log_call_def sample_event_def last_op_def)

lemma db_pending_distinct: "distinct (map er_id rows) \<Longrightarrow> distinct (map ev_id (db_pending rows))"
proof -
  assume "distinct (map er_id rows)"
  then have "distinct (map er_id (filter (\<lambda>r. er_dispatchedAt r = None) rows))"
    by (simp add: distinct_map_filter)
  moreover have "mset (map er_id (undispatched rows)) =
      mset (map er_id (filter (\<lambda>r. er_dispatchedAt r = None) rows))"
    by (simp add: undispatched_def)
  ultimately have "distinct (map er_id (undispatched rows))"
    using mset_eq_imp_distinct_iff by blast
  then show ?thesis by (simp add: db_pending_def comp_def)
qed

text \<open>
  A batch of the outbox delivers the oldest undispatched events, at most the limit, one after the
  other. If every delivery succeeds, exactly these events are marked and the later ones stay pending. If
  a delivery throws, nothing at all is marked, so every event of the batch, those already delivered
  included, is delivered again by the next batch: delivery is at least once, never lost.
\<close>

theorem dispatchBatch_at_least_once:
  assumes "distinct (map er_id rows)"
  shows "case dispatchBatch db_fetchUnpublished (db_markPublished now) publish n (rows, w) of
      (Inr k, (rows', w')) \<Rightarrow>
        k = min n (length (db_pending rows))
        \<and> for_each publish (take n (db_pending rows)) w = (Inr (), w')
        \<and> db_pending rows' = drop n (db_pending rows)
    | (Inl x, (rows', w')) \<Rightarrow>
        rows' = rows
        \<and> (\<exists>sent failed rest w1. take n (db_pending rows) = sent @ failed # rest
             \<and> for_each publish sent w = (Inr (), w1) \<and> publish failed w1 = (Inl x, w'))"
  using postgres.dispatch_returns [OF _ db_pending_distinct [OF assms]] postgres.dispatch_throws
  by (fastforce split: prod.split sum.split)

definition flaky :: "event_envelope \<Rightarrow> (ident list, unit, unit) act" where
  "flaky e w = (if ev_id e = ''bad'' then (Inl (), w) else (Inr (), w @ [ev_id e]))"

definition sample_row :: "ident \<Rightarrow> time \<Rightarrow> event_row" where
  "sample_row i t = (eventEnvelopeToRow (sample_event i))\<lparr>er_createdAt := t\<rparr>"

theorem dispatchBatch_at_least_once_witness:
  "snd (dispatchBatch db_fetchUnpublished (db_markPublished 9) flaky 10
      ([sample_row ''bad'' 2, sample_row ''first'' 1], []))
   = ([sample_row ''bad'' 2, sample_row ''first'' 1], [''first''])"
  using dispatchBatch_at_least_once
    [where rows = "[sample_row ''bad'' 2, sample_row ''first'' 1]" and now = 9 and publish = flaky
      and n = 10 and w = "[]"]
  by (simp add: sample_row_def sample_event_def eventEnvelopeToRow_def db_pending_def
      undispatched_def byCreatedAt_def dispatchBatch_def db_fetchUnpublished_def rowToEnvelope_def
      flaky_def seq_act_def bind_act_def ret_def)

text \<open>
  C16: Once the bus delivers, repeated ticks of the dispatcher with a positive limit empty the outbox: after
  enough ticks to cover the backlog no event is pending, and each event of the backlog has been delivered
  exactly once, oldest first.
\<close>

theorem outbox_drains:
  assumes "\<And>e w. fst (publish e w) = Inr ()" and "distinct (map er_id rows)"
    and "length (db_pending rows) \<le> ticks * n"
  shows "\<exists>rows' w'. dispatch_times db_fetchUnpublished (db_markPublished now) publish n ticks (rows, w)
      = (rows', w') \<and> db_pending rows' = [] \<and> for_each publish (db_pending rows) w = (Inr (), w')
      \<and> sorted_wrt (\<lambda>a b. ev_createdAt a \<le> ev_createdAt b) (db_pending rows)"
proof -
  obtain rows' w' where d:
    "dispatch_times db_fetchUnpublished (db_markPublished now) publish n ticks (rows, w) = (rows', w')"
    by (metis prod.collapse)
  have "sorted_wrt (\<lambda>a b. ev_createdAt a \<le> ev_createdAt b) (db_pending rows)"
    using oldest.sorted_js_sort [of "filter (\<lambda>r. er_dispatchedAt r = None) rows"]
    by (simp add: db_pending_def undispatched_def sorted_wrt_map rowToEnvelope_def byCreatedAt_def)
  then show ?thesis
    using postgres.dispatch_drains [OF assms(1) db_pending_distinct [OF assms(2)] d] assms(3) d
    by simp
qed

definition deliver_log :: "event_envelope \<Rightarrow> (ident list, unit, unit) act" where
  "deliver_log e w = (Inr (), w @ [ev_id e])"

theorem outbox_drains_witness:
  "\<exists>rows' w'. dispatch_times db_fetchUnpublished (db_markPublished 9) deliver_log 1 2
      ([sample_row ''b'' 2, sample_row ''a'' 1], []) = (rows', w') \<and> db_pending rows' = []"
  using outbox_drains [where publish = deliver_log and now = 9 and n = 1 and ticks = 2 and w = "[]"
      and rows = "[sample_row ''b'' 2, sample_row ''a'' 1]"]
  by (fastforce simp: deliver_log_def sample_row_def sample_event_def eventEnvelopeToRow_def
      db_pending_def undispatched_def byCreatedAt_def)

end
