(* ===== verification/Orchestrator.thy ===== *)
theory Orchestrator
  imports Events Js_Values Policy_Engine Work_Routing Model_Routing
begin

text \<open>
  The adapter contracts (\<open>packages/adapters/base/src/contracts.ts\<close>) and the orchestrator
  (\<open>packages/orchestrator/src\<close>: work-order.ts, capability-catalog.ts, orchestrator.ts). Adapters and the
  bus act on a world \<open>'w\<close> and may throw \<open>'e\<close>; what they do is a parameter. The runtime state is that world,
  the usage ledger, the position in the environment's supply of ids and times, and a log of the calls the
  orchestrator makes on its dependencies, in order, which the properties are stated on.
\<close>

section \<open>Adapter contracts (contracts.ts)\<close>

record cost_estimate =
  es_costUsd :: number
  es_latencyMs :: number
  es_confidence :: number

record adapter_usage =
  us_costUsd :: number
  us_latencyMs :: number
  us_details :: "(string \<times> number) list option"

record execution_context =
  cx_idempotencyKey :: "string option"
  cx_correlationId :: "string option"

record ('w, 'e) capability_adapter =
  cad_id :: string
  cad_name :: string
  cad_version :: string
  cad_capabilities :: "string list"
  cad_estimate :: "js \<Rightarrow> execution_context \<Rightarrow> ('w, 'e, cost_estimate) act"
  cad_execute :: "js \<Rightarrow> execution_context \<Rightarrow> ('w, 'e, js) act"
  cad_reportUsage :: "('w, 'e, adapter_usage option) act"
  cad_classifyError :: "'e \<Rightarrow> error_class"

text \<open>The role of a message that arrives in a job payload is not checked against the union, so it is text.\<close>

record model_message =
  mm_role :: string
  mm_content :: string

record model_request =
  mq_messages :: "model_message list"
  mq_maxOutputTokens :: "number option"
  mq_reasoningTier :: "number option"

record model_usage =
  mu_inputTokens :: number
  mu_cachedInputTokens :: "number option"
  mu_outputTokens :: number
  mu_reasoningTokens :: "number option"
  mu_costUsd :: number
  mu_latencyMs :: number

record model_result =
  mr_text :: string
  mr_usage :: model_usage
  mr_finishReason :: string

record ('w, 'e) model_adapter =
  mad_id :: string
  mad_estimate :: "model_request \<Rightarrow> execution_context \<Rightarrow> ('w, 'e, cost_estimate) act"
  mad_execute :: "model_request \<Rightarrow> execution_context \<Rightarrow> ('w, 'e, model_result) act"
  mad_classifyError :: "'e \<Rightarrow> error_class"

section \<open>Work orders (work-order.ts)\<close>

record order_budget =
  wb_budget :: budget
  wb_spentUsd :: number

text \<open>
  The policy gate of an order is what \<open>evaluate\<close> reads. The types of the two gates are parameters because
  the worker's parser passes them through as it finds them.
\<close>

record ('p, 'b) work_order =
  wo_organizationId :: string
  wo_taskId :: "string option"
  wo_correlationId :: "string option"
  wo_actor :: "actor option"
  wo_requiredCapabilities :: "string list"
  wo_prefersHuman :: "bool option"
  wo_needsReasoning :: "bool option"
  wo_reasoningTier :: "number option"
  wo_needsTools :: "bool option"
  wo_needsVision :: "bool option"
  wo_requireLocal :: "bool option"
  wo_minContextTokens :: "number option"
  wo_modelRequest :: "model_request option"
  wo_capabilityInput :: js
  wo_policy :: "'p option"
  wo_budget :: "'b option"

type_synonym order = "(policy_input, order_budget) work_order"

definition EXECUTE_WORK_ORDER_TASK :: string where
  "EXECUTE_WORK_ORDER_TASK = ''execute-work-order''"

datatype work_order_status =
    WS_completed | WS_awaiting_human | WS_approval_required | WS_denied | WS_blocked
  | WS_budget_exceeded | WS_failed

record work_order_result =
  wx_status :: work_order_status
  wx_executionClass :: "execution_class option"
  wx_modelId :: "string option"
  wx_capabilityId :: "string option"
  wx_text :: "string option"
  wx_output :: js
  wx_reason :: "string option"

definition result_of :: "work_order_status \<Rightarrow> work_order_result" where
  "result_of status =
     \<lparr>wx_status = status, wx_executionClass = None, wx_modelId = None, wx_capabilityId = None,
      wx_text = None, wx_output = JUndefined, wx_reason = None\<rparr>"

record ('w, 'e) orchestrator_deps =
  od_publish :: "event_envelope \<Rightarrow> ('w, 'e, unit) act"
  od_workRegistry :: capability_registry
  od_modelRegistry :: "model_entry list"
  od_resolveModelAdapter :: "string \<Rightarrow> ('w, 'e) model_adapter option"
  od_resolveCapabilityAdapter :: "(string \<Rightarrow> ('w, 'e) capability_adapter option) option"
  od_env :: env
  od_numText :: "number \<Rightarrow> string"

section \<open>The capability catalog (capability-catalog.ts)\<close>

record 'a catalog_entry =
  cat_adapter :: 'a
  cat_executionClass :: execution_class
  cat_provides :: "string list"
  cat_health :: health_status

record register_options =
  ro_provides :: "string list option"
  ro_health :: "health_status option"

type_synonym ('w, 'e) capability_catalog = "(string \<times> ('w, 'e) capability_adapter catalog_entry) list"

definition catalog_register ::
    "('w, 'e) capability_adapter \<Rightarrow> execution_class \<Rightarrow> register_options \<Rightarrow>
     ('w, 'e) capability_catalog \<Rightarrow> ('w, 'e) capability_catalog" where
  "catalog_register adapter cls options entries =
     map_set (cad_id adapter)
       \<lparr>cat_adapter = adapter, cat_executionClass = cls,
        cat_provides = coalesce (ro_provides options) (cad_capabilities adapter),
        cat_health = coalesce (ro_health options) Healthy\<rparr> entries"

definition catalog_resolve :: "('w, 'e) capability_catalog \<Rightarrow> string \<Rightarrow> ('w, 'e) capability_adapter option" where
  "catalog_resolve entries i = map_option cat_adapter (map_of entries i)"

definition toWorkRegistry :: "('w, 'e) capability_catalog \<Rightarrow> capability_registry" where
  "toWorkRegistry entries =
     fold (\<lambda>e. registry_register
              \<lparr>rc_id = fst e, rc_executionClass = cat_executionClass (snd e),
               rc_provides = cat_provides (snd e), rc_health = cat_health (snd e)\<rparr>) entries []"

section \<open>The runtime state\<close>

datatype target = Capability string | Model string

datatype observation =
    Published event_envelope
  | PublishFailed event_envelope
  | Estimated target number
  | Executed target
  | ExecuteFailed target error_class

record 'w runtime =
  rt_world :: 'w
  rt_ledger :: usage_ledger
  rt_tick :: nat
  rt_log :: "observation list"

text \<open>A call on a dependency, with what it is seen to do.\<close>

definition observe :: "observation \<Rightarrow> ('w runtime, 'e, unit) act" where
  "observe ob = modify (\<lambda>s. s\<lparr>rt_log := rt_log s @ [ob]\<rparr>)"

definition call_out :: "('w, 'e, 'a) act \<Rightarrow> ('w runtime, 'e, 'a) act" where
  "call_out m s = (case m (rt_world s) of (r, w) \<Rightarrow> (r, s\<lparr>rt_world := w\<rparr>))"

definition record_usage :: "usage_record \<Rightarrow> ('w runtime, 'e, unit) act" where
  "record_usage entry = modify (\<lambda>s. s\<lparr>rt_ledger := ledger_record entry (rt_ledger s)\<rparr>)"

definition publish_event :: "('w, 'e) orchestrator_deps \<Rightarrow> event_envelope \<Rightarrow> ('w runtime, 'e, unit) act" where
  "publish_event deps ev =
     seq_act
       (try_act (call_out (od_publish deps ev))
          (\<lambda>e. seq_act (observe (PublishFailed ev)) (throw e)))
       (observe (Published ev))"

definition execute_call ::
    "target \<Rightarrow> ('e \<Rightarrow> error_class) \<Rightarrow> ('w, 'e, 'a) act \<Rightarrow> ('w runtime, 'e, 'a) act" where
  "execute_call t classify m =
     bind_act
       (try_act (call_out m)
          (\<lambda>e. seq_act (observe (ExecuteFailed t (classify e))) (throw e)))
       (\<lambda>r. seq_act (observe (Executed t)) (ret r))"

section \<open>Executing a work order (orchestrator.ts)\<close>

definition order_actor :: "('p, 'b) work_order \<Rightarrow> actor" where
  "order_actor order =
     coalesce (wo_actor order) \<lparr>actor_kind = ActorOrchestrator, actor_id = ''orchestrator''\<rparr>"

definition emit ::
    "('w, 'e) orchestrator_deps \<Rightarrow> ('p, 'b) work_order \<Rightarrow> event_type \<Rightarrow> ('w runtime, 'e, unit) act" where
  "emit deps order etype =
     bind_act
       (gets (\<lambda>s. createEvent (od_env deps) (rt_tick s)
          \<lparr>ce_type = etype, ce_organizationId = wo_organizationId order, ce_actor = order_actor order,
           ce_objectiveId = None, ce_taskId = wo_taskId order,
           ce_correlationId = wo_correlationId order, ce_causationId = None, ce_payloadRef = None,
           ce_now = None\<rparr>))
       (\<lambda>ev. seq_act (modify (\<lambda>s. s\<lparr>rt_tick := rt_tick s + 1\<rparr>)) (publish_event deps ev))"

definition work_input :: "('p, 'b) work_order \<Rightarrow> work_routing_input" where
  "work_input order =
     \<lparr>wr_requiredCapabilities = wo_requiredCapabilities order,
      wr_prefersHuman = wo_prefersHuman order, wr_needsReasoning = wo_needsReasoning order\<rparr>"

definition capability_context :: "('p, 'b) work_order \<Rightarrow> execution_context" where
  "capability_context order =
     \<lparr>cx_idempotencyKey = None, cx_correlationId = wo_correlationId order\<rparr>"

text \<open>The pre-flight budget check of both loops: with no budget nothing is estimated.\<close>

definition budget_gate ::
    "order_budget option \<Rightarrow> target \<Rightarrow> ('w, 'e, cost_estimate) act \<Rightarrow> ('w runtime, 'e, bool) act" where
  "budget_gate b t estimate =
     (case b of
        None \<Rightarrow> ret True
      | Some ob \<Rightarrow>
          bind_act (call_out estimate) (\<lambda>est.
            seq_act (observe (Estimated t (es_costUsd est)))
              (ret (bc_allowed (checkBudget (wb_budget ob) (wb_spentUsd ob) (es_costUsd est))))))"

definition resolve_capability ::
    "('w, 'e) orchestrator_deps \<Rightarrow> string \<Rightarrow> ('w, 'e) capability_adapter option" where
  "resolve_capability deps i =
     (case od_resolveCapabilityAdapter deps of None \<Rightarrow> None | Some resolve \<Rightarrow> resolve i)"

text \<open>The body of the \<open>try\<close> block of a capability candidate.\<close>

definition attempt_capability ::
    "('w, 'e) orchestrator_deps \<Rightarrow> order \<Rightarrow> registered_capability \<Rightarrow> ('w, 'e) capability_adapter \<Rightarrow>
     ('w runtime, 'e, work_order_result) act" where
  "attempt_capability deps order candidate adapter =
     bind_act
       (execute_call (Capability (rc_id candidate)) (cad_classifyError adapter)
          (cad_execute adapter (wo_capabilityInput order) (capability_context order))) (\<lambda>output.
     bind_act (call_out (cad_reportUsage adapter)) (\<lambda>usage.
     seq_act
       (record_usage
          \<lparr>ur_inputTokens = 0, ur_cachedInputTokens = None, ur_outputTokens = 0,
           ur_modelId = rc_id candidate, ur_provider = ''capability'',
           ur_costUsd = coalesce (map_option us_costUsd usage) 0,
           ur_latencyMs = coalesce (map_option us_latencyMs usage) 0,
           ur_taskId = wo_taskId order, ur_objectiveId = None\<rparr>)
     (seq_act (emit deps order ET_task_completed)
     (ret ((result_of WS_completed)
        \<lparr>wx_executionClass := Some (rc_executionClass candidate), wx_output := output,
         wx_capabilityId := Some (rc_id candidate)\<rparr>)))))"

text \<open>The loop over candidates: a result when it returns, otherwise whether any adapter was attempted.\<close>

fun capability_loop ::
    "('w, 'e) orchestrator_deps \<Rightarrow> order \<Rightarrow> registered_capability list \<Rightarrow> bool \<Rightarrow>
     ('w runtime, 'e, work_order_result + bool) act" where
  "capability_loop deps order [] attempted = ret (Inr attempted)"
| "capability_loop deps order (candidate # candidates) attempted =
     (case resolve_capability deps (rc_id candidate) of
        None \<Rightarrow> capability_loop deps order candidates attempted
      | Some adapter \<Rightarrow>
          bind_act
            (budget_gate (wo_budget order) (Capability (rc_id candidate))
               (cad_estimate adapter (wo_capabilityInput order) (capability_context order))) (\<lambda>allowed.
          if \<not> allowed
          then seq_act (emit deps order ET_task_blocked)
            (ret (Inl ((result_of WS_budget_exceeded)
               \<lparr>wx_executionClass := Some (rc_executionClass candidate),
                wx_capabilityId := Some (rc_id candidate)\<rparr>)))
          else
            seq_act (emit deps order ET_worker_started)
            (seq_act (emit deps order ET_tool_called)
            (bind_act
               (try_act
                  (bind_act (attempt_capability deps order candidate adapter) (\<lambda>r. ret (Some r)))
                  (\<lambda>error.
                     if \<not> isRetryable (cad_classifyError adapter error)
                     then seq_act (emit deps order ET_task_failed)
                       (ret (Some ((result_of WS_failed)
                          \<lparr>wx_executionClass := Some (rc_executionClass candidate),
                           wx_reason := Some ''adapter_error'',
                           wx_capabilityId := Some (rc_id candidate)\<rparr>)))
                     else ret None))
               (\<lambda>returned. case returned of
                   None \<Rightarrow> capability_loop deps order candidates True
                 | Some r \<Rightarrow> ret (Inl r))))))"

text \<open>The model path: the order's request, the router's input and the loop over the chain.\<close>

definition model_input :: "('p, 'b) work_order \<Rightarrow> model_routing_input" where
  "model_input order =
     \<lparr>mi_reasoningTier = coalesce (wo_reasoningTier order) 5,
      mi_needsTools = wo_needsTools order, mi_needsVision = wo_needsVision order,
      mi_requireLocal = wo_requireLocal order, mi_minContextTokens = wo_minContextTokens order,
      mi_excludeProviders = None\<rparr>"

definition no_context :: execution_context where
  "no_context = \<lparr>cx_idempotencyKey = None, cx_correlationId = None\<rparr>"

fun provider_text :: "model_provider \<Rightarrow> string" where
  "provider_text Anthropic = ''anthropic''"
| "provider_text OpenAI = ''openai''"
| "provider_text LocalProvider = ''local''"

definition attempt_model ::
    "('w, 'e) orchestrator_deps \<Rightarrow> order \<Rightarrow> execution_class \<Rightarrow> model_request \<Rightarrow> model_entry \<Rightarrow>
     ('w, 'e) model_adapter \<Rightarrow> ('w runtime, 'e, work_order_result) act" where
  "attempt_model deps order cls request entry adapter =
     bind_act
       (execute_call (Model (me_id entry)) (mad_classifyError adapter)
          (mad_execute adapter request no_context)) (\<lambda>result.
     seq_act
       (record_usage
          \<lparr>ur_inputTokens = mu_inputTokens (mr_usage result),
           ur_cachedInputTokens = mu_cachedInputTokens (mr_usage result),
           ur_outputTokens = mu_outputTokens (mr_usage result),
           ur_modelId = me_id entry, ur_provider = provider_text (me_provider entry),
           ur_costUsd = mu_costUsd (mr_usage result),
           ur_latencyMs = mu_latencyMs (mr_usage result),
           ur_taskId = wo_taskId order, ur_objectiveId = None\<rparr>)
     (seq_act (emit deps order ET_task_completed)
     (ret ((result_of WS_completed)
        \<lparr>wx_executionClass := Some cls, wx_modelId := Some (me_id entry),
         wx_text := Some (mr_text result)\<rparr>))))"

text \<open>The loop over the chain: a result when it returns, otherwise the class of the last error.\<close>

fun model_loop ::
    "('w, 'e) orchestrator_deps \<Rightarrow> order \<Rightarrow> execution_class \<Rightarrow> model_request \<Rightarrow> model_entry list \<Rightarrow>
     error_class option \<Rightarrow> ('w runtime, 'e, work_order_result + error_class option) act" where
  "model_loop deps order cls request [] lastErrorClass = ret (Inr lastErrorClass)"
| "model_loop deps order cls request (entry # entries) lastErrorClass =
     (case od_resolveModelAdapter deps (me_id entry) of
        None \<Rightarrow> model_loop deps order cls request entries lastErrorClass
      | Some adapter \<Rightarrow>
          bind_act
            (budget_gate (wo_budget order) (Model (me_id entry)) (mad_estimate adapter request no_context))
            (\<lambda>allowed.
          if \<not> allowed
          then seq_act (emit deps order ET_task_blocked)
            (ret (Inl ((result_of WS_budget_exceeded)
               \<lparr>wx_executionClass := Some cls, wx_modelId := Some (me_id entry)\<rparr>)))
          else
            seq_act (emit deps order ET_worker_started)
            (seq_act (emit deps order ET_tool_called)
            (bind_act
               (try_act
                  (bind_act (attempt_model deps order cls request entry adapter) (\<lambda>r. ret (Inl r)))
                  (\<lambda>error. ret (Inr (mad_classifyError adapter error))))
               (\<lambda>outcome. case outcome of
                   Inl r \<Rightarrow> ret (Inl r)
                 | Inr errorClass \<Rightarrow>
                     if \<not> isRetryable errorClass then ret (Inr (Some errorClass))
                     else model_loop deps order cls request entries (Some errorClass))))))"

definition failed_with :: "execution_class \<Rightarrow> string \<Rightarrow> work_order_result" where
  "failed_with cls reason =
     (result_of WS_failed)\<lparr>wx_executionClass := Some cls, wx_reason := Some reason\<rparr>"

definition model_path ::
    "('w, 'e) orchestrator_deps \<Rightarrow> order \<Rightarrow> execution_class \<Rightarrow> ('w runtime, 'e, work_order_result) act" where
  "model_path deps order cls =
     (case wo_modelRequest order of
        None \<Rightarrow> seq_act (emit deps order ET_task_failed) (ret (failed_with cls ''missing_model_request''))
      | Some request \<Rightarrow>
          (case routeModel (od_numText deps) (model_input order) (od_modelRegistry deps) of
             None \<Rightarrow> seq_act (emit deps order ET_task_failed) (ret (failed_with cls ''no_eligible_model''))
           | Some decision \<Rightarrow>
               bind_act (model_loop deps order cls request (md_model decision # md_fallbacks decision) None)
                 (\<lambda>looped. case looped of
                    Inl r \<Rightarrow> ret r
                  | Inr lastErrorClass \<Rightarrow>
                      seq_act (emit deps order ET_task_failed)
                        (ret (failed_with cls
                           (if lastErrorClass = None then ''no_adapter'' else ''adapter_error''))))))"

fun policy_reason_text :: "policy_reason \<Rightarrow> string" where
  "policy_reason_text PR_ok = ''ok''"
| "policy_reason_text PR_approval_required = ''approval_required''"
| "policy_reason_text PR_cross_tenant = ''cross_tenant''"
| "policy_reason_text PR_scope_denied = ''scope_denied''"
| "policy_reason_text PR_insufficient_authority = ''insufficient_authority''"
| "policy_reason_text PR_never_autonomous = ''never_autonomous''"
| "policy_reason_text PR_kill_switch = ''kill_switch''"

fun work_routing_reason_text :: "work_routing_reason \<Rightarrow> string" where
  "work_routing_reason_text WR_human_required = ''human_required''"
| "work_routing_reason_text WR_capability_matched = ''capability_matched''"
| "work_routing_reason_text WR_ai_reasoning_required = ''ai_reasoning_required''"
| "work_routing_reason_text WR_no_capability_fallback_human = ''no_capability_fallback_human''"

text \<open>Step 3a: the capability candidates, then the AI path only when the order allows reasoning.\<close>

definition capability_path ::
    "('w, 'e) orchestrator_deps \<Rightarrow> order \<Rightarrow> work_routing_decision \<Rightarrow>
     ('w runtime, 'e, work_order_result) act" where
  "capability_path deps order routing =
     bind_act
       (capability_loop deps order
          (candidateCapabilities (work_input order) (od_workRegistry deps)) False)
       (\<lambda>looped. case looped of
          Inl r \<Rightarrow> ret r
        | Inr attempted \<Rightarrow>
            if \<not> attempted
            then seq_act (emit deps order ET_task_blocked)
              (ret ((result_of WS_blocked)
                 \<lparr>wx_executionClass := Some (wd_executionClass routing),
                  wx_reason := Some ''no_capability_adapter'',
                  wx_capabilityId := wd_capabilityId routing\<rparr>))
            else if \<not> is_true (wo_needsReasoning order)
            then seq_act (emit deps order ET_task_failed)
              (ret ((failed_with (wd_executionClass routing) ''adapter_error'')
                 \<lparr>wx_capabilityId := wd_capabilityId routing\<rparr>))
            else model_path deps order EC_cloud_ai)"

text \<open>Steps 2 and 3: routing, then a human, the capability path or the model path.\<close>

definition routed_path :: "('w, 'e) orchestrator_deps \<Rightarrow> order \<Rightarrow> ('w runtime, 'e, work_order_result) act" where
  "routed_path deps order =
     (let routing = routeWork (work_input order) (od_workRegistry deps) in
      seq_act (emit deps order ET_task_planned)
      (if wd_executionClass routing = EC_human
       then seq_act (emit deps order ET_task_blocked)
         (ret ((result_of WS_awaiting_human)
            \<lparr>wx_executionClass := Some EC_human,
             wx_reason := Some (work_routing_reason_text (wd_reason routing))\<rparr>))
       else if \<not> isAiExecutionClass (wd_executionClass routing)
       then capability_path deps order routing
       else model_path deps order (wd_executionClass routing)))"

definition executeWorkOrder ::
    "('w, 'e) orchestrator_deps \<Rightarrow> order \<Rightarrow> ('w runtime, 'e, work_order_result) act" where
  "executeWorkOrder deps order =
     (case wo_policy order of
        None \<Rightarrow> routed_path deps order
      | Some input \<Rightarrow>
          let decision = evaluate input in
          if pd_effect decision = Deny
          then seq_act (emit deps order ET_task_blocked)
            (ret ((result_of WS_denied)\<lparr>wx_reason := Some (policy_reason_text (pd_reason decision))\<rparr>))
          else if pd_effect decision = Requires_approval
          then seq_act (emit deps order ET_approval_requested)
            (ret ((result_of WS_approval_required)
               \<lparr>wx_reason := Some (policy_reason_text (pd_reason decision))\<rparr>))
          else routed_path deps order)"

end
