(* ===== verification/Orchestrator_Traces.thy ===== *)
theory Orchestrator_Traces
  imports Orchestrator "HOL-Library.Sublist"
begin

text \<open>
  What a run of the orchestrator does to its dependencies. \<open>runs_as m P\<close> says that, from every state, the
  action \<open>m\<close> appends some observations and usage records that satisfy \<open>P\<close> together with its outcome; its
  rules follow the structure of actions. Two lemmas on each loop carry the properties: one for arbitrary
  dependencies (attribution, budgets, ledger), one for dependencies that do not fail by themselves
  (lifecycle of events, order of attempts).
\<close>

section \<open>Reasoning about appended observations\<close>

definition runs_as ::
    "('w runtime, 'e, 'a) act \<Rightarrow> ('e + 'a \<Rightarrow> observation list \<Rightarrow> usage_record list \<Rightarrow> bool) \<Rightarrow> bool" where
  "runs_as m P = (\<forall>s. \<exists>tr us. rt_log (snd (m s)) = rt_log s @ tr
     \<and> rt_ledger (snd (m s)) = rt_ledger s @ us \<and> P (fst (m s)) tr us)"

lemma runs_ret [simp]: "runs_as (ret a) P \<longleftrightarrow> P (Inr a) [] []"
  by (simp add: runs_as_def ret_def)

lemma runs_throw [simp]: "runs_as (throw e) P \<longleftrightarrow> P (Inl e) [] []"
  by (simp add: runs_as_def throw_def)

lemma runs_mono: "runs_as m P \<Longrightarrow> (\<And>r tr us. P r tr us \<Longrightarrow> Q r tr us) \<Longrightarrow> runs_as m Q"
  unfolding runs_as_def by blast

lemma runs_bind:
  assumes "runs_as m (\<lambda>r tr us. case r of Inl e \<Rightarrow> P (Inl e) tr us
     | Inr a \<Rightarrow> runs_as (k a) (\<lambda>r' tr' us'. P r' (tr @ tr') (us @ us')))"
  shows "runs_as (bind_act m k) P"
  unfolding runs_as_def
proof
  fix s
  obtain r s1 where m: "m s = (r, s1)" by (metis prod.collapse)
  from assms have "\<exists>tr us. rt_log (snd (m s)) = rt_log s @ tr
      \<and> rt_ledger (snd (m s)) = rt_ledger s @ us \<and> (\<lambda>r tr us. case r of Inl e \<Rightarrow> P (Inl e) tr us
         | Inr a \<Rightarrow> runs_as (k a) (\<lambda>r' tr' us'. P r' (tr @ tr') (us @ us'))) (fst (m s)) tr us"
    unfolding runs_as_def by blast
  with m obtain tr us where
    log: "rt_log s1 = rt_log s @ tr" "rt_ledger s1 = rt_ledger s @ us"
    and P: "case r of Inl e \<Rightarrow> P (Inl e) tr us
       | Inr a \<Rightarrow> runs_as (k a) (\<lambda>r' tr' us'. P r' (tr @ tr') (us @ us'))"
    by auto
  show "\<exists>tr us. rt_log (snd (bind_act m k s)) = rt_log s @ tr
      \<and> rt_ledger (snd (bind_act m k s)) = rt_ledger s @ us \<and> P (fst (bind_act m k s)) tr us"
  proof (cases r)
    case (Inl e)
    with m log P show ?thesis by (auto simp: bind_act_def)
  next
    case (Inr a)
    with P have "runs_as (k a) (\<lambda>r' tr' us'. P r' (tr @ tr') (us @ us'))" by simp
    then obtain tr' us' where "rt_log (snd (k a s1)) = rt_log s1 @ tr'"
      "rt_ledger (snd (k a s1)) = rt_ledger s1 @ us'" "P (fst (k a s1)) (tr @ tr') (us @ us')"
      unfolding runs_as_def by blast
    with m log Inr show ?thesis by (auto simp: bind_act_def)
  qed
qed

lemma runs_seq:
  "runs_as m (\<lambda>r tr us. case r of Inl e \<Rightarrow> P (Inl e) tr us
     | Inr _ \<Rightarrow> runs_as k (\<lambda>r' tr' us'. P r' (tr @ tr') (us @ us'))) \<Longrightarrow> runs_as (seq_act m k) P"
  unfolding seq_act_def by (rule runs_bind)

lemma runs_try:
  assumes "runs_as m (\<lambda>r tr us. case r of Inr a \<Rightarrow> P (Inr a) tr us
     | Inl e \<Rightarrow> runs_as (h e) (\<lambda>r' tr' us'. P r' (tr @ tr') (us @ us')))"
  shows "runs_as (try_act m h) P"
  unfolding runs_as_def
proof
  fix s
  obtain r s1 where m: "m s = (r, s1)" by (metis prod.collapse)
  from assms have "\<exists>tr us. rt_log (snd (m s)) = rt_log s @ tr
      \<and> rt_ledger (snd (m s)) = rt_ledger s @ us \<and> (\<lambda>r tr us. case r of Inr a \<Rightarrow> P (Inr a) tr us
         | Inl e \<Rightarrow> runs_as (h e) (\<lambda>r' tr' us'. P r' (tr @ tr') (us @ us'))) (fst (m s)) tr us"
    unfolding runs_as_def by blast
  with m obtain tr us where
    log: "rt_log s1 = rt_log s @ tr" "rt_ledger s1 = rt_ledger s @ us"
    and P: "case r of Inr a \<Rightarrow> P (Inr a) tr us
       | Inl e \<Rightarrow> runs_as (h e) (\<lambda>r' tr' us'. P r' (tr @ tr') (us @ us'))"
    by auto
  show "\<exists>tr us. rt_log (snd (try_act m h s)) = rt_log s @ tr
      \<and> rt_ledger (snd (try_act m h s)) = rt_ledger s @ us \<and> P (fst (try_act m h s)) tr us"
  proof (cases r)
    case (Inr a)
    with m log P show ?thesis by (auto simp: try_act_def)
  next
    case (Inl e)
    with P have "runs_as (h e) (\<lambda>r' tr' us'. P r' (tr @ tr') (us @ us'))" by simp
    then obtain tr' us' where "rt_log (snd (h e s1)) = rt_log s1 @ tr'"
      "rt_ledger (snd (h e s1)) = rt_ledger s1 @ us'" "P (fst (h e s1)) (tr @ tr') (us @ us')"
      unfolding runs_as_def by blast
    with m log Inl show ?thesis by (auto simp: try_act_def)
  qed
qed

lemma runs_observe [simp]: "runs_as (observe ob) P \<longleftrightarrow> P (Inr ()) [ob] []"
  by (simp add: runs_as_def observe_def modify_def)

lemma runs_record_usage [simp]: "runs_as (record_usage u) P \<longleftrightarrow> P (Inr ()) [] [u]"
  by (simp add: runs_as_def record_usage_def modify_def ledger_record_def)

lemma runs_call_out: "(\<And>w. P (fst (m w)) [] []) \<Longrightarrow> runs_as (call_out m) P"
  by (simp add: runs_as_def call_out_def case_prod_beta)

section \<open>Events of an order\<close>

definition attributed :: "('p, 'b) work_order \<Rightarrow> event_envelope \<Rightarrow> bool" where
  "attributed order ev \<longleftrightarrow>
     ev_organizationId ev = wo_organizationId order \<and> ev_taskId ev = wo_taskId order
     \<and> ev_actor ev = order_actor order
     \<and> (\<forall>c. wo_correlationId order = Some c \<longrightarrow> ev_correlationId ev = c)"

lemma runs_publish_event:
  assumes "\<And>w r. fst (od_publish deps ev w) = r \<Longrightarrow>
    (case r of Inl e \<Rightarrow> P (Inl e) [PublishFailed ev] [] | Inr _ \<Rightarrow> P (Inr ()) [Published ev] [])"
  shows "runs_as (publish_event deps ev) P"
  unfolding publish_event_def
proof (rule runs_seq, rule runs_try, rule runs_call_out)
  fix w
  show "case fst (od_publish deps ev w) of
      Inl e \<Rightarrow> runs_as (seq_act (observe (PublishFailed ev)) (throw e))
        (\<lambda>r' tr' us'. case r' of Inl e \<Rightarrow> P (Inl e) ([] @ tr') ([] @ us')
           | Inr _ \<Rightarrow> runs_as (observe (Published ev)) (\<lambda>r'' tr'' us''. P r'' (([] @ tr') @ tr'') (([] @ us') @ us'')))
    | Inr a \<Rightarrow> (case Inr a of Inl e \<Rightarrow> P (Inl e) [] []
        | Inr _ \<Rightarrow> runs_as (observe (Published ev)) (\<lambda>r' tr' us'. P r' ([] @ tr') ([] @ us')))"
    using assms [of w "fst (od_publish deps ev w)"]
    by (auto split: sum.split intro!: runs_seq)
qed

lemma runs_emit_raw:
  fixes deps :: "('w, 'e) orchestrator_deps"
  assumes "\<And>ev. attributed order ev \<Longrightarrow> ev_type ev = t \<Longrightarrow> runs_as (publish_event deps ev) P"
  shows "runs_as (emit deps order t) P"
  unfolding runs_as_def
proof
  fix s :: "'w runtime"
  let ?ev = "createEvent (od_env deps) (rt_tick s)
          \<lparr>ce_type = t, ce_organizationId = wo_organizationId order, ce_actor = order_actor order,
           ce_objectiveId = None, ce_taskId = wo_taskId order,
           ce_correlationId = wo_correlationId order, ce_causationId = None, ce_payloadRef = None,
           ce_now = None\<rparr>"
  have "emit deps order t s = publish_event deps ?ev (s\<lparr>rt_tick := rt_tick s + 1\<rparr>)"
    by (simp add: emit_def bind_act_def gets_def seq_act_def modify_def)
  moreover have "runs_as (publish_event deps ?ev) P"
    by (rule assms) (auto simp: attributed_def createEvent_def)
  ultimately show "\<exists>tr us. rt_log (snd (emit deps order t s)) = rt_log s @ tr
      \<and> rt_ledger (snd (emit deps order t s)) = rt_ledger s @ us \<and> P (fst (emit deps order t s)) tr us"
    unfolding runs_as_def by (auto dest: spec [of _ "s\<lparr>rt_tick := rt_tick s + 1\<rparr>"])
qed

text \<open>With an arbitrary bus, and with one whose \<open>publish\<close> never fails.\<close>

lemma runs_emit:
  assumes "\<And>ev. attributed order ev \<Longrightarrow> ev_type ev = t \<Longrightarrow> P (Inr ()) [Published ev] []"
    and "\<And>ev e. attributed order ev \<Longrightarrow> ev_type ev = t \<Longrightarrow> P (Inl e) [PublishFailed ev] []"
  shows "runs_as (emit deps order t) P"
  using assms by (intro runs_emit_raw runs_publish_event) (auto split: sum.split)

lemma runs_emit_reliable:
  assumes "\<And>ev w. fst (od_publish deps ev w) = Inr ()"
    and "\<And>ev. attributed order ev \<Longrightarrow> ev_type ev = t \<Longrightarrow> P (Inr ()) [Published ev] []"
  shows "runs_as (emit deps order t) P"
  using assms by (intro runs_emit_raw runs_publish_event) (auto split: sum.split)

lemma runs_execute_call:
  assumes "\<And>a. P (Inr a) [Executed t] []"
    and "\<And>e. P (Inl e) [ExecuteFailed t (cls e)] []"
  shows "runs_as (execute_call t cls m) P"
  unfolding execute_call_def
  by (rule runs_bind, rule runs_try, rule runs_call_out)
    (auto split: sum.split intro!: runs_seq simp: assms)

lemma runs_budget_gate:
  assumes "b = None \<Longrightarrow> P (Inr True) [] []"
    and "\<And>ob (est :: cost_estimate). b = Some ob \<Longrightarrow>
      P (Inr (es_costUsd est \<le> bu_limitUsd (wb_budget ob) - wb_spentUsd ob)) [Estimated t (es_costUsd est)] []"
    and "\<And>ob e w. b = Some ob \<Longrightarrow> fst (estimate w) = Inl e \<Longrightarrow> P (Inl e) [] []"
  shows "runs_as (budget_gate b t estimate) P"
proof (cases b)
  case None
  with assms(1) show ?thesis by (simp add: budget_gate_def)
next
  case (Some ob)
  show ?thesis
    unfolding budget_gate_def Some option.case
    by (rule runs_bind, rule runs_call_out)
      (auto split: sum.split intro!: runs_seq simp: checkBudget_def Let_def assms(2,3) [OF Some])
qed

section \<open>What holds for arbitrary dependencies\<close>

fun budgeted :: "number \<Rightarrow> target set \<Rightarrow> observation list \<Rightarrow> bool" where
  "budgeted remaining cleared [] = True"
| "budgeted remaining cleared (Estimated t c # tr) =
     budgeted remaining (if c \<le> remaining then insert t cleared else cleared) tr"
| "budgeted remaining cleared (Executed t # tr) = (t \<in> cleared \<and> budgeted remaining cleared tr)"
| "budgeted remaining cleared (ExecuteFailed t c # tr) = (t \<in> cleared \<and> budgeted remaining cleared tr)"
| "budgeted remaining cleared (Published ev # tr) = budgeted remaining cleared tr"
| "budgeted remaining cleared (PublishFailed ev # tr) = budgeted remaining cleared tr"

lemma budgeted_mono: "budgeted b ok tr \<Longrightarrow> ok \<subseteq> ok' \<Longrightarrow> budgeted b ok' tr"
proof (induction b ok tr arbitrary: ok' rule: budgeted.induct)
  case (2 b ok t c tr)
  have "(if c \<le> b then insert t ok else ok) \<subseteq> (if c \<le> b then insert t ok' else ok')"
    using "2.prems"(2) by auto
  from "2.IH" [OF _ this] "2.prems"(1) show ?case by simp
qed auto

lemma budgeted_append: "budgeted b ok xs \<Longrightarrow> budgeted b ok ys \<Longrightarrow> budgeted b ok (xs @ ys)"
proof (induction b ok xs rule: budgeted.induct)
  case (2 b ok t c tr)
  then show ?case by (auto split: if_splits intro: budgeted_mono [OF _ subset_insertI])
qed auto

definition within_budget :: "order \<Rightarrow> target set \<Rightarrow> observation list \<Rightarrow> bool" where
  "within_budget order ok tr =
     (case wo_budget order of None \<Rightarrow> True
      | Some ob \<Rightarrow> budgeted (bu_limitUsd (wb_budget ob) - wb_spentUsd ob) ok tr)"

fun event_of :: "observation \<Rightarrow> event_envelope option" where
  "event_of (Published ev) = Some ev"
| "event_of (PublishFailed ev) = Some ev"
| "event_of _ = None"

fun is_executed :: "observation \<Rightarrow> bool" where
  "is_executed (Executed t) = True"
| "is_executed _ = False"

definition safe :: "order \<Rightarrow> target set \<Rightarrow> observation list \<Rightarrow> usage_record list \<Rightarrow> bool" where
  "safe order ok tr us \<longleftrightarrow>
     (\<forall>ob ev. ob \<in> set tr \<and> event_of ob = Some ev \<longrightarrow> attributed order ev)
     \<and> within_budget order ok tr
     \<and> length us \<le> length (filter is_executed tr)
     \<and> (\<forall>u \<in> set us. ur_taskId u = wo_taskId order)"

lemma safe_append:
  "safe order ok tr us \<Longrightarrow> safe order ok tr' us' \<Longrightarrow> safe order ok (tr @ tr') (us @ us')"
  by (auto simp: safe_def within_budget_def budgeted_append split: option.splits)

lemma safe_Nil [simp]: "safe order ok [] []"
  by (simp add: safe_def within_budget_def split: option.split)

lemma safe_mono: "safe order ok tr us \<Longrightarrow> ok \<subseteq> ok' \<Longrightarrow> safe order ok' tr us"
  by (auto simp: safe_def within_budget_def split: option.splits intro: budgeted_mono)

lemma safe_bind:
  assumes "runs_as m (\<lambda>_. safe order ok)" and "\<And>a. runs_as (k a) (\<lambda>_. safe order ok)"
  shows "runs_as (bind_act m k) (\<lambda>_. safe order ok)"
  by (rule runs_bind, rule runs_mono [OF assms(1)])
    (auto split: sum.split intro: safe_append runs_mono [OF assms(2)])

lemma safe_seq:
  assumes "runs_as m (\<lambda>_. safe order ok)" and "runs_as k (\<lambda>_. safe order ok)"
  shows "runs_as (seq_act m k) (\<lambda>_. safe order ok)"
  unfolding seq_act_def using assms by (rule safe_bind)

lemma safe_try:
  assumes "runs_as m (\<lambda>_. safe order ok)" and "\<And>e. runs_as (h e) (\<lambda>_. safe order ok)"
  shows "runs_as (try_act m h) (\<lambda>_. safe order ok)"
  by (rule runs_try, rule runs_mono [OF assms(1)])
    (auto split: sum.split intro: safe_append runs_mono [OF assms(2)])

lemma safe_emit: "runs_as (emit deps order t) (\<lambda>_. safe order ok)"
  by (rule runs_emit) (auto simp: safe_def within_budget_def split: option.split)

text \<open>After the gate has let a target through, executing it is within the budget.\<close>

lemma safe_gate:
  assumes "\<And>ok. runs_as (k False) (\<lambda>_. safe order ok)" and "runs_as (k True) (\<lambda>_. safe order {t})"
  shows "runs_as (bind_act (budget_gate (wo_budget order) t est) k) (\<lambda>_. safe order {})"
proof (rule runs_bind, rule runs_budget_gate)
  show "case Inr True of Inl e \<Rightarrow> safe order {} [] []
      | Inr a \<Rightarrow> runs_as (k a) (\<lambda>r' tr' us'. safe order {} ([] @ tr') ([] @ us'))"
    if "wo_budget order = None"
    using that by (auto intro!: runs_mono [OF assms(2)] simp: safe_def within_budget_def)
  show "case Inl e of Inl e \<Rightarrow> safe order {} [] []
      | Inr a \<Rightarrow> runs_as (k a) (\<lambda>r' tr' us'. safe order {} ([] @ tr') ([] @ us'))" for e
    by simp
  fix ob and c :: cost_estimate
  assume b: "wo_budget order = Some ob"
  let ?le = "es_costUsd c \<le> bu_limitUsd (wb_budget ob) - wb_spentUsd ob"
  show "case Inr ?le of Inl e \<Rightarrow> safe order {} [Estimated t (es_costUsd c)] []
      | Inr a \<Rightarrow> runs_as (k a) (\<lambda>r' tr' us'. safe order {} ([Estimated t (es_costUsd c)] @ tr') ([] @ us'))"
    using b by (cases ?le)
      (auto intro!: runs_mono [OF assms(1)] runs_mono [OF assms(2)] simp: safe_def within_budget_def)
qed

lemma safe_attempt_capability:
  "runs_as (attempt_capability deps order c adapter) (\<lambda>_. safe order {Capability (rc_id c)})"
  unfolding attempt_capability_def
  by (rule runs_bind, rule runs_execute_call; simp;
      (rule runs_bind, rule runs_call_out)?;
      auto simp: safe_def within_budget_def intro!: runs_seq runs_emit split: sum.split option.split)

lemma safe_attempt_model:
  "runs_as (attempt_model deps order cls request entry adapter) (\<lambda>_. safe order {Model (me_id entry)})"
  unfolding attempt_model_def
  by (rule runs_bind, rule runs_execute_call)
    (auto simp: safe_def within_budget_def intro!: runs_seq runs_emit split: sum.split option.split)

lemma safe_capability_loop: "runs_as (capability_loop deps order cs att) (\<lambda>_. safe order {})"
proof (induction cs arbitrary: att)
  case Nil
  then show ?case by simp
next
  case (Cons c cs)
  have rest: "runs_as (capability_loop deps order cs True) (\<lambda>_. safe order ok)" for ok
    by (rule runs_mono [OF Cons.IH]) (auto intro: safe_mono)
  show ?case
  proof (cases "resolve_capability deps (rc_id c)")
    case None
    with Cons.IH show ?thesis by simp
  next
    case (Some adapter)
    show ?thesis
      unfolding capability_loop.simps Some option.case
      by (rule safe_gate)
        (auto intro!: safe_seq safe_emit safe_bind safe_try safe_attempt_capability rest split: option.split)
  qed
qed

lemma safe_model_loop: "runs_as (model_loop deps order cls request es l) (\<lambda>_. safe order {})"
proof (induction es arbitrary: l)
  case Nil
  then show ?case by simp
next
  case (Cons e es)
  have rest: "runs_as (model_loop deps order cls request es l) (\<lambda>_. safe order ok)" for ok l
    by (rule runs_mono [OF Cons.IH]) (auto intro: safe_mono)
  show ?case
  proof (cases "od_resolveModelAdapter deps (me_id e)")
    case None
    with Cons.IH show ?thesis by simp
  next
    case (Some adapter)
    show ?thesis
      unfolding model_loop.simps Some option.case
      by (rule safe_gate)
        (auto intro!: safe_seq safe_emit safe_bind safe_try safe_attempt_model rest split: sum.split)
  qed
qed

lemma safe_model_path: "runs_as (model_path deps order cls) (\<lambda>_. safe order {})"
  unfolding model_path_def
  by (auto intro!: safe_seq safe_emit safe_bind safe_model_loop split: option.split sum.split
      simp del: model_loop.simps)

lemma safe_routed_path: "runs_as (routed_path deps order) (\<lambda>_. safe order {})"
  unfolding routed_path_def Let_def capability_path_def
  by (auto intro!: safe_seq safe_emit safe_bind safe_capability_loop safe_model_path split: sum.split)

lemma safe_executeWorkOrder: "runs_as (executeWorkOrder deps order) (\<lambda>_. safe order {})"
  unfolding executeWorkOrder_def Let_def
  by (auto intro!: safe_seq safe_emit safe_routed_path split: option.split)

section \<open>What holds when only executions fail\<close>

text \<open>
  A bus that accepts every event and adapters whose estimates and usage reports do not throw; executions
  may fail in any way.
\<close>

definition reliable :: "('w, 'e) orchestrator_deps \<Rightarrow> bool" where
  "reliable deps \<longleftrightarrow>
     (\<forall>ev w. fst (od_publish deps ev w) = Inr ())
     \<and> (\<forall>i a. resolve_capability deps i = Some a \<longrightarrow>
          (\<forall>w e. fst (cad_reportUsage a w) \<noteq> Inl e) \<and> (\<forall>x c w e. fst (cad_estimate a x c w) \<noteq> Inl e))
     \<and> (\<forall>i a. od_resolveModelAdapter deps i = Some a \<longrightarrow>
          (\<forall>x c w e. fst (mad_estimate a x c w) \<noteq> Inl e))"

fun attempts :: "observation list \<Rightarrow> (target \<times> error_class option) list" where
  "attempts [] = []"
| "attempts (Executed t # tr) = (t, None) # attempts tr"
| "attempts (ExecuteFailed t c # tr) = (t, Some c) # attempts tr"
| "attempts (_ # tr) = attempts tr"

fun events :: "observation list \<Rightarrow> event_type list" where
  "events [] = []"
| "events (Published ev # tr) = ev_type ev # events tr"
| "events (_ # tr) = events tr"

lemma attempts_append [simp]: "attempts (xs @ ys) = attempts xs @ attempts ys"
  by (induction xs rule: attempts.induct) simp_all

lemma events_append [simp]: "events (xs @ ys) = events xs @ events ys"
  by (induction xs rule: events.induct) simp_all

definition retried :: "target \<times> error_class option \<Rightarrow> bool" where
  "retried a = (case snd a of None \<Rightarrow> False | Some c \<Rightarrow> isRetryable c)"

definition failed_attempt :: "target \<times> error_class option \<Rightarrow> bool" where
  "failed_attempt a = (snd a \<noteq> None)"

lemma retried_failed: "retried a \<Longrightarrow> failed_attempt a"
  by (auto simp: retried_def failed_attempt_def split: option.splits)

lemma list_all_retried_failed: "list_all retried a \<Longrightarrow> list_all failed_attempt a"
  by (auto simp: list_all_iff intro: retried_failed)

lemma list_all_butlast: "list_all p xs \<Longrightarrow> list_all p (butlast xs)"
  by (auto simp: list_all_iff dest: in_set_butlastD)

text \<open>Each attempt is announced by a worker event and a tool event.\<close>

definition rounds :: "nat \<Rightarrow> event_type list" where
  "rounds n = concat (replicate n [ET_worker_started, ET_tool_called])"

lemma rounds_simps [simp]:
  "rounds 0 = []"
  "rounds (Suc n) = ET_worker_started # ET_tool_called # rounds n"
  by (simp_all add: rounds_def)

lemma rounds_add: "rounds (m + n) = rounds m @ rounds n"
  by (simp add: rounds_def replicate_add)

fun target_id :: "target \<Rightarrow> string" where
  "target_id (Capability i) = i"
| "target_id (Model i) = i"

fun result_names :: "work_order_result \<Rightarrow> target \<Rightarrow> bool" where
  "result_names r (Capability i) = (wx_capabilityId r = Some i)"
| "result_names r (Model i) = (wx_modelId r = Some i)"

text \<open>How the attempts, the events and the ledger of a run end for each status of a loop's result.\<close>

definition finished ::
    "work_order_result \<Rightarrow> (target \<times> error_class option) list \<Rightarrow> event_type list \<Rightarrow> usage_record list \<Rightarrow> bool" where
  "finished r a evs us =
     (case wx_status r of
        WS_completed \<Rightarrow>
          (\<exists>a0 t u. a = a0 @ [(t, None)] \<and> list_all retried a0 \<and> us = [u] \<and> ur_modelId u = target_id t
            \<and> result_names r t \<and> evs = rounds (length a) @ [ET_task_completed])
      | WS_failed \<Rightarrow>
          list_all failed_attempt a \<and> list_all retried (butlast a) \<and> us = []
          \<and> evs = rounds (length a) @ [ET_task_failed]
      | WS_budget_exceeded \<Rightarrow>
          list_all retried a \<and> us = [] \<and> evs = rounds (length a) @ [ET_task_blocked]
      | _ \<Rightarrow> False)"

lemma finished_Cons:
  "finished r a evs us \<Longrightarrow> retried x \<Longrightarrow>
     finished r (x # a) (ET_worker_started # ET_tool_called # evs) us"
  unfolding finished_def
  by (cases "wx_status r") (auto simp: retried_failed intro: exI [of _ "x # _"])

lemma finished_append:
  "finished r a evs us \<Longrightarrow> list_all retried b \<Longrightarrow> finished r (b @ a) (rounds (length b) @ evs) us"
  by (induction b) (simp_all add: finished_Cons)

lemma finished_butlast: "finished r a evs us \<Longrightarrow> list_all retried (butlast a)"
  unfolding finished_def
  by (cases "wx_status r") (auto simp: butlast_append list_all_iff dest: in_set_butlastD)

section \<open>The two loops\<close>

definition capability_post ::
    "registered_capability list \<Rightarrow> bool \<Rightarrow> 'e + (work_order_result + bool) \<Rightarrow>
     (target \<times> error_class option) list \<Rightarrow> event_type list \<Rightarrow> usage_record list \<Rightarrow> bool" where
  "capability_post cs att r a evs us \<longleftrightarrow>
     subseq (map fst a) (map (\<lambda>c. Capability (rc_id c)) cs)
     \<and> (case r of
          Inl e \<Rightarrow> False
        | Inr (Inl res) \<Rightarrow> finished res a evs us
        | Inr (Inr att') \<Rightarrow> list_all retried a \<and> us = [] \<and> evs = rounds (length a) \<and> (att' \<longleftrightarrow> att \<or> a \<noteq> []))"

definition model_post ::
    "model_entry list \<Rightarrow> error_class option \<Rightarrow> 'e + (work_order_result + error_class option) \<Rightarrow>
     (target \<times> error_class option) list \<Rightarrow> event_type list \<Rightarrow> usage_record list \<Rightarrow> bool" where
  "model_post es l r a evs us \<longleftrightarrow>
     subseq (map fst a) (map (\<lambda>e. Model (me_id e)) es)
     \<and> (case r of
          Inl e \<Rightarrow> False
        | Inr (Inl res) \<Rightarrow> finished res a evs us
        | Inr (Inr l') \<Rightarrow> list_all failed_attempt a \<and> list_all retried (butlast a) \<and> us = []
            \<and> evs = rounds (length a) \<and> (l' = None \<longleftrightarrow> l = None \<and> a = []))"

lemma capability_post_skip: "capability_post cs att r a evs us \<Longrightarrow> capability_post (c # cs) att r a evs us"
  by (auto simp: capability_post_def)

lemma capability_post_retry:
  "capability_post cs True r a evs us \<Longrightarrow> isRetryable cl \<Longrightarrow>
     capability_post (c # cs) att r ((Capability (rc_id c), Some cl) # a)
       (ET_worker_started # ET_tool_called # evs) us"
  by (auto simp: capability_post_def retried_def intro!: finished_Cons split: sum.splits)

lemma model_post_skip: "model_post es l r a evs us \<Longrightarrow> model_post (e # es) l r a evs us"
  by (auto simp: model_post_def)

lemma model_post_retry:
  "model_post es (Some cl) r a evs us \<Longrightarrow> isRetryable cl \<Longrightarrow>
     model_post (e # es) l r ((Model (me_id e), Some cl) # a)
       (ET_worker_started # ET_tool_called # evs) us"
  by (auto simp: model_post_def retried_def failed_attempt_def intro!: finished_Cons split: sum.splits)

lemma attempt_capability_runs:
  assumes "reliable deps" and "resolve_capability deps (rc_id c) = Some adapter"
  shows "runs_as (attempt_capability deps order c adapter) (\<lambda>r tr us.
    case r of
      Inr res \<Rightarrow> attempts tr = [(Capability (rc_id c), None)] \<and> events tr = [ET_task_completed]
        \<and> (\<exists>u. us = [u] \<and> ur_modelId u = rc_id c) \<and> wx_status res = WS_completed
        \<and> wx_capabilityId res = Some (rc_id c)
    | Inl e \<Rightarrow> attempts tr = [(Capability (rc_id c), Some (cad_classifyError adapter e))]
        \<and> events tr = [] \<and> us = [])"
proof -
  have pub: "\<And>ev w. fst (od_publish deps ev w) = Inr ()"
    and usage: "\<And>w e. fst (cad_reportUsage adapter w) \<noteq> Inl e"
    using assms by (auto simp: reliable_def)
  show ?thesis
    unfolding attempt_capability_def
    by (rule runs_bind, rule runs_execute_call)
      (auto simp: result_of_def usage split: sum.split
        intro!: runs_bind [of "call_out _"] runs_call_out runs_seq runs_emit_reliable [OF pub])
qed

lemma attempt_model_runs:
  assumes "reliable deps"
  shows "runs_as (attempt_model deps order cls request entry adapter) (\<lambda>r tr us.
    case r of
      Inr res \<Rightarrow> attempts tr = [(Model (me_id entry), None)] \<and> events tr = [ET_task_completed]
        \<and> (\<exists>u. us = [u] \<and> ur_modelId u = me_id entry) \<and> wx_status res = WS_completed
        \<and> wx_modelId res = Some (me_id entry)
    | Inl e \<Rightarrow> attempts tr = [(Model (me_id entry), Some (mad_classifyError adapter e))]
        \<and> events tr = [] \<and> us = [])"
proof -
  have pub: "\<And>ev w. fst (od_publish deps ev w) = Inr ()"
    using assms by (auto simp: reliable_def)
  show ?thesis
    unfolding attempt_model_def
    by (rule runs_bind, rule runs_execute_call)
      (auto simp: result_of_def split: sum.split intro!: runs_seq runs_emit_reliable [OF pub])
qed

lemma capability_loop_runs:
  assumes rel: "reliable deps"
  shows "runs_as (capability_loop deps order cs att)
    (\<lambda>r tr us. capability_post cs att r (attempts tr) (events tr) us)"
proof (induction cs arbitrary: att)
  case Nil
  then show ?case by (simp add: capability_post_def)
next
  case (Cons c cs)
  have pub: "\<And>ev w. fst (od_publish deps ev w) = Inr ()"
    using rel by (auto simp: reliable_def)
  show ?case
  proof (cases "resolve_capability deps (rc_id c)")
    case None
    with Cons.IH show ?thesis
      by (auto intro!: runs_mono [OF Cons.IH] capability_post_skip)
  next
    case (Some adapter)
    let ?over = "seq_act (emit deps order ET_task_blocked)
            (ret (Inl ((result_of WS_budget_exceeded)
               \<lparr>wx_executionClass := Some (rc_executionClass c), wx_capabilityId := Some (rc_id c)\<rparr>)))"
    let ?run = "seq_act (emit deps order ET_worker_started)
            (seq_act (emit deps order ET_tool_called)
            (bind_act
               (try_act
                  (bind_act (attempt_capability deps order c adapter) (\<lambda>r. ret (Some r)))
                  (\<lambda>error.
                     if \<not> isRetryable (cad_classifyError adapter error)
                     then seq_act (emit deps order ET_task_failed)
                       (ret (Some ((result_of WS_failed)
                          \<lparr>wx_executionClass := Some (rc_executionClass c),
                           wx_reason := Some ''adapter_error'', wx_capabilityId := Some (rc_id c)\<rparr>)))
                     else ret None))
               (\<lambda>returned. case returned of
                   None \<Rightarrow> capability_loop deps order cs True
                 | Some r \<Rightarrow> ret (Inl r))))"
    let ?post = "\<lambda>r tr us. capability_post (c # cs) att r (attempts tr) (events tr) us"
    have over: "runs_as ?over ?post"
      by (rule runs_seq, rule runs_emit_reliable [OF pub])
        (simp add: capability_post_def finished_def result_of_def)
    have run: "runs_as ?run ?post"
      by (rule runs_seq, rule runs_emit_reliable [OF pub], simp,
          rule runs_seq, rule runs_emit_reliable [OF pub], simp,
          rule runs_bind, rule runs_try, rule runs_bind,
          rule runs_mono [OF attempt_capability_runs [OF rel Some]])
        (auto split: sum.splits intro!: runs_seq runs_emit_reliable [OF pub] runs_mono [OF Cons.IH]
          capability_post_retry simp: capability_post_def [of _ _ "Inr (Inl _)"] finished_def result_of_def
          failed_attempt_def)
    have est: "fst (cad_estimate adapter x ctx w) \<noteq> Inl e" for x ctx w e
      using rel Some by (auto simp: reliable_def)
    show ?thesis
      unfolding capability_loop.simps Some option.case
      by (rule runs_bind, rule runs_budget_gate)
        (auto simp: est intro!: runs_mono [OF over] runs_mono [OF run])
  qed
qed

lemma model_loop_runs:
  assumes rel: "reliable deps"
  shows "runs_as (model_loop deps order cls request es l)
    (\<lambda>r tr us. model_post es l r (attempts tr) (events tr) us)"
proof (induction es arbitrary: l)
  case Nil
  then show ?case by (simp add: model_post_def)
next
  case (Cons m es)
  have pub: "\<And>ev w. fst (od_publish deps ev w) = Inr ()"
    using rel by (auto simp: reliable_def)
  show ?case
  proof (cases "od_resolveModelAdapter deps (me_id m)")
    case None
    with Cons.IH show ?thesis
      by (auto intro!: runs_mono [OF Cons.IH] model_post_skip)
  next
    case (Some adapter)
    let ?over = "seq_act (emit deps order ET_task_blocked)
            (ret (Inl ((result_of WS_budget_exceeded)
               \<lparr>wx_executionClass := Some cls, wx_modelId := Some (me_id m)\<rparr>)))"
    let ?run = "seq_act (emit deps order ET_worker_started)
            (seq_act (emit deps order ET_tool_called)
            (bind_act
               (try_act
                  (bind_act (attempt_model deps order cls request m adapter) (\<lambda>r. ret (Inl r)))
                  (\<lambda>error. ret (Inr (mad_classifyError adapter error))))
               (\<lambda>outcome. case outcome of
                   Inl r \<Rightarrow> ret (Inl r)
                 | Inr errorClass \<Rightarrow>
                     if \<not> isRetryable errorClass then ret (Inr (Some errorClass))
                     else model_loop deps order cls request es (Some errorClass))))"
    let ?post = "\<lambda>r tr us. model_post (m # es) l r (attempts tr) (events tr) us"
    have over: "runs_as ?over ?post"
      by (rule runs_seq, rule runs_emit_reliable [OF pub])
        (simp add: model_post_def finished_def result_of_def)
    have run: "runs_as ?run ?post"
      by (rule runs_seq, rule runs_emit_reliable [OF pub], simp,
          rule runs_seq, rule runs_emit_reliable [OF pub], simp,
          rule runs_bind, rule runs_try, rule runs_bind,
          rule runs_mono [OF attempt_model_runs [OF rel]])
        (auto split: sum.splits intro!: runs_mono [OF Cons.IH] model_post_retry
          simp: model_post_def [of _ _ "Inr (Inl _)"] model_post_def [of _ _ "Inr (Inr (Some _))" "[_]"]
            finished_def result_of_def failed_attempt_def)
    have est: "fst (mad_estimate adapter x ctx w) \<noteq> Inl e" for x ctx w e
      using rel Some by (auto simp: reliable_def)
    show ?thesis
      unfolding model_loop.simps Some option.case
      by (rule runs_bind, rule runs_budget_gate)
        (auto simp: est intro!: runs_mono [OF over] runs_mono [OF run])
  qed
qed

section \<open>Whole runs\<close>

definition model_chain :: "('w, 'e) orchestrator_deps \<Rightarrow> order \<Rightarrow> model_entry list" where
  "model_chain deps order =
     (case routeModel (od_numText deps) (model_input order) (od_modelRegistry deps) of
        None \<Rightarrow> [] | Some d \<Rightarrow> md_model d # md_fallbacks d)"

text \<open>Everything a run may try, in order: the capability candidates, then the chain of models.\<close>

definition plan_targets :: "('w, 'e) orchestrator_deps \<Rightarrow> order \<Rightarrow> target list" where
  "plan_targets deps order =
     map (\<lambda>c. Capability (rc_id c)) (candidateCapabilities (work_input order) (od_workRegistry deps))
     @ map (\<lambda>e. Model (me_id e)) (model_chain deps order)"

definition ai_permitted :: "('w, 'e) orchestrator_deps \<Rightarrow> order \<Rightarrow> bool" where
  "ai_permitted deps order \<longleftrightarrow>
     is_true (wo_needsReasoning order)
     \<or> (\<exists>c \<in> set (od_workRegistry deps). rc_health c = Healthy
          \<and> set (wo_requiredCapabilities order) \<subseteq> set (rc_provides c)
          \<and> isAiExecutionClass (rc_executionClass c))"

definition lifecycle ::
    "work_order_result \<Rightarrow> (target \<times> error_class option) list \<Rightarrow> event_type list \<Rightarrow> usage_record list \<Rightarrow> bool" where
  "lifecycle r a evs us =
     (case wx_status r of
        WS_denied \<Rightarrow> a = [] \<and> us = [] \<and> evs = [ET_task_blocked]
      | WS_approval_required \<Rightarrow> a = [] \<and> us = [] \<and> evs = [ET_approval_requested]
      | WS_awaiting_human \<Rightarrow> a = [] \<and> us = [] \<and> evs = [ET_task_planned, ET_task_blocked]
      | WS_blocked \<Rightarrow> a = [] \<and> us = [] \<and> evs = [ET_task_planned, ET_task_blocked]
      | _ \<Rightarrow> (\<exists>evs'. evs = ET_task_planned # evs' \<and> finished r a evs' us))"

lemma lifecycle_finished: "finished r a evs us \<Longrightarrow> lifecycle r a (ET_task_planned # evs) us"
  by (auto simp: lifecycle_def finished_def split: work_order_status.splits)

lemma finished_failure:
  "wx_status r = WS_failed \<Longrightarrow> list_all failed_attempt a \<Longrightarrow> list_all retried (butlast a) \<Longrightarrow>
     evs = rounds (length a) @ [ET_task_failed] \<Longrightarrow> us = [] \<Longrightarrow> finished r a evs us"
  by (simp add: finished_def)

lemma model_path_runs:
  assumes rel: "reliable deps"
  shows "runs_as (model_path deps order cls) (\<lambda>r tr us.
    case r of Inl _ \<Rightarrow> False
      | Inr res \<Rightarrow> finished res (attempts tr) (events tr) us
          \<and> subseq (map fst (attempts tr)) (map (\<lambda>e. Model (me_id e)) (model_chain deps order)))"
proof -
  have pub: "\<And>ev w. fst (od_publish deps ev w) = Inr ()"
    using rel by (auto simp: reliable_def)
  have fail: "runs_as (seq_act (emit deps order ET_task_failed) (ret (failed_with cls reason)))
    (\<lambda>r tr us. \<exists>res. r = Inr res \<and> wx_status res = WS_failed \<and> attempts tr = []
       \<and> events tr = [ET_task_failed] \<and> us = [])" for reason
    by (rule runs_seq, rule runs_emit_reliable [OF pub]) (simp add: failed_with_def result_of_def)
  show ?thesis
  proof (cases "wo_modelRequest order")
    case None
    then show ?thesis
      by (auto simp: model_path_def finished_def intro!: runs_mono [OF fail])
  next
    case (Some request)
    show ?thesis
    proof (cases "routeModel (od_numText deps) (model_input order) (od_modelRegistry deps)")
      case None
      with Some show ?thesis
        by (auto simp: model_path_def finished_def intro!: runs_mono [OF fail])
    next
      case decided: (Some d)
      then have chain: "model_chain deps order = md_model d # md_fallbacks d"
        by (simp add: model_chain_def)
      show ?thesis
        unfolding model_path_def Some decided option.case chain
        by (rule runs_bind, rule runs_mono [OF model_loop_runs [OF rel]])
          (auto simp: model_post_def split: sum.splits if_splits
            intro!: runs_mono [OF fail] finished_failure)
    qed
  qed
qed

text \<open>The AI path is only taken when the order allows it or an AI capability was matched.\<close>

lemma ai_routed:
  assumes "isAiExecutionClass (wd_executionClass (routeWork (work_input order) (od_workRegistry deps)))"
  shows "ai_permitted deps order"
proof -
  let ?i = "work_input order" and ?reg = "od_workRegistry deps"
  from assms have "wd_executionClass (routeWork ?i ?reg) \<noteq> EC_human" by auto
  have human: "wd_executionClass (routeWork ?i ?reg) = EC_human" if "is_true (wr_prefersHuman ?i)"
    using that by (simp add: routeWork_def)
  have np: "\<not> is_true (wr_prefersHuman ?i)" using human assms by auto
  show ?thesis
  proof (cases "candidateCapabilities ?i ?reg")
    case Nil
    from routeWork_no_match [OF Nil np] assms show ?thesis
      by (simp add: ai_permitted_def work_input_def split: if_splits)
  next
    case (Cons c cs)
    with np have matched_class: "wd_executionClass (routeWork ?i ?reg) = rc_executionClass c"
      by (subst routeWork_candidates) simp
    have "c \<in> set (candidateCapabilities ?i ?reg)" using Cons by simp
    with candidates_iff [OF np] have "c \<in> set ?reg \<and> rc_health c = Healthy
        \<and> set (wo_requiredCapabilities order) \<subseteq> set (rc_provides c)"
      by (simp add: work_input_def)
    with matched_class assms show ?thesis by (auto simp: ai_permitted_def)
  qed
qed

lemma subseq_setD: "subseq xs ys \<Longrightarrow> set xs \<subseteq> set ys"
  by (induction rule: list_emb.induct) auto

text \<open>What the part after \<open>task.planned\<close> satisfies.\<close>

definition planned_post ::
    "('w, 'e) orchestrator_deps \<Rightarrow> order \<Rightarrow> 'e + work_order_result \<Rightarrow>
     (target \<times> error_class option) list \<Rightarrow> event_type list \<Rightarrow> usage_record list \<Rightarrow> bool" where
  "planned_post deps order r a evs us \<longleftrightarrow>
     (\<exists>res. r = Inr res \<and> lifecycle res a (ET_task_planned # evs) us)
     \<and> subseq (map fst a) (plan_targets deps order)
     \<and> ((\<exists>i. Model i \<in> set (map fst a)) \<longrightarrow> ai_permitted deps order)"

lemma runs_emit_ret:
  assumes "reliable deps" and "\<And>ev. ev_type ev = t \<Longrightarrow> P (Inr res) [Published ev] []"
  shows "runs_as (seq_act (emit deps order t) (ret res)) P"
proof -
  have "\<And>ev w. fst (od_publish deps ev w) = Inr ()"
    using assms(1) by (auto simp: reliable_def)
  then show ?thesis
    by (rule runs_seq [OF runs_emit_reliable]) (simp add: assms(2))
qed

lemma planned_post_empty:
  "lifecycle res [] (ET_task_planned # evs) us \<Longrightarrow> planned_post deps order (Inr res) [] evs us"
  by (simp add: planned_post_def)

text \<open>The model path after failed capability attempts.\<close>

lemma model_path_planned:
  assumes "reliable deps" and "list_all retried b"
    and "subseq (map fst b)
      (map (\<lambda>c. Capability (rc_id c)) (candidateCapabilities (work_input order) (od_workRegistry deps)))"
    and "ai_permitted deps order"
  shows "runs_as (model_path deps order cls)
    (\<lambda>r tr us. planned_post deps order r (b @ attempts tr) (rounds (length b) @ events tr) us)"
proof (rule runs_mono [OF model_path_runs [OF assms(1)]])
  fix r :: "'b + work_order_result" and tr us
  assume "case r of Inl _ \<Rightarrow> False
      | Inr res \<Rightarrow> finished res (attempts tr) (events tr) us
          \<and> subseq (map fst (attempts tr)) (map (\<lambda>e. Model (me_id e)) (model_chain deps order))"
  then obtain res where "r = Inr res" "finished res (attempts tr) (events tr) us"
    and sub: "subseq (map fst (attempts tr)) (map (\<lambda>e. Model (me_id e)) (model_chain deps order))"
    by (cases r) auto
  moreover have "subseq (map fst (b @ attempts tr)) (plan_targets deps order)"
    unfolding plan_targets_def map_append using assms(3) sub by (rule list_emb_append_mono)
  ultimately show "planned_post deps order r (b @ attempts tr) (rounds (length b) @ events tr) us"
    using assms(2,4) by (auto simp: planned_post_def intro!: lifecycle_finished finished_append)
qed

lemma capability_path_runs:
  assumes rel: "reliable deps"
  shows "runs_as (capability_path deps order routing)
    (\<lambda>r tr us. planned_post deps order r (attempts tr) (events tr) us)"
  unfolding capability_path_def
proof (rule runs_bind, rule runs_mono [OF capability_loop_runs [OF rel]])
  let ?cands = "candidateCapabilities (work_input order) (od_workRegistry deps)"
  fix r :: "'b + (work_order_result + bool)" and tr us
  assume post: "capability_post ?cands False r (attempts tr) (events tr) us"
  then have sub: "subseq (map fst (attempts tr)) (map (\<lambda>c. Capability (rc_id c)) ?cands)"
    by (simp add: capability_post_def)
  have no_model: "Model i \<notin> set (map fst (attempts tr))" for i
    using subseq_setD [OF sub] by auto
  have plan: "subseq (map fst (attempts tr)) (plan_targets deps order)"
    using sub by (auto simp: plan_targets_def intro: list_emb_prefix)
  show "case r of
      Inl e \<Rightarrow> planned_post deps order (Inl e) (attempts tr) (events tr) us
    | Inr a \<Rightarrow> runs_as
        (case a of Inl r \<Rightarrow> ret r
           | Inr attempted \<Rightarrow>
            if \<not> attempted
            then seq_act (emit deps order ET_task_blocked)
              (ret ((result_of WS_blocked)
                 \<lparr>wx_executionClass := Some (wd_executionClass routing),
                  wx_reason := Some ''no_capability_adapter'',
                  wx_capabilityId := wd_capabilityId routing\<rparr>))
            else if \<not> is_true (wo_needsReasoning order)
            then seq_act (emit deps order ET_task_failed)
              (ret ((failed_with (wd_executionClass routing) ''adapter_error'')
                 \<lparr>wx_capabilityId := wd_capabilityId routing\<rparr>))
            else model_path deps order EC_cloud_ai)
        (\<lambda>r' tr' us'. planned_post deps order r' (attempts (tr @ tr')) (events (tr @ tr')) (us @ us'))"
  proof (cases r)
    case (Inl e)
    with post show ?thesis by (simp add: capability_post_def)
  next
    case (Inr a)
    show ?thesis
    proof (cases a)
      case returned: (Inl res)
      with Inr post plan no_model show ?thesis
        by (auto simp: capability_post_def planned_post_def lifecycle_finished)
    next
      case looped: (Inr attempted)
      with Inr post have loop: "list_all retried (attempts tr)" "us = []"
        "events tr = rounds (length (attempts tr))" "attempted \<longleftrightarrow> attempts tr \<noteq> []"
        by (auto simp: capability_post_def)
      show ?thesis
      proof (cases "attempted \<and> is_true (wo_needsReasoning order)")
        case True
        with loop Inr looped show ?thesis
          using model_path_planned [OF rel loop(1) sub, of EC_cloud_ai]
          by (simp add: ai_permitted_def)
      next
        case False
        have failed: "planned_post deps order (Inr ((failed_with c x)\<lparr>wx_capabilityId := i\<rparr>))
            (attempts tr) (rounds (length (attempts tr)) @ [ET_task_failed]) []" for c x i
          using loop(1) plan no_model
          by (auto simp: planned_post_def failed_with_def result_of_def
              intro!: lifecycle_finished finished_failure list_all_retried_failed list_all_butlast)
        show ?thesis
          using False loop failed Inr looped
          by (auto simp: planned_post_empty lifecycle_def result_of_def intro!: runs_emit_ret [OF rel])
      qed
    qed
  qed
qed

lemma routed_path_runs:
  assumes rel: "reliable deps"
  shows "runs_as (routed_path deps order) (\<lambda>r tr us.
    \<exists>evs. events tr = ET_task_planned # evs \<and> planned_post deps order r (attempts tr) evs us)"
proof -
  let ?routing = "routeWork (work_input order) (od_workRegistry deps)"
  have pub: "\<And>ev w. fst (od_publish deps ev w) = Inr ()"
    using rel by (auto simp: reliable_def)
  have ai: "runs_as (model_path deps order (wd_executionClass ?routing))
      (\<lambda>r tr us. planned_post deps order r (attempts tr) (events tr) us)"
    if "isAiExecutionClass (wd_executionClass ?routing)"
    using model_path_planned [OF rel _ _ ai_routed [OF that], of "[]"] by simp
  show ?thesis
    unfolding routed_path_def Let_def
    by (rule runs_seq, rule runs_emit_reliable [OF pub])
      (auto simp: result_of_def simp del: isAiExecutionClass.simps
        intro!: runs_mono [OF ai] runs_mono [OF capability_path_runs [OF rel]]
          runs_emit_ret [OF rel] planned_post_empty simp: lifecycle_def)
qed

lemma executeWorkOrder_runs:
  assumes rel: "reliable deps"
  shows "runs_as (executeWorkOrder deps order) (\<lambda>r tr us. \<exists>res. r = Inr res
    \<and> lifecycle res (attempts tr) (events tr) us
    \<and> subseq (map fst (attempts tr)) (plan_targets deps order)
    \<and> ((\<exists>i. Model i \<in> set (map fst (attempts tr))) \<longrightarrow> ai_permitted deps order))"
proof -
  let ?post = "\<lambda>r tr us. \<exists>res. r = Inr res
    \<and> lifecycle res (attempts tr) (events tr) us
    \<and> subseq (map fst (attempts tr)) (plan_targets deps order)
    \<and> ((\<exists>i. Model i \<in> set (map fst (attempts tr))) \<longrightarrow> ai_permitted deps order)"
  have routed: "runs_as (routed_path deps order) ?post"
    by (rule runs_mono [OF routed_path_runs [OF rel]]) (auto simp: planned_post_def)
  show ?thesis
  proof (cases "wo_policy order")
    case None
    with routed show ?thesis by (simp add: executeWorkOrder_def)
  next
    case (Some p)
    with routed show ?thesis
      by (auto simp: executeWorkOrder_def Let_def lifecycle_def result_of_def intro!: runs_emit_ret [OF rel])
  qed
qed

lemma runs_asD:
  "runs_as m P \<Longrightarrow> \<exists>tr us. rt_log (snd (m s)) = rt_log s @ tr \<and> rt_ledger (snd (m s)) = rt_ledger s @ us
     \<and> P (fst (m s)) tr us"
  by (simp add: runs_as_def)

lemma lifecycle_butlast: "lifecycle r a evs us \<Longrightarrow> list_all retried (butlast a)"
  by (cases "wx_status r") (auto simp: lifecycle_def dest: finished_butlast)

section \<open>A catalog wires what it routes\<close>

lemma toWorkRegistry_map:
  "toWorkRegistry cat = map (\<lambda>e. \<lparr>rc_id = fst e, rc_executionClass = cat_executionClass (snd e),
     rc_provides = cat_provides (snd e), rc_health = cat_health (snd e)\<rparr>) cat"
proof -
  have "fold (\<lambda>e. registry_register (f e)) es acc = acc @ map f es"
    for f :: "string \<times> ('a, 'b) capability_adapter catalog_entry \<Rightarrow> registered_capability" and es acc
    by (induction es arbitrary: acc) (simp_all add: registry_register_def)
  then show ?thesis by (simp add: toWorkRegistry_def)
qed

lemma catalog_resolves:
  assumes "c \<in> set (toWorkRegistry cat)"
  shows "catalog_resolve cat (rc_id c) \<noteq> None"
proof -
  from assms have "rc_id c \<in> fst ` set cat"
    by (auto simp: toWorkRegistry_map intro: rev_image_eqI)
  then show ?thesis
    by (simp add: catalog_resolve_def map_of_eq_None_iff)
qed

definition never_blocked :: "'e + work_order_result \<Rightarrow> bool" where
  "never_blocked r = (\<forall>res. r = Inr res \<longrightarrow> wx_status res \<noteq> WS_blocked)"

lemma attempted_stays: "runs_as (capability_loop deps order cs True)
    (\<lambda>r tr us. r \<noteq> Inr (Inr False) \<and> (\<forall>res. r = Inr (Inl res) \<longrightarrow> wx_status res \<noteq> WS_blocked))"
proof (induction cs)
  case Nil
  then show ?case by simp
next
  case (Cons c cs)
  then show ?case
    by (auto simp: attempt_capability_def result_of_def split: option.split sum.split
        intro!: runs_bind runs_seq runs_try runs_budget_gate runs_emit runs_execute_call runs_call_out)
qed

lemma wired_loop:
  assumes "resolve_capability deps (rc_id c) = Some adapter"
  shows "runs_as (capability_loop deps order (c # cs) att)
    (\<lambda>r tr us. r \<noteq> Inr (Inr False) \<and> (\<forall>res. r = Inr (Inl res) \<longrightarrow> wx_status res \<noteq> WS_blocked))"
  using assms
  by (auto simp: attempt_capability_def result_of_def split: option.split sum.split
      intro!: runs_bind runs_seq runs_try runs_budget_gate runs_emit runs_execute_call runs_call_out
        runs_mono [OF attempted_stays])

lemma model_loop_never_blocked:
  "runs_as (model_loop deps order cls request es l)
    (\<lambda>r tr us. \<forall>res. r = Inr (Inl res) \<longrightarrow> wx_status res \<noteq> WS_blocked)"
proof (induction es arbitrary: l)
  case Nil
  then show ?case by simp
next
  case (Cons e es)
  then show ?case
    by (auto simp: attempt_model_def result_of_def split: option.split sum.split
        intro!: runs_bind runs_seq runs_try runs_budget_gate runs_emit runs_execute_call runs_call_out
          runs_mono [OF Cons.IH])
qed

lemma model_path_never_blocked: "runs_as (model_path deps order cls) (\<lambda>r tr us. never_blocked r)"
  by (auto simp: model_path_def never_blocked_def failed_with_def result_of_def
      simp del: model_loop.simps split: option.split sum.split
      intro!: runs_seq runs_emit runs_bind runs_mono [OF model_loop_never_blocked])

lemma routed_candidates:
  assumes "wd_executionClass (routeWork i reg) \<noteq> EC_human"
    and "\<not> isAiExecutionClass (wd_executionClass (routeWork i reg))"
  obtains c cs where "candidateCapabilities i reg = c # cs" "c \<in> set reg"
proof -
  have np: "\<not> is_true (wr_prefersHuman i)"
    using assms(1) by (auto simp: routeWork_def)
  have "candidateCapabilities i reg \<noteq> []"
    using routeWork_no_match [OF _ np, of reg] assms by (auto split: if_splits)
  then obtain c cs where "candidateCapabilities i reg = c # cs" by (cases "candidateCapabilities i reg") auto
  moreover from this have "c \<in> set (candidateCapabilities i reg)" by simp
  with candidates_iff [OF np] have "c \<in> set reg" by blast
  ultimately show thesis by (rule that)
qed

lemma routed_path_never_blocked:
  assumes "od_workRegistry deps = toWorkRegistry cat"
    and "od_resolveCapabilityAdapter deps = Some (catalog_resolve cat)"
  shows "runs_as (routed_path deps order) (\<lambda>r tr us. never_blocked r)"
proof -
  let ?routing = "routeWork (work_input order) (od_workRegistry deps)"
  have path: "runs_as (capability_path deps order ?routing) (\<lambda>r tr us. never_blocked r)"
    if nh: "wd_executionClass ?routing \<noteq> EC_human"
      and na: "\<not> isAiExecutionClass (wd_executionClass ?routing)"
  proof -
    obtain c cs where cands: "candidateCapabilities (work_input order) (od_workRegistry deps) = c # cs"
      and c: "c \<in> set (od_workRegistry deps)"
      using nh na by (rule routed_candidates)
    obtain adapter where "resolve_capability deps (rc_id c) = Some adapter"
      using catalog_resolves [of c cat] c assms by (auto simp: resolve_capability_def)
    note loop = wired_loop [OF this, of order cs False]
    show ?thesis
      unfolding capability_path_def cands
      by (rule runs_bind, rule runs_mono [OF loop])
        (auto simp: never_blocked_def failed_with_def result_of_def split: sum.split
          intro!: runs_seq runs_emit model_path_never_blocked [unfolded never_blocked_def])
  qed
  show ?thesis
    unfolding routed_path_def Let_def
    by (auto simp: result_of_def simp del: isAiExecutionClass.simps
        intro!: runs_seq runs_emit path model_path_never_blocked) (simp_all add: never_blocked_def)
qed

section \<open>Properties\<close>

text \<open>
  C1: The policy gate comes before everything else and cannot be bypassed: when an order carries a policy
  that the engine does not allow, then whatever the bus, the registries and the adapters are, the only
  call the orchestrator makes is the publication of one event (\<open>task.blocked\<close> for a denial,
  \<open>approval.requested\<close> otherwise), nothing is estimated, executed or charged, and the order ends as
  denied or as waiting for approval.
\<close>

theorem policy_gate_first:
  assumes "wo_policy order = Some p" and "pd_effect (evaluate p) \<noteq> Allow"
  shows "\<exists>ob ev. rt_log (snd (executeWorkOrder deps order s)) = rt_log s @ [ob]
    \<and> event_of ob = Some ev \<and> attributed order ev
    \<and> ev_type ev = (if pd_effect (evaluate p) = Deny then ET_task_blocked else ET_approval_requested)
    \<and> rt_ledger (snd (executeWorkOrder deps order s)) = rt_ledger s
    \<and> (\<forall>res. fst (executeWorkOrder deps order s) = Inr res \<longrightarrow>
         wx_status res = (if pd_effect (evaluate p) = Deny then WS_denied else WS_approval_required)
         \<and> wx_reason res = Some (policy_reason_text (pd_reason (evaluate p))))"
proof -
  let ?type = "if pd_effect (evaluate p) = Deny then ET_task_blocked else ET_approval_requested"
  have "pd_effect (evaluate p) = Deny \<or> pd_effect (evaluate p) = Requires_approval"
    using assms(2) by (cases "pd_effect (evaluate p)") auto
  then have "runs_as (executeWorkOrder deps order) (\<lambda>r tr us. \<exists>ob ev. tr = [ob] \<and> event_of ob = Some ev
      \<and> attributed order ev \<and> ev_type ev = ?type \<and> us = []
      \<and> (\<forall>res. r = Inr res \<longrightarrow>
         wx_status res = (if pd_effect (evaluate p) = Deny then WS_denied else WS_approval_required)
         \<and> wx_reason res = Some (policy_reason_text (pd_reason (evaluate p)))))"
    using assms(1)
    by (auto simp: executeWorkOrder_def Let_def result_of_def intro!: runs_seq runs_emit)
  from runs_asD [OF this, of s] show ?thesis by auto
qed

text \<open>
  C3: Whatever its dependencies do, and also when it ends with an exception: every event a run publishes
  or tries to publish carries the order's organisation, task, actor and correlation; with a budget,
  nothing is executed that was not estimated before at a cost within what is left of the budget; and
  the ledger only grows, by at most one record for each execution that returned, each charged to the
  order's task.
\<close>

theorem executeWorkOrder_safe:
  "\<exists>tr us. rt_log (snd (executeWorkOrder deps order s)) = rt_log s @ tr
    \<and> rt_ledger (snd (executeWorkOrder deps order s)) = rt_ledger s @ us
    \<and> (\<forall>ob ev. ob \<in> set tr \<and> event_of ob = Some ev \<longrightarrow> attributed order ev)
    \<and> (\<forall>ob. wo_budget order = Some ob \<longrightarrow>
         budgeted (bu_limitUsd (wb_budget ob) - wb_spentUsd ob) {} tr)
    \<and> length us \<le> length (filter is_executed tr)
    \<and> (\<forall>u \<in> set us. ur_taskId u = wo_taskId order)"
  using runs_asD [OF safe_executeWorkOrder [of deps order], of s]
  by (auto simp: safe_def within_budget_def split: option.splits)

text \<open>
  C2: When only executions fail, a run always returns, and its events, attempts and charges fit its
  status. A denied, unapproved, parked or human order attempts and charges nothing. Otherwise the events
  are \<open>task.planned\<close>, then \<open>worker.started\<close> and \<open>tool.called\<close> for each attempt, then exactly one final
  event: \<open>task.completed\<close> when the last attempt succeeded, with exactly one usage record, of the
  capability or model that the result names; \<open>task.failed\<close> when every attempt failed and
  \<open>task.blocked\<close> when an estimate exceeded the budget, with nothing charged.
\<close>

theorem executeWorkOrder_lifecycle:
  assumes "reliable deps"
  shows "\<exists>res tr us. fst (executeWorkOrder deps order s) = Inr res
    \<and> rt_log (snd (executeWorkOrder deps order s)) = rt_log s @ tr
    \<and> rt_ledger (snd (executeWorkOrder deps order s)) = rt_ledger s @ us
    \<and> lifecycle res (attempts tr) (events tr) us"
  using runs_asD [OF executeWorkOrder_runs [OF assms, of order], of s] by blast


text \<open>
  With the work registry and the resolver taken from one catalog, routing and execution cannot drift
  apart: an order never ends as \<open>blocked\<close> for want of an adapter, whatever the bus and the adapters do.
\<close>

theorem catalog_never_unwired:
  assumes "od_workRegistry deps = toWorkRegistry cat"
    and "od_resolveCapabilityAdapter deps = Some (catalog_resolve cat)"
    and "fst (executeWorkOrder deps order s) = Inr res"
  shows "wx_status res \<noteq> WS_blocked"
proof -
  have "runs_as (executeWorkOrder deps order) (\<lambda>r tr us. never_blocked r)"
    unfolding executeWorkOrder_def Let_def
    by (auto simp: result_of_def never_blocked_def split: option.split
        intro!: runs_seq runs_emit routed_path_never_blocked [OF assms(1,2), unfolded never_blocked_def])
  from runs_asD [OF this, of s] assms(3) show ?thesis by (auto simp: never_blocked_def)
qed

subsection \<open>Witnesses\<close>

definition sample_env :: env where
  "sample_env = \<lparr>uuid_at = (\<lambda>n. ''id''), clock_at = (\<lambda>n. 0)\<rparr>"

text \<open>A capability that is rate-limited, one that works, and a bus that accepts every event.\<close>

definition busy_adapter :: "(unit, unit) capability_adapter" where
  "busy_adapter =
     \<lparr>cad_id = ''crm-a'', cad_name = ''a'', cad_version = ''1'', cad_capabilities = [''crm''],
      cad_estimate = (\<lambda>_ _ w. (Inr \<lparr>es_costUsd = 1, es_latencyMs = 1, es_confidence = 1\<rparr>, w)),
      cad_execute = (\<lambda>_ _ w. (Inl (), w)),
      cad_reportUsage = (\<lambda>w. (Inr None, w)), cad_classifyError = (\<lambda>_. ErrRateLimit)\<rparr>"

definition working_adapter :: "(unit, unit) capability_adapter" where
  "working_adapter = busy_adapter\<lparr>cad_id := ''crm-b'', cad_execute := (\<lambda>_ _ w. (Inr (JBool True), w))\<rparr>"

definition default_options :: register_options where
  "default_options = \<lparr>ro_provides = None, ro_health = None\<rparr>"

definition sample_catalog :: "(unit, unit) capability_catalog" where
  "sample_catalog =
     catalog_register working_adapter EC_automation default_options
       (catalog_register busy_adapter EC_deterministic default_options [])"

definition sample_deps :: "(unit, unit) orchestrator_deps" where
  "sample_deps =
     \<lparr>od_publish = (\<lambda>_ w. (Inr (), w)), od_workRegistry = toWorkRegistry sample_catalog,
      od_modelRegistry = MODEL_REGISTRY, od_resolveModelAdapter = (\<lambda>_. None),
      od_resolveCapabilityAdapter = Some (catalog_resolve sample_catalog),
      od_env = sample_env, od_numText = (\<lambda>_. [])\<rparr>"

definition sample_order :: order where
  "sample_order =
     \<lparr>wo_organizationId = ''org'', wo_taskId = Some ''t1'', wo_correlationId = None, wo_actor = None,
      wo_requiredCapabilities = [''crm''], wo_prefersHuman = None, wo_needsReasoning = None,
      wo_reasoningTier = None, wo_needsTools = None, wo_needsVision = None, wo_requireLocal = None,
      wo_minContextTokens = None, wo_modelRequest = None, wo_capabilityInput = JNull,
      wo_policy = None, wo_budget = None\<rparr>"

definition initial :: "unit runtime" where
  "initial = \<lparr>rt_world = (), rt_ledger = [], rt_tick = 0, rt_log = []\<rparr>"

lemma sample_reliable: "reliable sample_deps"
  by (auto simp: reliable_def sample_deps_def resolve_capability_def catalog_resolve_def
      sample_catalog_def catalog_register_def working_adapter_def busy_adapter_def split: if_splits)

definition observer_input :: policy_input where
  "observer_input = sample_policy_input\<lparr>pi_roleCeilings := Some (\<lambda>_. OBSERVE)\<rparr>"

theorem policy_gate_first_witness:
  "pd_effect (evaluate observer_input) = Deny
   \<and> rt_ledger (snd (executeWorkOrder sample_deps (sample_order\<lparr>wo_policy := Some observer_input\<rparr>) initial)) = []"
proof -
  have deny: "pd_effect (evaluate observer_input) = Deny"
    by (simp add: evaluate_effect attempt_permitted_def effective_ceiling_def observer_input_def
        sample_policy_input_def authority_le)
  have "wo_policy (sample_order\<lparr>wo_policy := Some observer_input\<rparr>) = Some observer_input" by simp
  from policy_gate_first [OF this, of sample_deps initial] deny show ?thesis
    by (auto simp: initial_def)
qed

theorem executeWorkOrder_safe_witness:
  "length (rt_ledger (snd (executeWorkOrder sample_deps sample_order initial)))
     \<le> length (filter is_executed (rt_log (snd (executeWorkOrder sample_deps sample_order initial))))"
  using executeWorkOrder_safe [of sample_deps sample_order initial] by (auto simp: initial_def)

lemmas run_defs = executeWorkOrder_def routed_path_def capability_path_def attempt_capability_def
  execute_call_def call_out_def observe_def modify_def record_usage_def emit_def publish_event_def
  budget_gate_def bind_act_def seq_act_def try_act_def ret_def throw_def gets_def

lemma sample_run:
  "attempts (rt_log (snd (executeWorkOrder sample_deps sample_order initial))) =
     [(Capability ''crm-a'', Some ErrRateLimit), (Capability ''crm-b'', None)]"
  by (simp add: run_defs sample_deps_def sample_order_def initial_def sample_catalog_def
      catalog_register_def working_adapter_def busy_adapter_def default_options_def
      toWorkRegistry_map routeWork_def healthyProviding_def work_input_def byPreference_def
      CLASS_PREFERENCE_def candidateCapabilities_def resolve_capability_def catalog_resolve_def
      isRetryable_def Let_def)

theorem executeWorkOrder_lifecycle_witness:
  "\<exists>res tr us. fst (executeWorkOrder sample_deps sample_order initial) = Inr res
     \<and> rt_log (snd (executeWorkOrder sample_deps sample_order initial)) = tr
     \<and> lifecycle res [(Capability ''crm-a'', Some ErrRateLimit), (Capability ''crm-b'', None)] (events tr) us"
  using executeWorkOrder_lifecycle [OF sample_reliable, of sample_order initial] sample_run
  by (auto simp: initial_def)


theorem catalog_never_unwired_witness:
  "\<exists>res. fst (executeWorkOrder sample_deps sample_order initial) = Inr res
     \<and> wx_status res \<noteq> WS_blocked"
proof -
  obtain res where "fst (executeWorkOrder sample_deps sample_order initial) = Inr res"
    using runs_asD [OF executeWorkOrder_runs [OF sample_reliable, of sample_order], of initial] by blast
  moreover from catalog_never_unwired [OF _ _ this, of sample_catalog]
  have "wx_status res \<noteq> WS_blocked" by (simp add: sample_deps_def)
  ultimately show ?thesis by blast
qed

end
