(* ===== verification/Database.thy ===== *)
theory Database
  imports Events Js_Values
begin

text \<open>
  The Postgres tables the services read and write (\<open>packages/db/src/schema/tenancy.ts\<close> and
  \<open>execution.ts\<close>): rows as records, a database as the lists of its rows, and the constraints of the
  schema by name. A statement applies a change and is refused, with the first violated constraint, when
  the changed database breaks one (all constraints of the schema are checked at the end of a statement);
  a transaction is undone when it throws. Columns the code never reads (timestamps kept by defaults,
  leases, checkpoints, priorities) are left out. A column of a Postgres enum only holds its members.
\<close>

section \<open>Rows\<close>

record org_row =
  og_id :: ident
  og_name :: string
  og_slug :: string
  og_externalAuthId :: "string option"

record user_row =
  uw_id :: ident
  uw_organizationId :: ident
  uw_email :: string
  uw_displayName :: string
  uw_externalAuthId :: "string option"

record team_row =
  tw_id :: ident
  tw_organizationId :: ident
  tw_name :: string

record membership_row =
  mw_id :: ident
  mw_organizationId :: ident
  mw_userId :: ident
  mw_teamId :: "ident option"
  mw_role :: role

record project_row =
  jw_id :: ident
  jw_organizationId :: ident
  jw_name :: string
  jw_scope :: scope

record project_membership_row =
  pw_id :: ident
  pw_organizationId :: ident
  pw_projectId :: ident
  pw_userId :: ident

record objective_row =
  or_id :: ident
  or_organizationId :: ident
  or_scope :: scope
  or_scopeRef :: "ident option"
  or_requesterId :: ident
  or_ownerId :: ident
  or_projectId :: "ident option"
  or_requestedOutcome :: string
  or_definitionOfDone :: string
  or_status :: objective_status
  or_riskLevel :: risk_level
  or_dueAt :: "time option"
  or_completionSummary :: "string option"

record task_row =
  kr_id :: ident
  kr_organizationId :: ident
  kr_objectiveId :: ident
  kr_parentTaskId :: "ident option"
  kr_goal :: string
  kr_definitionOfDone :: string
  kr_status :: task_status
  kr_executionClass :: "execution_class option"
  kr_requiredCapabilities :: "string list"
  kr_requiredAuthority :: authority_level
  kr_idempotencyKey :: "string option"
  kr_retryCount :: int
  kr_maxRetries :: int

text \<open>\<open>'j\<close> is the state of the job queue, which \<open>graphile_worker.add_job\<close> changes in the same database.\<close>

record 'j db =
  db_orgs :: "org_row list"
  db_users :: "user_row list"
  db_teams :: "team_row list"
  db_memberships :: "membership_row list"
  db_projects :: "project_row list"
  db_projectMemberships :: "project_membership_row list"
  db_objectives :: "objective_row list"
  db_tasks :: "task_row list"
  db_events :: "event_row list"
  db_queue :: 'j

section \<open>Constraints\<close>

text \<open>Unique over the rows where the key is present, and a reference that is skipped when it is null.\<close>

definition unique_on :: "('r \<Rightarrow> 'k option) \<Rightarrow> 'r list \<Rightarrow> bool" where
  "unique_on key rows = distinct (List.map_filter key rows)"

definition refers :: "('r \<Rightarrow> 'k option) \<Rightarrow> 'r list \<Rightarrow> 'k list \<Rightarrow> bool" where
  "refers key rows targets = (\<forall>k \<in> set (List.map_filter key rows). k \<in> set targets)"

lemma set_map_filter_Some: "t \<in> set (List.map_filter f xs) \<longleftrightarrow> (\<exists>x \<in> set xs. f x = Some t)"
  by (induction xs) (auto split: option.splits)

lemma unique_onD:
  "unique_on key rows \<Longrightarrow> x \<in> set rows \<Longrightarrow> y \<in> set rows \<Longrightarrow> key x = Some k \<Longrightarrow> key y = Some k \<Longrightarrow> x = y"
proof (induction rows)
  case (Cons r rows)
  then show ?case
    by (auto simp: unique_on_def set_map_filter_Some split: option.splits)
qed simp

lemma refersD: "refers key rows targets \<Longrightarrow> r \<in> set rows \<Longrightarrow> key r = Some k \<Longrightarrow> k \<in> set targets"
  by (auto simp: refers_def set_map_filter_Some)

definition org_ids :: "'j db \<Rightarrow> ident list" where
  "org_ids d = map og_id (db_orgs d)"

definition org_users :: "'j db \<Rightarrow> (ident \<times> ident) list" where
  "org_users d = map (\<lambda>u. (uw_organizationId u, uw_id u)) (db_users d)"

definition org_teams :: "'j db \<Rightarrow> (ident \<times> ident) list" where
  "org_teams d = map (\<lambda>t. (tw_organizationId t, tw_id t)) (db_teams d)"

definition org_projects :: "'j db \<Rightarrow> (ident \<times> ident) list" where
  "org_projects d = map (\<lambda>p. (jw_organizationId p, jw_id p)) (db_projects d)"

definition org_objectives :: "'j db \<Rightarrow> (ident \<times> ident) list" where
  "org_objectives d = map (\<lambda>r. (or_organizationId r, or_id r)) (db_objectives d)"

definition org_tasks :: "'j db \<Rightarrow> (ident \<times> ident) list" where
  "org_tasks d = map (\<lambda>r. (kr_organizationId r, kr_id r)) (db_tasks d)"

definition tenancy_constraints :: "(string \<times> ('j db \<Rightarrow> bool)) list" where
  "tenancy_constraints =
    [(''organizations_pkey'', \<lambda>d. unique_on (Some \<circ> og_id) (db_orgs d)),
     (''organizations_slug_unique'', \<lambda>d. unique_on (Some \<circ> og_slug) (db_orgs d)),
     (''organizations_external_auth_id_unique'', \<lambda>d. unique_on og_externalAuthId (db_orgs d)),
     (''users_pkey'', \<lambda>d. unique_on (Some \<circ> uw_id) (db_users d)),
     (''users_organization_id_organizations_id_fk'', \<lambda>d. refers (Some \<circ> uw_organizationId) (db_users d) (org_ids d)),
     (''users_org_email_unique'',
        \<lambda>d. unique_on (\<lambda>u. Some (uw_organizationId u, uw_email u)) (db_users d)),
     (''users_external_auth_id_unique'', \<lambda>d. unique_on uw_externalAuthId (db_users d)),
     (''teams_pkey'', \<lambda>d. unique_on (Some \<circ> tw_id) (db_teams d)),
     (''teams_organization_id_organizations_id_fk'', \<lambda>d. refers (Some \<circ> tw_organizationId) (db_teams d) (org_ids d)),
     (''memberships_pkey'', \<lambda>d. unique_on (Some \<circ> mw_id) (db_memberships d)),
     (''memberships_user_team_unique'',
        \<lambda>d. unique_on (\<lambda>m. map_option (Pair (mw_userId m)) (mw_teamId m)) (db_memberships d)),
     (''memberships_org_user_fk'',
        \<lambda>d. refers (\<lambda>m. Some (mw_organizationId m, mw_userId m)) (db_memberships d) (org_users d)),
     (''memberships_org_team_fk'',
        \<lambda>d. refers (\<lambda>m. map_option (Pair (mw_organizationId m)) (mw_teamId m)) (db_memberships d)
          (org_teams d)),
     (''enum scope of projects'', \<lambda>d. set (map jw_scope (db_projects d)) \<subseteq> set SCOPES),
     (''projects_pkey'', \<lambda>d. unique_on (Some \<circ> jw_id) (db_projects d)),
     (''projects_organization_id_organizations_id_fk'', \<lambda>d. refers (Some \<circ> jw_organizationId) (db_projects d) (org_ids d)),
     (''project_memberships_pkey'', \<lambda>d. unique_on (Some \<circ> pw_id) (db_projectMemberships d)),
     (''project_memberships_project_user_unique'',
        \<lambda>d. unique_on (\<lambda>p. Some (pw_projectId p, pw_userId p)) (db_projectMemberships d)),
     (''project_memberships_org_project_fk'',
        \<lambda>d. refers (\<lambda>p. Some (pw_organizationId p, pw_projectId p)) (db_projectMemberships d)
          (org_projects d)),
     (''project_memberships_org_user_fk'',
        \<lambda>d. refers (\<lambda>p. Some (pw_organizationId p, pw_userId p)) (db_projectMemberships d)
          (org_users d))]"

definition objective_constraints :: "(string \<times> ('j db \<Rightarrow> bool)) list" where [donna_constraints]:
  "objective_constraints =
    [(''enum scope of objectives'', \<lambda>d. set (map or_scope (db_objectives d)) \<subseteq> set SCOPES),
     (''enum risk_level'', \<lambda>d. set (map or_riskLevel (db_objectives d)) \<subseteq> set RISK_LEVELS),
     (''objectives_pkey'', \<lambda>d. unique_on (Some \<circ> or_id) (db_objectives d)),
     (''objectives_organization_id_organizations_id_fk'',
        \<lambda>d. refers (Some \<circ> or_organizationId) (db_objectives d) (org_ids d)),
     (''objectives_org_requester_fk'',
        \<lambda>d. refers (\<lambda>r. Some (or_organizationId r, or_requesterId r)) (db_objectives d) (org_users d)),
     (''objectives_org_owner_fk'',
        \<lambda>d. refers (\<lambda>r. Some (or_organizationId r, or_ownerId r)) (db_objectives d) (org_users d)),
     (''objectives_org_project_fk'',
        \<lambda>d. refers (\<lambda>r. map_option (Pair (or_organizationId r)) (or_projectId r)) (db_objectives d)
          (org_projects d))]"

definition task_constraints :: "(string \<times> ('j db \<Rightarrow> bool)) list" where [donna_constraints]:
  "task_constraints =
    [(''tasks_pkey'', \<lambda>d. unique_on (Some \<circ> kr_id) (db_tasks d)),
     (''tasks_organization_id_organizations_id_fk'', \<lambda>d. refers (Some \<circ> kr_organizationId) (db_tasks d) (org_ids d)),
     (''tasks_org_objective_fk'',
        \<lambda>d. refers (\<lambda>r. Some (kr_organizationId r, kr_objectiveId r)) (db_tasks d) (org_objectives d)),
     (''tasks_org_parent_fk'',
        \<lambda>d. refers (\<lambda>r. map_option (Pair (kr_organizationId r)) (kr_parentTaskId r)) (db_tasks d)
          (org_tasks d))]"

definition event_constraints :: "(string \<times> ('j db \<Rightarrow> bool)) list" where [donna_constraints]:
  "event_constraints =
    [(''events_pkey'', \<lambda>d. unique_on (Some \<circ> er_id) (db_events d)),
     (''events_organization_id_organizations_id_fk'', \<lambda>d. refers (Some \<circ> er_organizationId) (db_events d) (org_ids d)),
     (''events_org_objective_fk'',
        \<lambda>d. refers (\<lambda>r. map_option (Pair (er_organizationId r)) (er_objectiveId r)) (db_events d)
          (org_objectives d)),
     (''events_org_task_fk'',
        \<lambda>d. refers (\<lambda>r. map_option (Pair (er_organizationId r)) (er_taskId r)) (db_events d)
          (org_tasks d))]"

definition execution_constraints :: "(string \<times> ('j db \<Rightarrow> bool)) list" where [donna_constraints]:
  "execution_constraints = objective_constraints @ task_constraints @ event_constraints"

definition violated :: "'j db \<Rightarrow> string option" where
  "violated d = map_option fst (find (\<lambda>c. \<not> snd c d) (tenancy_constraints @ execution_constraints))"

definition db_ok :: "'j db \<Rightarrow> bool" where
  "db_ok d = (\<forall>c \<in> set (tenancy_constraints @ execution_constraints). snd c d)"

lemma violated_None [simp]: "violated d = None \<longleftrightarrow> db_ok d"
  by (auto simp: violated_def db_ok_def find_None_conv)

section \<open>Statements and transactions\<close>

text \<open>The exceptions of the application code.\<close>

datatype exn =
    DbError string
  | IllegalTaskTransition task_status task_status
  | InvalidWorkOrder string
  | ClerkPayload string
  | WebhookVerification
  | TokenInvalid string
  | MfaRequired
  | OtherError string

definition statement :: "('j db \<Rightarrow> 'j db) \<Rightarrow> ('j db, exn, unit) act" where
  "statement f d =
     (case violated (f d) of None \<Rightarrow> (Inr (), f d) | Some c \<Rightarrow> (Inl (DbError c), d))"

text \<open>The same over other tables: a statement that a list of named constraints must admit.\<close>

definition statement_under :: "(string \<times> ('s \<Rightarrow> bool)) list \<Rightarrow> ('s \<Rightarrow> 's) \<Rightarrow> ('s, exn, unit) act" where
  "statement_under constraints f s =
     (case find (\<lambda>c. \<not> snd c (f s)) constraints of
        None \<Rightarrow> (Inr (), f s)
      | Some c \<Rightarrow> (Inl (DbError (fst c)), s))"

lemma wp_statement_under:
  "wp (statement_under cs f) Q E s \<longleftrightarrow>
     (if \<forall>c \<in> set cs. snd c (f s) then Q () (f s)
      else (\<forall>c. find (\<lambda>c. \<not> snd c (f s)) cs = Some c \<longrightarrow> E (DbError (fst c)) s))"
proof (cases "find (\<lambda>c. \<not> snd c (f s)) cs")
  case None
  then have "\<forall>c \<in> set cs. snd c (f s)" by (auto simp: find_None_conv)
  with None show ?thesis by (simp add: wp_def statement_under_def)
next
  case (Some c)
  then have "\<not> (\<forall>c \<in> set cs. snd c (f s))" by (auto dest: find_SomeD)
  then show ?thesis unfolding if_not_P [OF \<open>\<not> _\<close>] by (simp add: wp_def statement_under_def Some)
qed

definition transaction :: "('s, 'e, 'a) act \<Rightarrow> ('s, 'e, 'a) act" where
  "transaction m d = (case m d of (Inl e, _) \<Rightarrow> (Inl e, d) | (Inr a, d') \<Rightarrow> (Inr a, d'))"

lemma wp_statement [simp]:
  "wp (statement f) Q E d = (if db_ok (f d) then Q () (f d) else E (DbError (the (violated (f d)))) d)"
  using violated_None [of "f d"]
  by (auto simp: wp_def statement_def split: option.split simp del: violated_None)

lemma wp_transaction [simp]: "wp (transaction m) Q E d = wp m Q (\<lambda>e _. E e d) d"
  by (simp add: wp_def transaction_def split: prod.split sum.split)

lemma keeps_statement: "keeps db_ok (statement f)"
  by (auto simp: keeps_wp)

lemma keeps_transaction: "keeps I m \<Longrightarrow> keeps I (transaction m)"
  by (auto simp: keeps_wp [of I "transaction m"] intro: keeps_mono)

definition insert_events :: "event_row list \<Rightarrow> ('j db, exn, unit) act" where
  "insert_events rows = statement (\<lambda>d. d\<lparr>db_events := db_events d @ rows\<rparr>)"

definition insert_task :: "task_row \<Rightarrow> ('j db, exn, unit) act" where
  "insert_task row = statement (\<lambda>d. d\<lparr>db_tasks := db_tasks d @ [row]\<rparr>)"

definition insert_objective :: "objective_row \<Rightarrow> ('j db, exn, unit) act" where
  "insert_objective row = statement (\<lambda>d. d\<lparr>db_objectives := db_objectives d @ [row]\<rparr>)"

text \<open>
  \<open>graphile_worker.add_job(identifier, payload, job_key)\<close> is code of the queue: a function from the
  queue to the job's id and the queue afterwards.
\<close>

type_synonym 'j add_job = "string \<Rightarrow> js \<Rightarrow> string \<Rightarrow> 'j \<Rightarrow> string \<times> 'j"

definition enqueue_job :: "'j add_job \<Rightarrow> string \<Rightarrow> js \<Rightarrow> string \<Rightarrow> ('j db, exn, string) act" where
  "enqueue_job add_job identifier payload key d =
     (case add_job identifier payload key (db_queue d) of (i, q) \<Rightarrow> (Inr i, d\<lparr>db_queue := q\<rparr>))"

lemma db_ok_queue [simp]: "db_ok (d\<lparr>db_queue := q\<rparr>) = db_ok d"
  by (simp add: db_ok_def tenancy_constraints_def donna_constraints org_ids_def org_users_def
      org_teams_def org_projects_def org_objectives_def org_tasks_def)

text \<open>
  The index of \<open>(organization_id, idempotency_key)\<close> on tasks is a plain one, so no constraint keeps a second
  task of the organization with the same idempotency key out.
\<close>

lemma refers_more: "refers key rows ks \<Longrightarrow> refers key rows (ks @ ls)"
  by (auto simp: refers_def)

lemma refers_again:
  "refers key rows ks \<Longrightarrow> r \<in> set rows \<Longrightarrow> key r' = key r \<Longrightarrow> refers key (rows @ [r']) ks"
  by (auto simp: refers_def set_map_filter_Some)

lemma unique_on_append_fresh:
  "unique_on (Some \<circ> f) rows \<Longrightarrow> f r \<notin> set (map f rows) \<Longrightarrow> unique_on (Some \<circ> f) (rows @ [r])"
  by (induction rows) (auto simp: unique_on_def map_filter_simps comp_def set_map_filter_Some)

lemma idempotency_key_not_unique:
  assumes "db_ok d" and "t \<in> set (db_tasks d)" and "i \<notin> set (map kr_id (db_tasks d))"
  shows "db_ok (d\<lparr>db_tasks := db_tasks d @ [t\<lparr>kr_id := i\<rparr>]\<rparr>)"
proof -
  have "org_tasks (d\<lparr>db_tasks := db_tasks d @ [t\<lparr>kr_id := i\<rparr>]\<rparr>) = org_tasks d @ [(kr_organizationId t, i)]"
    by (simp add: org_tasks_def)
  with assms show ?thesis
    by (simp add: db_ok_def tenancy_constraints_def donna_constraints org_ids_def org_users_def org_teams_def
        org_projects_def org_objectives_def refers_more refers_again unique_on_append_fresh)
qed

lemma wp_enqueue_job [simp]:
  "wp (enqueue_job add_job i p k) Q E d =
     Q (fst (add_job i p k (db_queue d))) (d\<lparr>db_queue := snd (add_job i p k (db_queue d))\<rparr>)"
  by (simp add: wp_def enqueue_job_def case_prod_beta)

lemmas wp_inserts [simp] =
  wp_statement [of "\<lambda>d. d\<lparr>db_events := db_events d @ rows\<rparr>" for rows, folded insert_events_def]
  wp_statement [of "\<lambda>d. d\<lparr>db_tasks := db_tasks d @ [row]\<rparr>" for row, folded insert_task_def]
  wp_statement [of "\<lambda>d. d\<lparr>db_objectives := db_objectives d @ [row]\<rparr>" for row, folded insert_objective_def]

end
