(* ===== verification/Work_Order_Payload.thy ===== *)
theory Work_Order_Payload
  imports Orchestrator Database
begin

text \<open>
  The worker's trust boundary (\<open>apps/worker/src/work-order-payload.ts\<close>): reading a job payload as a work
  order, with every refusal and its message, and the payload a work order is enqueued as again. The
  theory shows what is accepted, and that an accepted order survives being enqueued and read again.
\<close>

section \<open>Parsing\<close>

type_synonym js_record = "(string \<times> js) list"

fun as_record :: "js \<Rightarrow> js_record option" where
  "as_record (JObj kvs) = Some kvs"
| "as_record _ = None"

definition quoted :: "string \<Rightarrow> string" where
  "quoted key = ''\"'' @ key @ ''\"''"

definition refuse :: "string \<Rightarrow> exn + 'a" where
  "refuse message = Inl (InvalidWorkOrder (''Invalid work-order payload: '' @ message))"

definition requireString :: "js_record \<Rightarrow> string \<Rightarrow> exn + string" where
  "requireString r key =
     (case js_get r key of
        JStr s \<Rightarrow> if s = [] then refuse (quoted key @ '' must be a non-empty string'') else Inr s
      | _ \<Rightarrow> refuse (quoted key @ '' must be a non-empty string''))"

definition optionalString :: "js_record \<Rightarrow> string \<Rightarrow> exn + string option" where
  "optionalString r key =
     (case js_get r key of
        JUndefined \<Rightarrow> Inr None
      | JStr s \<Rightarrow> Inr (Some s)
      | _ \<Rightarrow> refuse (quoted key @ '' must be a string''))"

definition optionalBoolean :: "js_record \<Rightarrow> string \<Rightarrow> exn + bool option" where
  "optionalBoolean r key =
     (case js_get r key of
        JUndefined \<Rightarrow> Inr None
      | JBool b \<Rightarrow> Inr (Some b)
      | _ \<Rightarrow> refuse (quoted key @ '' must be a boolean''))"

definition optionalNumber :: "js_record \<Rightarrow> string \<Rightarrow> exn + number option" where
  "optionalNumber r key =
     (case js_get r key of
        JUndefined \<Rightarrow> Inr None
      | JNum (Finite n) \<Rightarrow> Inr (Some n)
      | _ \<Rightarrow> refuse (quoted key @ '' must be a finite number''))"

fun as_strings :: "js list \<Rightarrow> string list option" where
  "as_strings [] = Some []"
| "as_strings (JStr s # vs) = map_option (Cons s) (as_strings vs)"
| "as_strings (_ # vs) = None"

definition stringArray :: "js_record \<Rightarrow> string \<Rightarrow> exn + string list" where
  "stringArray r key =
     (case js_get r key of
        JUndefined \<Rightarrow> Inr []
      | JArr vs \<Rightarrow>
          (case as_strings vs of
             Some ss \<Rightarrow> Inr ss
           | None \<Rightarrow> refuse (quoted key @ '' must be an array of strings''))
      | _ \<Rightarrow> refuse (quoted key @ '' must be an array of strings''))"

definition parse_message :: "nat \<Rightarrow> js \<Rightarrow> exn + model_message" where
  "parse_message i v =
     (let bad = refuse (''\"modelRequest.messages['' @ nat_text i @ '']\" must have role and content'')
      in case v of
           JObj m \<Rightarrow>
             (case (js_get m ''role'', js_get m ''content'') of
                (JStr role, JStr content) \<Rightarrow> Inr \<lparr>mm_role = role, mm_content = content\<rparr>
              | _ \<Rightarrow> bad)
         | _ \<Rightarrow> bad)"

fun parse_messages :: "nat \<Rightarrow> js list \<Rightarrow> exn + model_message list" where
  "parse_messages i [] = Inr []"
| "parse_messages i (v # vs) =
     and_then (parse_message i v) (\<lambda>m. and_then (parse_messages (i + 1) vs) (\<lambda>ms. Inr (m # ms)))"

definition parseModelRequest :: "js \<Rightarrow> exn + model_request" where
  "parseModelRequest v =
     (case as_record v of
        None \<Rightarrow> refuse ''\"modelRequest\" must be an object''
      | Some r \<Rightarrow>
          (case js_get r ''messages'' of
             JArr (m # ms) \<Rightarrow>
               and_then (parse_messages 0 (m # ms)) (\<lambda>parsed.
               and_then (optionalNumber r ''maxOutputTokens'') (\<lambda>maxOutputTokens.
               and_then (optionalNumber r ''reasoningTier'') (\<lambda>reasoningTier.
               Inr \<lparr>mq_messages = parsed, mq_maxOutputTokens = maxOutputTokens,
                    mq_reasoningTier = reasoningTier\<rparr>)))
           | _ \<Rightarrow> refuse ''\"modelRequest.messages\" must be a non-empty array''))"

text \<open>A gate that is present must be an object, and is passed on as it is.\<close>

definition gate_field :: "js_record \<Rightarrow> string \<Rightarrow> exn + js option" where
  "gate_field r key =
     (case js_get r key of
        JUndefined \<Rightarrow> Inr None
      | JObj kvs \<Rightarrow> Inr (Some (JObj kvs))
      | _ \<Rightarrow> refuse (quoted key @ '' must be an object''))"

type_synonym parsed_order = "(js, js) work_order"

definition parseWorkOrder :: "js \<Rightarrow> exn + parsed_order" where
  "parseWorkOrder payload =
     (case as_record payload of
        None \<Rightarrow> refuse ''payload must be an object''
      | Some r \<Rightarrow>
          and_then (requireString r ''organizationId'') (\<lambda>organizationId.
          and_then (stringArray r ''requiredCapabilities'') (\<lambda>requiredCapabilities.
          and_then (optionalString r ''taskId'') (\<lambda>taskId.
          and_then (optionalString r ''correlationId'') (\<lambda>correlationId.
          and_then (optionalBoolean r ''prefersHuman'') (\<lambda>prefersHuman.
          and_then (optionalBoolean r ''needsReasoning'') (\<lambda>needsReasoning.
          and_then (optionalNumber r ''reasoningTier'') (\<lambda>reasoningTier.
          and_then (optionalBoolean r ''needsTools'') (\<lambda>needsTools.
          and_then (optionalBoolean r ''needsVision'') (\<lambda>needsVision.
          and_then (optionalBoolean r ''requireLocal'') (\<lambda>requireLocal.
          and_then (optionalNumber r ''minContextTokens'') (\<lambda>minContextTokens.
          and_then
            (case js_get r ''modelRequest'' of
               JUndefined \<Rightarrow> Inr None
             | v \<Rightarrow> and_then (parseModelRequest v) (\<lambda>q. Inr (Some q))) (\<lambda>modelRequest.
          and_then (gate_field r ''policy'') (\<lambda>policy.
          and_then (gate_field r ''budget'') (\<lambda>budget.
          Inr \<lparr>wo_organizationId = organizationId, wo_taskId = taskId,
               wo_correlationId = correlationId, wo_actor = None,
               wo_requiredCapabilities = requiredCapabilities, wo_prefersHuman = prefersHuman,
               wo_needsReasoning = needsReasoning, wo_reasoningTier = reasoningTier,
               wo_needsTools = needsTools, wo_needsVision = needsVision,
               wo_requireLocal = requireLocal, wo_minContextTokens = minContextTokens,
               wo_modelRequest = modelRequest, wo_capabilityInput = JUndefined,
               wo_policy = policy, wo_budget = budget\<rparr>)))))))))))))))"

section \<open>The payload of an order\<close>

text \<open>\<open>JSON.parse(JSON.stringify(v))\<close>: what is left of a value in a JSON column.\<close>

fun json_copy :: "js \<Rightarrow> js" where
  "json_copy (JNum (Finite n)) = JNum (Finite n)"
| "json_copy (JNum _) = JNull"
| "json_copy (JArr vs) =
     JArr (map (\<lambda>v. let c = json_copy v in if c = JUndefined then JNull else c) vs)"
| "json_copy (JObj kvs) =
     JObj (filter (\<lambda>kv. snd kv \<noteq> JUndefined) (map (\<lambda>kv. (fst kv, json_copy (snd kv))) kvs))"
| "json_copy v = v"

text \<open>
  A field of an object literal that is spread in only when it is defined. In the text an absent field and
  an undefined one are the same, so the model writes it as undefined.
\<close>

definition opt :: "('a \<Rightarrow> js) \<Rightarrow> 'a option \<Rightarrow> js" where
  "opt f x = (case x of None \<Rightarrow> JUndefined | Some a \<Rightarrow> f a)"

definition message_object :: "model_message \<Rightarrow> js" where
  "message_object m = JObj [(''role'', JStr (mm_role m)), (''content'', JStr (mm_content m))]"

definition number_value :: "number \<Rightarrow> js" where
  "number_value n = JNum (Finite n)"

definition model_request_object :: "model_request \<Rightarrow> js" where
  "model_request_object q =
     JObj [(''messages'', JArr (map message_object (mq_messages q))),
           (''maxOutputTokens'', opt number_value (mq_maxOutputTokens q)),
           (''reasoningTier'', opt number_value (mq_reasoningTier q))]"

definition actor_object :: "actor \<Rightarrow> js" where
  "actor_object a =
     JObj [(''type'', JStr (actor_type_text (actor_kind a))), (''id'', JStr (actor_id a))]"

definition order_fields :: "parsed_order \<Rightarrow> js_record" where
  "order_fields w =
     [(''organizationId'', JStr (wo_organizationId w)),
      (''requiredCapabilities'', JArr (map JStr (wo_requiredCapabilities w))),
      (''taskId'', opt JStr (wo_taskId w)),
      (''correlationId'', opt JStr (wo_correlationId w)),
      (''actor'', opt actor_object (wo_actor w)),
      (''prefersHuman'', opt JBool (wo_prefersHuman w)),
      (''needsReasoning'', opt JBool (wo_needsReasoning w)),
      (''reasoningTier'', opt number_value (wo_reasoningTier w)),
      (''needsTools'', opt JBool (wo_needsTools w)),
      (''needsVision'', opt JBool (wo_needsVision w)),
      (''requireLocal'', opt JBool (wo_requireLocal w)),
      (''minContextTokens'', opt number_value (wo_minContextTokens w)),
      (''modelRequest'', opt model_request_object (wo_modelRequest w)),
      (''capabilityInput'', wo_capabilityInput w),
      (''policy'', opt (\<lambda>v. v) (wo_policy w)),
      (''budget'', opt (\<lambda>v. v) (wo_budget w))]"

definition order_payload :: "parsed_order \<Rightarrow> js" where
  "order_payload w = json_copy (JObj (order_fields w))"

section \<open>Reading back the fields of a payload\<close>

definition copy_fields :: "js_record \<Rightarrow> js_record" where
  "copy_fields kvs = filter (\<lambda>kv. snd kv \<noteq> JUndefined) (map (\<lambda>kv. (fst kv, json_copy (snd kv))) kvs)"

lemma json_copy_obj: "json_copy (JObj kvs) = JObj (copy_fields kvs)"
  by (simp add: copy_fields_def)

lemma js_get_copy_fields: "distinct (map fst kvs) \<Longrightarrow> js_get (copy_fields kvs) k = json_copy (js_get kvs k)"
proof (induction kvs)
  case Nil
  then show ?case by (simp add: copy_fields_def)
next
  case (Cons kv kvs)
  have tail: "js_get kvs (fst kv) = JUndefined"
    using Cons.prems by (intro js_get_notin) auto
  obtain k' v where "kv = (k', v)" by (cases kv)
  with Cons tail show ?case
    by (auto simp: copy_fields_def simp del: json_copy.simps(4,5))
qed

lemma json_copy_opt:
  "json_copy (opt f x) = opt (\<lambda>a. json_copy (f a)) x"
  by (cases x) (simp_all add: opt_def)

lemma json_copy_number [simp]: "json_copy (number_value n) = number_value n"
  by (simp add: number_value_def)

lemma optional_lookups:
  "js_get r k = opt JStr xs \<Longrightarrow> optionalString r k = Inr xs"
  "js_get r k = opt JBool xb \<Longrightarrow> optionalBoolean r k = Inr xb"
  "js_get r k = opt number_value xn \<Longrightarrow> optionalNumber r k = Inr xn"
  by (auto simp: optionalString_def optionalBoolean_def optionalNumber_def opt_def number_value_def
      split: option.split)

lemma as_strings_map [simp]: "as_strings (map JStr ss) = Some ss"
  by (induction ss) simp_all

lemma parse_message_object [simp]: "parse_message i (message_object m) = Inr m"
  by (simp add: parse_message_def message_object_def)

lemma parse_messages_objects [simp]: "parse_messages i (map message_object ms) = Inr ms"
  by (induction ms arbitrary: i) simp_all

lemma json_copy_message [simp]: "json_copy (message_object m) = message_object m"
  by (simp add: message_object_def)

lemma message_object_defined [simp]: "message_object m \<noteq> JUndefined"
  by (simp add: message_object_def)

lemma json_copy_texts [simp]:
  "json_copy (JArr (map JStr ss)) = JArr (map JStr ss)"
  "json_copy (JArr (map message_object ms)) = JArr (map message_object ms)"
  by (simp_all add: comp_def Let_def)

lemma parseModelRequest_object:
  assumes "mq_messages q \<noteq> []"
  shows "parseModelRequest (json_copy (model_request_object q)) = Inr q"
proof -
  let ?kvs = "[(''messages'', JArr (map message_object (mq_messages q))),
           (''maxOutputTokens'', opt number_value (mq_maxOutputTokens q)),
           (''reasoningTier'', opt number_value (mq_reasoningTier q))]"
  obtain m ms where ms: "mq_messages q = m # ms"
    using assms by (cases "mq_messages q") auto
  have get: "js_get (copy_fields ?kvs) k = json_copy (js_get ?kvs k)" for k
    by (rule js_get_copy_fields) simp
  have "js_get (copy_fields ?kvs) ''messages'' = JArr (message_object m # map message_object ms)"
    unfolding get by (simp add: ms Let_def comp_def)
  moreover have "optionalNumber (copy_fields ?kvs) ''maxOutputTokens'' = Inr (mq_maxOutputTokens q)"
    "optionalNumber (copy_fields ?kvs) ''reasoningTier'' = Inr (mq_reasoningTier q)"
    by (intro optional_lookups(3), unfold get, simp add: json_copy_opt)+
  moreover have "parse_messages 0 (message_object m # map message_object ms) = Inr (m # ms)"
    by simp
  ultimately show ?thesis
    using ms unfolding model_request_object_def json_copy_obj parseModelRequest_def
    by (simp del: parse_messages.simps)
qed

text \<open>Orders that the worker can enqueue again: the gates are JSON objects, the request is not empty.\<close>

definition json_gate :: "js option \<Rightarrow> bool" where
  "json_gate x = (\<forall>v. x = Some v \<longrightarrow> (\<exists>kvs. v = JObj kvs) \<and> json_copy v = v)"

definition enqueueable :: "parsed_order \<Rightarrow> bool" where
  "enqueueable w \<longleftrightarrow>
     wo_organizationId w \<noteq> [] \<and> json_gate (wo_policy w) \<and> json_gate (wo_budget w)
     \<and> (\<forall>q. wo_modelRequest w = Some q \<longrightarrow> mq_messages q \<noteq> [])"

lemma gate_lookup:
  assumes "json_gate x" and "js_get r k = json_copy (opt (\<lambda>v. v) x)"
  shows "gate_field r k = Inr x"
proof (cases x)
  case (Some v)
  with assms show ?thesis by (auto simp: json_gate_def gate_field_def opt_def)
qed (use assms in \<open>simp add: gate_field_def opt_def\<close>)

lemma request_lookup:
  assumes "js_get r k = json_copy (opt model_request_object x)"
    and "\<And>q. x = Some q \<Longrightarrow> mq_messages q \<noteq> []"
  shows "(case js_get r k of JUndefined \<Rightarrow> Inr None
            | v \<Rightarrow> and_then (parseModelRequest v) (\<lambda>q. Inr (Some q))) = Inr x"
proof (cases x)
  case None
  with assms(1) show ?thesis by (simp add: opt_def)
next
  case (Some q)
  with assms parseModelRequest_object [of q] show ?thesis
    by (simp add: opt_def model_request_object_def json_copy_obj)
qed

lemma order_fields_distinct: "distinct (map fst (order_fields w))"
  by (simp add: order_fields_def)

section \<open>Properties\<close>

text \<open>
  C21: An order the worker holds survives being enqueued again: parsing the payload that \<open>JSON.stringify\<close>
  writes for it gives the same order back, except for the two fields the parser does not read, the
  acting actor and the capability input, which are lost.
\<close>

theorem order_payload_roundtrip:
  assumes "enqueueable w"
  shows "parseWorkOrder (order_payload w) = Inr (w\<lparr>wo_actor := None, wo_capabilityInput := JUndefined\<rparr>)"
proof -
  let ?r = "copy_fields (order_fields w)"
  have get: "js_get ?r k = json_copy (js_get (order_fields w) k)" for k
    by (rule js_get_copy_fields [OF order_fields_distinct])
  have fields:
    "requireString ?r ''organizationId'' = Inr (wo_organizationId w)"
    "stringArray ?r ''requiredCapabilities'' = Inr (wo_requiredCapabilities w)"
    using assms unfolding requireString_def stringArray_def get
    by (simp_all add: order_fields_def enqueueable_def del: json_copy.simps(4))
  have strings: "optionalString ?r ''taskId'' = Inr (wo_taskId w)"
    "optionalString ?r ''correlationId'' = Inr (wo_correlationId w)"
    by (intro optional_lookups(1), unfold get, simp add: order_fields_def json_copy_opt)+
  have booleans: "optionalBoolean ?r ''prefersHuman'' = Inr (wo_prefersHuman w)"
    "optionalBoolean ?r ''needsReasoning'' = Inr (wo_needsReasoning w)"
    "optionalBoolean ?r ''needsTools'' = Inr (wo_needsTools w)"
    "optionalBoolean ?r ''needsVision'' = Inr (wo_needsVision w)"
    "optionalBoolean ?r ''requireLocal'' = Inr (wo_requireLocal w)"
    by (intro optional_lookups(2), unfold get, simp add: order_fields_def json_copy_opt)+
  have numbers: "optionalNumber ?r ''reasoningTier'' = Inr (wo_reasoningTier w)"
    "optionalNumber ?r ''minContextTokens'' = Inr (wo_minContextTokens w)"
    by (intro optional_lookups(3), unfold get, simp add: order_fields_def json_copy_opt)+
  have gates: "gate_field ?r ''policy'' = Inr (wo_policy w)" "gate_field ?r ''budget'' = Inr (wo_budget w)"
    using assms by (intro gate_lookup, simp add: enqueueable_def, unfold get, simp add: order_fields_def)+
  have request: "(case js_get ?r ''modelRequest'' of JUndefined \<Rightarrow> Inr None
      | v \<Rightarrow> and_then (parseModelRequest v) (\<lambda>q. Inr (Some q))) = Inr (wo_modelRequest w)"
    using assms by (intro request_lookup, unfold get) (simp_all add: order_fields_def enqueueable_def)
  show ?thesis
    unfolding parseWorkOrder_def order_payload_def json_copy_obj as_record.simps option.case
      fields strings booleans numbers gates and_then_simps
    by (simp only: request and_then_simps) simp
qed

definition sample_payload_order :: parsed_order where
  "sample_payload_order =
     \<lparr>wo_organizationId = ''org'', wo_taskId = Some ''task'', wo_correlationId = None,
      wo_actor = Some \<lparr>actor_kind = ActorHuman, actor_id = ''user''\<rparr>, wo_requiredCapabilities = [''crm.read''],
      wo_prefersHuman = None, wo_needsReasoning = Some True, wo_reasoningTier = Some 3,
      wo_needsTools = None, wo_needsVision = None, wo_requireLocal = None, wo_minContextTokens = None,
      wo_modelRequest = Some \<lparr>mq_messages = [\<lparr>mm_role = ''user'', mm_content = ''hello''\<rparr>],
        mq_maxOutputTokens = Some 100, mq_reasoningTier = None\<rparr>,
      wo_capabilityInput = JStr ''input'', wo_policy = None,
      wo_budget = Some (JObj [(''limit'', JNum (Finite 5))])\<rparr>"

theorem order_payload_roundtrip_witness:
  "parseWorkOrder (order_payload sample_payload_order) =
     Inr (sample_payload_order\<lparr>wo_actor := None, wo_capabilityInput := JUndefined\<rparr>)"
  by (rule order_payload_roundtrip)
    (simp add: enqueueable_def json_gate_def sample_payload_order_def)

section \<open>What is accepted\<close>

definition finite_number :: "js \<Rightarrow> bool" where
  "finite_number v = (\<exists>n. v = number_value n)"

definition message_shape :: "js \<Rightarrow> bool" where
  "message_shape v = (\<exists>m role content. v = JObj m \<and> js_get m ''role'' = JStr role
     \<and> js_get m ''content'' = JStr content)"

definition request_shape :: "js \<Rightarrow> bool" where
  "request_shape v =
     (\<exists>r vs. v = JObj r \<and> js_get r ''messages'' = JArr vs \<and> vs \<noteq> [] \<and> list_all message_shape vs
       \<and> (\<forall>k \<in> {''maxOutputTokens'', ''reasoningTier''}. js_get r k = JUndefined \<or> finite_number (js_get r k)))"

definition order_shape :: "js_record \<Rightarrow> bool" where
  "order_shape r \<longleftrightarrow>
     (\<exists>s. js_get r ''organizationId'' = JStr s \<and> s \<noteq> [])
     \<and> (js_get r ''requiredCapabilities'' = JUndefined
        \<or> (\<exists>ss. js_get r ''requiredCapabilities'' = JArr (map JStr ss)))
     \<and> (\<forall>k \<in> {''taskId'', ''correlationId''}. js_get r k = JUndefined \<or> (\<exists>s. js_get r k = JStr s))
     \<and> (\<forall>k \<in> {''prefersHuman'', ''needsReasoning'', ''needsTools'', ''needsVision'', ''requireLocal''}.
          js_get r k = JUndefined \<or> (\<exists>b. js_get r k = JBool b))
     \<and> (\<forall>k \<in> {''reasoningTier'', ''minContextTokens''}.
          js_get r k = JUndefined \<or> finite_number (js_get r k))
     \<and> (js_get r ''modelRequest'' = JUndefined \<or> request_shape (js_get r ''modelRequest''))
     \<and> (\<forall>k \<in> {''policy'', ''budget''}. js_get r k = JUndefined \<or> (\<exists>kvs. js_get r k = JObj kvs))"

lemma optional_accepts:
  "(\<exists>x. optionalString r k = Inr x) \<longleftrightarrow> js_get r k = JUndefined \<or> (\<exists>s. js_get r k = JStr s)"
  "(\<exists>x. optionalBoolean r k = Inr x) \<longleftrightarrow> js_get r k = JUndefined \<or> (\<exists>b. js_get r k = JBool b)"
  "(\<exists>x. gate_field r k = Inr x) \<longleftrightarrow> js_get r k = JUndefined \<or> (\<exists>kvs. js_get r k = JObj kvs)"
  "(\<exists>x. requireString r k = Inr x) \<longleftrightarrow> (\<exists>s. js_get r k = JStr s \<and> s \<noteq> [])"
  by (cases "js_get r k"; simp add: optionalString_def optionalBoolean_def gate_field_def
      requireString_def refuse_def)+

lemma number_accepts:
  "(\<exists>x. optionalNumber r k = Inr x) \<longleftrightarrow> js_get r k = JUndefined \<or> finite_number (js_get r k)"
  by (cases "js_get r k")
    (auto simp: optionalNumber_def finite_number_def number_value_def refuse_def split: jsnum.splits)

lemma as_strings_iff: "as_strings vs = Some ss \<longleftrightarrow> vs = map JStr ss"
  by (induction vs arbitrary: ss rule: as_strings.induct) auto

lemma strings_accepts:
  "(\<exists>x. stringArray r k = Inr x) \<longleftrightarrow> js_get r k = JUndefined \<or> (\<exists>ss. js_get r k = JArr (map JStr ss))"
  by (cases "js_get r k") (auto simp: stringArray_def refuse_def as_strings_iff split: option.splits)

lemma message_accepts: "(\<exists>m. parse_message i v = Inr m) \<longleftrightarrow> message_shape v"
  by (cases v) (auto simp: parse_message_def message_shape_def refuse_def Let_def split: jsval.splits)

lemma messages_accepts: "(\<exists>ms. parse_messages i vs = Inr ms) \<longleftrightarrow> list_all message_shape vs"
proof (induction vs arbitrary: i)
  case Nil
  then show ?case by simp
next
  case (Cons v vs)
  have "(\<exists>ms. parse_messages i (v # vs) = Inr ms) \<longleftrightarrow>
      (\<exists>m. parse_message i v = Inr m) \<and> (\<exists>ms. parse_messages (i + 1) vs = Inr ms)"
    by (auto simp: and_then_Inr_iff)
  then show ?case by (simp add: Cons.IH message_accepts)
qed

lemma request_accepts: "(\<exists>q. parseModelRequest v = Inr q) \<longleftrightarrow> request_shape v"
proof (cases "\<exists>r m ms. v = JObj r \<and> js_get r ''messages'' = JArr (m # ms)")
  case True
  then obtain r m ms where v: "v = JObj r" "js_get r ''messages'' = JArr (m # ms)" by blast
  have "(\<exists>q. parseModelRequest v = Inr q) \<longleftrightarrow>
      (\<exists>x. parse_messages 0 (m # ms) = Inr x) \<and> (\<exists>x. optionalNumber r ''maxOutputTokens'' = Inr x)
      \<and> (\<exists>x. optionalNumber r ''reasoningTier'' = Inr x)"
    using v by (auto simp: parseModelRequest_def and_then_Inr_iff simp del: parse_messages.simps)
  then show ?thesis
    using v by (simp add: messages_accepts number_accepts request_shape_def del: parse_messages.simps)
next
  case False
  then have "\<not> (\<exists>q. parseModelRequest v = Inr q)"
    by (auto simp: parseModelRequest_def refuse_def simp del: parse_messages.simps
        split: option.splits jsval.splits list.splits elim!: as_record.elims)
  moreover from False have "\<not> request_shape v"
    by (auto simp: request_shape_def neq_Nil_conv)
  ultimately show ?thesis by blast
qed

lemma request_field_accepts:
  "(\<exists>x. (case v of JUndefined \<Rightarrow> Inr None | w \<Rightarrow> and_then (parseModelRequest w) (\<lambda>q. Inr (Some q))) = Inr x)
     \<longleftrightarrow> v = JUndefined \<or> request_shape v"
  by (cases v) (auto simp: and_then_Inr_iff simp flip: request_accepts)

lemma and_then_accepts:
  assumes "\<And>a. (\<exists>b. k a = Inr b) \<longleftrightarrow> P"
  shows "(\<exists>b. and_then r k = Inr b) \<longleftrightarrow> (\<exists>a. r = Inr a) \<and> P"
  using assms by (cases r) auto

lemma parseWorkOrder_fields:
  "(\<exists>w. parseWorkOrder (JObj r) = Inr w) \<longleftrightarrow> order_shape r"
proof -
  have "(\<exists>w. parseWorkOrder (JObj r) = Inr w) \<longleftrightarrow>
      (\<exists>x. requireString r ''organizationId'' = Inr x)
      \<and> (\<exists>x. stringArray r ''requiredCapabilities'' = Inr x)
      \<and> (\<exists>x. optionalString r ''taskId'' = Inr x)
      \<and> (\<exists>x. optionalString r ''correlationId'' = Inr x)
      \<and> (\<exists>x. optionalBoolean r ''prefersHuman'' = Inr x)
      \<and> (\<exists>x. optionalBoolean r ''needsReasoning'' = Inr x)
      \<and> (\<exists>x. optionalNumber r ''reasoningTier'' = Inr x)
      \<and> (\<exists>x. optionalBoolean r ''needsTools'' = Inr x)
      \<and> (\<exists>x. optionalBoolean r ''needsVision'' = Inr x)
      \<and> (\<exists>x. optionalBoolean r ''requireLocal'' = Inr x)
      \<and> (\<exists>x. optionalNumber r ''minContextTokens'' = Inr x)
      \<and> (\<exists>x. (case js_get r ''modelRequest'' of JUndefined \<Rightarrow> Inr None
            | v \<Rightarrow> and_then (parseModelRequest v) (\<lambda>q. Inr (Some q))) = Inr x)
      \<and> (\<exists>x. gate_field r ''policy'' = Inr x) \<and> (\<exists>x. gate_field r ''budget'' = Inr x)"
    unfolding parseWorkOrder_def as_record.simps option.case
    by (rule and_then_accepts)+ (simp add: and_then_Inr_iff)
  then show ?thesis
    unfolding request_field_accepts optional_accepts number_accepts strings_accepts order_shape_def
    by (simp add: conj_commute conj_left_commute)
qed

text \<open>A parser that refuses with the worker's own error only.\<close>

definition refuses_well :: "exn + 'a \<Rightarrow> bool" where
  "refuses_well r = (\<forall>e. r = Inl e \<longrightarrow> (\<exists>m. e = InvalidWorkOrder m))"

lemma refuses_well_simps [simp]: "refuses_well (Inr a)" "refuses_well (refuse m)"
  by (simp_all add: refuses_well_def refuse_def)

lemma refuses_well_and_then:
  "refuses_well r \<Longrightarrow> (\<And>a. refuses_well (k a)) \<Longrightarrow> refuses_well (and_then r k)"
  by (cases r) (auto simp: refuses_well_def)

lemma refuses_well_fields [simp]:
  "refuses_well (requireString r k)" "refuses_well (optionalString r k)" "refuses_well (optionalBoolean r k)"
  "refuses_well (optionalNumber r k)" "refuses_well (stringArray r k)" "refuses_well (gate_field r k)"
  by (cases "js_get r k"; simp add: requireString_def optionalString_def optionalBoolean_def
      optionalNumber_def stringArray_def gate_field_def split: jsnum.split option.split)+

lemma refuses_well_messages [simp]: "refuses_well (parse_messages i vs)"
proof (induction vs arbitrary: i)
  case (Cons v vs)
  have "refuses_well (parse_message i v)"
    by (cases v) (simp_all add: parse_message_def Let_def split: jsval.split)
  with Cons show ?case by (auto intro!: refuses_well_and_then)
qed simp

lemma refuses_well_request [simp]: "refuses_well (parseModelRequest v)"
  by (cases v) (auto simp: parseModelRequest_def simp del: parse_messages.simps
      intro!: refuses_well_and_then split: option.split jsval.split list.split)

lemma refuses_well_order: "refuses_well (parseWorkOrder payload)"
proof (cases payload)
  case (JObj r)
  show ?thesis
    unfolding JObj parseWorkOrder_def as_record.simps option.case
    by (intro refuses_well_and_then refuses_well_fields refuses_well_simps)
      (auto intro!: refuses_well_and_then split: jsval.split)
qed (simp_all add: parseWorkOrder_def)

text \<open>
  The worker accepts a payload exactly when it is an object whose organisation is a non-empty text and
  whose other fields, where present, have the type of the work order (numbers finite, capabilities an
  array of texts, gates objects, a model request with at least one message of role and content).
  Anything else is refused with the worker's own error, never another one.
\<close>

theorem parseWorkOrder_accepts:
  "((\<exists>w. parseWorkOrder payload = Inr w) \<longleftrightarrow> (\<exists>r. payload = JObj r \<and> order_shape r))
   \<and> (\<forall>e. parseWorkOrder payload = Inl e \<longrightarrow> (\<exists>m. e = InvalidWorkOrder m))"
proof
  show "(\<exists>w. parseWorkOrder payload = Inr w) \<longleftrightarrow> (\<exists>r. payload = JObj r \<and> order_shape r)"
    by (cases payload) (simp_all add: parseWorkOrder_fields, simp_all add: parseWorkOrder_def refuse_def)
  show "\<forall>e. parseWorkOrder payload = Inl e \<longrightarrow> (\<exists>m. e = InvalidWorkOrder m)"
    using refuses_well_order [of payload] by (simp only: refuses_well_def)
qed

theorem parseWorkOrder_accepts_witness:
  "\<exists>m. (InvalidWorkOrder ''Invalid work-order payload: payload must be an object'' :: exn) = InvalidWorkOrder m"
  using parseWorkOrder_accepts [of "JBool True"] by (simp add: parseWorkOrder_def refuse_def)

end
