(* ===== verification/Row_Mappers.thy ===== *)
theory Row_Mappers
  imports Work_Order_Payload Task_Machine
begin

text \<open>
  The control plane's mappers between domain objects and rows, and the work order of a created task
  (\<open>apps/control-plane/src/db/mappers.ts\<close>). Routing hints come from a request body whose fields are not
  checked, so a hint is a JavaScript value, undefined when the body does not have it.
\<close>

section \<open>Objectives and tasks\<close>

definition objectiveToRow :: "objective \<Rightarrow> ident \<Rightarrow> objective_row" where
  "objectiveToRow obj organizationId =
     \<lparr>or_id = ob_id obj, or_organizationId = organizationId, or_scope = ob_scope obj,
      or_scopeRef = ob_teamId obj, or_requesterId = ob_requesterId obj, or_ownerId = ob_ownerId obj,
      or_projectId = ob_projectId obj, or_requestedOutcome = ob_requestedOutcome obj,
      or_definitionOfDone = ob_definitionOfDone obj, or_status = ob_status obj,
      or_riskLevel = ob_riskLevel obj, or_dueAt = ob_dueAt obj,
      or_completionSummary = ob_completionSummary obj\<rparr>"

definition rowToObjective :: "objective_row \<Rightarrow> objective" where
  "rowToObjective row =
     \<lparr>ob_id = or_id row, ob_scope = or_scope row, ob_requesterId = or_requesterId row,
      ob_ownerId = or_ownerId row, ob_requestedOutcome = or_requestedOutcome row,
      ob_definitionOfDone = or_definitionOfDone row, ob_status = or_status row,
      ob_riskLevel = or_riskLevel row, ob_projectId = or_projectId row,
      ob_teamId = (if or_scope row = TEAM then or_scopeRef row else None), ob_dueAt = or_dueAt row,
      ob_completionSummary = or_completionSummary row\<rparr>"

definition taskToRow :: "task \<Rightarrow> ident \<Rightarrow> string list \<Rightarrow> task_row" where
  "taskToRow t organizationId requiredCapabilities =
     \<lparr>kr_id = tk_id t, kr_organizationId = organizationId, kr_objectiveId = tk_objectiveId t,
      kr_parentTaskId = None, kr_goal = tk_goal t, kr_definitionOfDone = tk_definitionOfDone t,
      kr_status = tk_status t, kr_executionClass = tk_executionClass t,
      kr_requiredCapabilities = requiredCapabilities, kr_requiredAuthority = tk_requiredAuthority t,
      kr_idempotencyKey = tk_idempotencyKey t, kr_retryCount = tk_retryCount t,
      kr_maxRetries = tk_maxRetries t\<rparr>"

definition rowToTask :: "task_row \<Rightarrow> task" where
  "rowToTask row =
     \<lparr>tk_id = kr_id row, tk_objectiveId = kr_objectiveId row, tk_parentTaskId = kr_parentTaskId row,
      tk_goal = kr_goal row, tk_definitionOfDone = kr_definitionOfDone row, tk_status = kr_status row,
      tk_executionClass = kr_executionClass row, tk_requiredAuthority = kr_requiredAuthority row,
      tk_idempotencyKey = None, tk_retryCount = kr_retryCount row, tk_maxRetries = kr_maxRetries row\<rparr>"

lemma rowToTask_simps [simp]:
  "tk_status (rowToTask r) = kr_status r"
  "tk_retryCount (rowToTask r) = kr_retryCount r"
  "tk_maxRetries (rowToTask r) = kr_maxRetries r"
  by (simp_all add: rowToTask_def)

section \<open>The work order of a task\<close>

record work_order_hints =
  wh_requiredCapabilities :: "string list"
  wh_prefersHuman :: js
  wh_needsReasoning :: js
  wh_reasoningTier :: js
  wh_needsTools :: js
  wh_needsVision :: js
  wh_requireLocal :: js
  wh_minContextTokens :: js
  wh_modelRequest :: js

definition work_order_fields :: "task \<Rightarrow> ident \<Rightarrow> work_order_hints \<Rightarrow> js_record" where
  "work_order_fields t organizationId hints =
     [(''organizationId'', JStr organizationId),
      (''taskId'', JStr (tk_id t)),
      (''requiredCapabilities'', JArr (map JStr (wh_requiredCapabilities hints))),
      (''prefersHuman'', wh_prefersHuman hints),
      (''needsReasoning'', wh_needsReasoning hints),
      (''reasoningTier'', wh_reasoningTier hints),
      (''needsTools'', wh_needsTools hints),
      (''needsVision'', wh_needsVision hints),
      (''requireLocal'', wh_requireLocal hints),
      (''minContextTokens'', wh_minContextTokens hints),
      (''modelRequest'', wh_modelRequest hints)]"

definition buildWorkOrder :: "task \<Rightarrow> ident \<Rightarrow> work_order_hints \<Rightarrow> js" where
  "buildWorkOrder t organizationId hints = JObj (work_order_fields t organizationId hints)"

section \<open>Hints the worker can read\<close>

definition hint_values :: "work_order_hints \<Rightarrow> js list" where
  "hint_values h =
     [wh_prefersHuman h, wh_needsReasoning h, wh_reasoningTier h, wh_needsTools h, wh_needsVision h,
      wh_requireLocal h, wh_minContextTokens h, wh_modelRequest h]"

text \<open>What a JSON body can hold.\<close>

definition json_hints :: "work_order_hints \<Rightarrow> bool" where
  "json_hints h = (\<forall>v \<in> set (hint_values h). json_copy v = v)"

definition well_typed_hints :: "work_order_hints \<Rightarrow> bool" where
  "well_typed_hints h \<longleftrightarrow>
     (\<forall>v \<in> {wh_prefersHuman h, wh_needsReasoning h, wh_needsTools h, wh_needsVision h, wh_requireLocal h}.
        v = JUndefined \<or> (\<exists>b. v = JBool b))
     \<and> (\<forall>v \<in> {wh_reasoningTier h, wh_minContextTokens h}. v = JUndefined \<or> finite_number v)
     \<and> (wh_modelRequest h = JUndefined \<or> request_shape (wh_modelRequest h))"

definition no_hints :: "work_order_hints" where
  "no_hints = \<lparr>wh_requiredCapabilities = [], wh_prefersHuman = JUndefined, wh_needsReasoning = JUndefined,
     wh_reasoningTier = JUndefined, wh_needsTools = JUndefined, wh_needsVision = JUndefined,
     wh_requireLocal = JUndefined, wh_minContextTokens = JUndefined, wh_modelRequest = JUndefined\<rparr>"

definition work_order_payload :: "task \<Rightarrow> ident \<Rightarrow> work_order_hints \<Rightarrow> js" where
  "work_order_payload t organizationId hints = json_copy (buildWorkOrder t organizationId hints)"

lemma work_order_payload_get:
  "work_order_payload t org h = JObj (copy_fields (work_order_fields t org h))
   \<and> js_get (copy_fields (work_order_fields t org h)) k = json_copy (js_get (work_order_fields t org h) k)"
  by (simp add: work_order_payload_def buildWorkOrder_def json_copy_obj del: json_copy.simps)
    (rule js_get_copy_fields, simp add: work_order_fields_def)

lemma work_order_fields_get:
  "js_get (work_order_fields t org h) ''organizationId'' = JStr org"
  "js_get (work_order_fields t org h) ''taskId'' = JStr (tk_id t)"
  "js_get (work_order_fields t org h) ''requiredCapabilities'' = JArr (map JStr (wh_requiredCapabilities h))"
  "js_get (work_order_fields t org h) ''correlationId'' = JUndefined"
  "js_get (work_order_fields t org h) ''policy'' = JUndefined"
  "js_get (work_order_fields t org h) ''budget'' = JUndefined"
  "js_get (work_order_fields t org h) ''prefersHuman'' = wh_prefersHuman h"
  "js_get (work_order_fields t org h) ''needsReasoning'' = wh_needsReasoning h"
  "js_get (work_order_fields t org h) ''reasoningTier'' = wh_reasoningTier h"
  "js_get (work_order_fields t org h) ''needsTools'' = wh_needsTools h"
  "js_get (work_order_fields t org h) ''needsVision'' = wh_needsVision h"
  "js_get (work_order_fields t org h) ''requireLocal'' = wh_requireLocal h"
  "js_get (work_order_fields t org h) ''minContextTokens'' = wh_minContextTokens h"
  "js_get (work_order_fields t org h) ''modelRequest'' = wh_modelRequest h"
  by (simp_all add: work_order_fields_def)

lemma order_shape_hints:
  assumes "json_hints h"
  shows "order_shape (copy_fields (work_order_fields t org h)) \<longleftrightarrow> org \<noteq> [] \<and> well_typed_hints h"
proof -
  let ?r = "copy_fields (work_order_fields t org h)"
  have get: "js_get ?r k = json_copy (js_get (work_order_fields t org h) k)" for k
    using work_order_payload_get [of t org h k] by simp
  have hints: "json_copy (wh_prefersHuman h) = wh_prefersHuman h"
    "json_copy (wh_needsReasoning h) = wh_needsReasoning h" "json_copy (wh_reasoningTier h) = wh_reasoningTier h"
    "json_copy (wh_needsTools h) = wh_needsTools h" "json_copy (wh_needsVision h) = wh_needsVision h"
    "json_copy (wh_requireLocal h) = wh_requireLocal h"
    "json_copy (wh_minContextTokens h) = wh_minContextTokens h"
    "json_copy (wh_modelRequest h) = wh_modelRequest h"
    using assms by (simp_all add: json_hints_def hint_values_def)
  have fields: "js_get ?r ''organizationId'' = JStr org" "js_get ?r ''taskId'' = JStr (tk_id t)"
    "js_get ?r ''requiredCapabilities'' = JArr (map JStr (wh_requiredCapabilities h))"
    "js_get ?r ''correlationId'' = JUndefined"
    "js_get ?r ''policy'' = JUndefined" "js_get ?r ''budget'' = JUndefined"
    "js_get ?r ''prefersHuman'' = wh_prefersHuman h" "js_get ?r ''needsReasoning'' = wh_needsReasoning h"
    "js_get ?r ''reasoningTier'' = wh_reasoningTier h" "js_get ?r ''needsTools'' = wh_needsTools h"
    "js_get ?r ''needsVision'' = wh_needsVision h" "js_get ?r ''requireLocal'' = wh_requireLocal h"
    "js_get ?r ''minContextTokens'' = wh_minContextTokens h"
    "js_get ?r ''modelRequest'' = wh_modelRequest h"
    using hints by (simp_all only: get work_order_fields_get json_copy_texts json_copy.simps(1,2,5-))
  show ?thesis
    unfolding order_shape_def well_typed_hints_def
    by (simp add: fields conj_commute conj_left_commute) blast
qed

section \<open>A small database\<close>

text \<open>One organisation with a user, an objective and a pending task; it satisfies every constraint.\<close>

definition sample_objective_row :: objective_row where
  "sample_objective_row =
     \<lparr>or_id = ''o1'', or_organizationId = ''org'', or_scope = ORGANIZATION, or_scopeRef = None,
      or_requesterId = ''u1'', or_ownerId = ''u1'', or_projectId = None, or_requestedOutcome = ''outcome'',
      or_definitionOfDone = ''done'', or_status = OS_draft, or_riskLevel = RiskLow, or_dueAt = None,
      or_completionSummary = None\<rparr>"

definition sample_row :: task_row where
  "sample_row = taskToRow (sample_task\<lparr>tk_status := TS_pending\<rparr>) ''org'' [''crm'']"

definition sample_db :: "unit db" where
  "sample_db =
     \<lparr>db_orgs = [\<lparr>og_id = ''org'', og_name = ''Org'', og_slug = ''org'', og_externalAuthId = None\<rparr>],
      db_users = [\<lparr>uw_id = ''u1'', uw_organizationId = ''org'', uw_email = ''u@org'', uw_displayName = ''U'',
        uw_externalAuthId = Some ''clerk-u1''\<rparr>],
      db_teams = [],
      db_memberships = [\<lparr>mw_id = ''m1'', mw_organizationId = ''org'', mw_userId = ''u1'', mw_teamId = None,
        mw_role = Owner\<rparr>],
      db_projects = [], db_projectMemberships = [], db_objectives = [sample_objective_row],
      db_tasks = [sample_row], db_events = [], db_queue = ()\<rparr>"

definition numbered_env :: env where
  "numbered_env = \<lparr>uuid_at = nat_text, clock_at = int\<rparr>"

lemma sample_db_ok: "db_ok sample_db"
  by (simp add: db_ok_def tenancy_constraints_def donna_constraints unique_on_def refers_def
      List.map_filter_def org_ids_def org_users_def org_teams_def org_projects_def org_objectives_def
      org_tasks_def sample_db_def sample_objective_row_def sample_row_def taskToRow_def sample_task_def SCOPES_def RISK_LEVELS_def)

section \<open>Properties\<close>

text \<open>
  C23: An objective stored and read back is the same objective, except that a team binding is only kept
  for a TEAM scope; a task comes back without its parent and its idempotency key.
\<close>

theorem domain_row_roundtrip:
  "rowToObjective (objectiveToRow obj org) =
     (if ob_scope obj = TEAM then obj else obj\<lparr>ob_teamId := None\<rparr>)
   \<and> rowToTask (taskToRow t org caps) = t\<lparr>tk_parentTaskId := None, tk_idempotencyKey := None\<rparr>
   \<and> (let row = objectiveToRow obj org in objectiveToRow (rowToObjective row) org =
        (if or_scope row = TEAM then row else row\<lparr>or_scopeRef := None\<rparr>))"
  by (simp add: rowToObjective_def objectiveToRow_def rowToTask_def taskToRow_def Let_def)

text \<open>
  C22: The job enqueued for a new task can be read by the worker exactly when the organisation is named
  and every routing hint of the request has its type. The control plane does not check the hints, so a
  request with a hint of another type is queued as a job that the worker always refuses.
\<close>

theorem dispatched_order_readable:
  assumes "json_hints h"
  shows "(\<exists>w. parseWorkOrder (work_order_payload t org h) = Inr w) \<longleftrightarrow> org \<noteq> [] \<and> well_typed_hints h"
  using order_shape_hints [OF assms] work_order_payload_get [of t org h]
  by (simp add: parseWorkOrder_fields)

theorem dispatched_order_readable_witness:
  "\<not> (\<exists>w. parseWorkOrder (work_order_payload sample_task ''org'' (no_hints\<lparr>wh_needsReasoning := JStr ''yes''\<rparr>)) = Inr w)"
  by (subst dispatched_order_readable)
    (simp_all add: json_hints_def hint_values_def no_hints_def well_typed_hints_def)

end
