(* ===== verification/Worker_State.thy ===== *)
theory Worker_State
  imports Row_Mappers
begin

text \<open>
  The authoritative task row (\<open>apps/worker/src/task-state.ts\<close>): the buffer of a run's events and
  \<open>TaskStateStore.commitOutcome\<close>, one transaction that writes the trace, walks the state machine of the
  domain to the outcome, updates the row and, for a failure with retries left, enqueues the order again.
  The lemmas show that a commit is a run of the domain's machine, all or nothing, and bounded.
\<close>

section \<open>The buffering bus\<close>

text \<open>The worlds of an execution that publishes into a buffer.\<close>

record 'w buffered =
  bw_buffer :: "event_envelope list"
  bw_outer :: 'w

definition buffer_publish :: "event_envelope \<Rightarrow> ('w buffered, 'e, unit) act" where
  "buffer_publish event = modify (\<lambda>b. b\<lparr>bw_buffer := bw_buffer b @ [event]\<rparr>)"

definition buffer_subscribe :: "('w buffered, exn, unit) act" where
  "buffer_subscribe =
     throw (OtherError ''BufferingEventBus is write-only; subscribe to the delivered bus instead.'')"

definition buffer_drain :: "('w buffered, 'e, event_envelope list) act" where
  "buffer_drain b = (Inr (bw_buffer b), b\<lparr>bw_buffer := []\<rparr>)"

section \<open>From outcomes to the task row\<close>

datatype target_status = Target_completed | Target_failed | Target_awaiting_approval | Target_blocked

fun PATH_TO_TARGET :: "target_status \<Rightarrow> task_status list" where
  "PATH_TO_TARGET Target_completed = [TS_planned, TS_assigned, TS_running, TS_completed]"
| "PATH_TO_TARGET Target_failed = [TS_planned, TS_assigned, TS_running, TS_failed]"
| "PATH_TO_TARGET Target_awaiting_approval = [TS_planned, TS_assigned, TS_running, TS_awaiting_approval]"
| "PATH_TO_TARGET Target_blocked = [TS_planned, TS_blocked]"

fun targetStatusForResult :: "work_order_status \<Rightarrow> target_status" where
  "targetStatusForResult WS_completed = Target_completed"
| "targetStatusForResult WS_failed = Target_failed"
| "targetStatusForResult WS_approval_required = Target_awaiting_approval"
| "targetStatusForResult WS_denied = Target_blocked"
| "targetStatusForResult WS_blocked = Target_blocked"
| "targetStatusForResult WS_budget_exceeded = Target_blocked"
| "targetStatusForResult WS_awaiting_human = Target_blocked"

text \<open>The loop over the path, with the guard of every step.\<close>

fun walk_path :: "task_status \<Rightarrow> task_status list \<Rightarrow> exn + task_status" where
  "walk_path status [] = Inr status"
| "walk_path status (next # path) =
     (if \<not> canTransition status next then Inl (IllegalTaskTransition status next)
      else walk_path next path)"

record commit_input =
  ci_taskId :: ident
  ci_organizationId :: ident
  ci_status :: work_order_status
  ci_events :: "event_envelope list"
  ci_order :: parsed_order
  ci_actor :: "actor option"

datatype skip_reason = Not_found | Already_terminal | Not_pending

datatype commit_outcome = Applied task_status bool | NotApplied skip_reason

text \<open>\<open>WHERE id = .. AND organization_id = ..\<close>\<close>

definition task_at :: "ident \<Rightarrow> ident \<Rightarrow> task_row \<Rightarrow> bool" where
  "task_at i org r = (kr_id r = i \<and> kr_organizationId r = org)"

definition find_task :: "ident \<Rightarrow> ident \<Rightarrow> 'j db \<Rightarrow> task_row option" where
  "find_task i org d = find (task_at i org) (db_tasks d)"

definition set_task :: "ident \<Rightarrow> ident \<Rightarrow> task_status \<Rightarrow> int \<Rightarrow> 'j db \<Rightarrow> 'j db" where
  "set_task i org status retryCount d =
     d\<lparr>db_tasks := map (\<lambda>r. if task_at i org r then r\<lparr>kr_status := status, kr_retryCount := retryCount\<rparr> else r)
                     (db_tasks d)\<rparr>"

definition retry_event :: "env \<Rightarrow> nat \<Rightarrow> commit_input \<Rightarrow> task_row \<Rightarrow> event_envelope" where
  "retry_event env tick input row =
     createEvent env tick
       \<lparr>ce_type = ET_task_retried, ce_organizationId = ci_organizationId input,
        ce_actor = coalesce (ci_actor input) \<lparr>actor_kind = ActorOrchestrator, actor_id = ''worker''\<rparr>,
        ce_objectiveId = Some (kr_objectiveId row), ce_taskId = Some (ci_taskId input),
        ce_correlationId = None, ce_causationId = None, ce_payloadRef = None, ce_now = None\<rparr>"

text \<open>The retry decision: the status and retry count to store, and whether the order goes back to the queue.\<close>

definition retry_step :: "target_status \<Rightarrow> task_row \<Rightarrow> task_status \<Rightarrow> exn + (task_status \<times> int \<times> bool)" where
  "retry_step target row status =
     (if target = Target_failed \<and> kr_retryCount row < kr_maxRetries row
      then (if \<not> canTransition status TS_pending then Inl (IllegalTaskTransition status TS_pending)
            else Inr (TS_pending, kr_retryCount row + 1, True))
      else Inr (status, kr_retryCount row, False))"

definition requeue :: "env \<Rightarrow> nat \<Rightarrow> 'j add_job \<Rightarrow> commit_input \<Rightarrow> task_row \<Rightarrow> ('j db, exn, unit) act" where
  "requeue env tick add_job input row =
     seq_act (insert_events [eventEnvelopeToRow (retry_event env tick input row)])
       (bind_act (enqueue_job add_job EXECUTE_WORK_ORDER_TASK (order_payload (ci_order input)) (ci_taskId input))
          (\<lambda>_. ret ()))"

text \<open>The transaction after its \<open>select .. for update\<close>, on the row that it returned and now holds.\<close>

definition commit_row :: "env \<Rightarrow> nat \<Rightarrow> 'j add_job \<Rightarrow> commit_input \<Rightarrow> task_row \<Rightarrow> ('j db, exn, commit_outcome) act" where
  "commit_row env tick add_job input row =
     (if isTerminalTaskStatus (kr_status row) then ret (NotApplied Already_terminal)
      else if kr_status row \<noteq> TS_pending then ret (NotApplied Not_pending)
      else
        seq_act
          (if ci_events input \<noteq> [] then insert_events (map eventEnvelopeToRow (ci_events input))
           else ret ())
        (let target = targetStatusForResult (ci_status input) in
         bind_act (of_result (walk_path (kr_status row) (PATH_TO_TARGET target))) (\<lambda>walked.
         bind_act (of_result (retry_step target row walked)) (\<lambda>(status, retryCount, retried).
         seq_act
           (statement (set_task (ci_taskId input) (ci_organizationId input) status retryCount))
         (seq_act (if retried then requeue env tick add_job input row else ret ())
         (ret (Applied status retried)))))))"

definition commitOutcome :: "env \<Rightarrow> nat \<Rightarrow> 'j add_job \<Rightarrow> commit_input \<Rightarrow> ('j db, exn, commit_outcome) act" where
  "commitOutcome env tick add_job input =
     transaction
       (bind_act (gets (find_task (ci_taskId input) (ci_organizationId input))) (\<lambda>found.
        case found of
          None \<Rightarrow> ret (NotApplied Not_found)
        | Some row \<Rightarrow> commit_row env tick add_job input row))"

section \<open>The domain's machine behind a commit\<close>

lemma walk_path_target: "walk_path TS_pending (PATH_TO_TARGET t) = Inr (last (PATH_TO_TARGET t))"
  by (cases t) (simp_all add: canTransition_def)

definition retries :: "work_order_status \<Rightarrow> task_row \<Rightarrow> bool" where
  "retries status row \<longleftrightarrow> status = WS_failed \<and> kr_retryCount row < kr_maxRetries row"

definition commit_path :: "work_order_status \<Rightarrow> task_row \<Rightarrow> task_status list" where
  "commit_path status row =
     PATH_TO_TARGET (targetStatusForResult status) @ (if retries status row then [TS_pending] else [])"

lemma target_failed [simp]: "targetStatusForResult s = Target_failed \<longleftrightarrow> s = WS_failed"
  by (cases s) simp_all

text \<open>The row a commit leaves behind.\<close>

definition committed_row :: "work_order_status \<Rightarrow> task_row \<Rightarrow> task_row" where
  "committed_row status row =
     row\<lparr>kr_status := last (commit_path status row),
         kr_retryCount := kr_retryCount row + (if retries status row then 1 else 0)\<rparr>"

lemma run_commit_path:
  assumes "kr_status row = TS_pending"
  shows "run_transitions (rowToTask row) (commit_path status row) = Inr (rowToTask (committed_row status row))"
proof (cases "retries status row")
  case True
  then show ?thesis
    using assms by (simp add: commit_path_def committed_row_def rowToTask_def transition_def
        canTransition_def Let_def retries_def)
next
  case False
  then show ?thesis
    using assms by (cases status) (simp_all add: commit_path_def committed_row_def rowToTask_def
        transition_def canTransition_def Let_def)
qed

lemma retry_step_commit:
  assumes "walk_path TS_pending (PATH_TO_TARGET (targetStatusForResult status)) = Inr walked"
  shows "retry_step (targetStatusForResult status) row walked =
    Inr (kr_status (committed_row status row), kr_retryCount (committed_row status row), retries status row)"
  using assms unfolding walk_path_target
  by (auto simp: retry_step_def committed_row_def commit_path_def retries_def canTransition_def)

text \<open>The database a commit leaves behind when no constraint is broken.\<close>

definition commit_events :: "env \<Rightarrow> nat \<Rightarrow> commit_input \<Rightarrow> task_row \<Rightarrow> event_row list" where
  "commit_events env tick input row =
     map eventEnvelopeToRow
       (ci_events input @ (if retries (ci_status input) row then [retry_event env tick input row] else []))"

definition commit_effect :: "env \<Rightarrow> nat \<Rightarrow> 'j add_job \<Rightarrow> commit_input \<Rightarrow> task_row \<Rightarrow> 'j db \<Rightarrow> 'j db" where
  "commit_effect env tick add_job input row d =
     (set_task (ci_taskId input) (ci_organizationId input)
        (kr_status (committed_row (ci_status input) row)) (kr_retryCount (committed_row (ci_status input) row)) d)
     \<lparr>db_events := db_events d @ commit_events env tick input row,
      db_queue := (if retries (ci_status input) row
        then snd (add_job EXECUTE_WORK_ORDER_TASK (order_payload (ci_order input)) (ci_taskId input) (db_queue d))
        else db_queue d)\<rparr>"

lemma commitOutcome_wp:
  "wp (commitOutcome env tick add_job input)
     (\<lambda>outcome d'. case find_task (ci_taskId input) (ci_organizationId input) d of
          None \<Rightarrow> outcome = NotApplied Not_found \<and> d' = d
        | Some row \<Rightarrow>
            if kr_status row = TS_pending
            then outcome = Applied (kr_status (committed_row (ci_status input) row)) (retries (ci_status input) row)
              \<and> d' = commit_effect env tick add_job input row d
            else outcome = NotApplied (if isDone (rowToTask row) then Already_terminal else Not_pending) \<and> d' = d)
     (\<lambda>e d'. d' = d \<and> (\<exists>c. e = DbError c)) d"
proof (cases "find_task (ci_taskId input) (ci_organizationId input) d")
  case None
  then show ?thesis by (simp add: commitOutcome_def)
next
  case (Some row)
  show ?thesis
  proof (cases "kr_status row = TS_pending")
    case False
    with Some show ?thesis by (simp add: commitOutcome_def commit_row_def isDone_def)
  next
    case True
    note walk = walk_path_target [of "targetStatusForResult (ci_status input)"]
    from Some True show ?thesis
      by (simp add: commitOutcome_def commit_row_def Let_def walk retry_step_commit [OF walk] requeue_def commit_effect_def
          commit_events_def set_task_def)
  qed
qed

section \<open>Sequences of commits\<close>

text \<open>The worker's deliveries for a task, one after another, whatever each of them comes to.\<close>

fun run_commits :: "env \<Rightarrow> nat \<Rightarrow> 'j add_job \<Rightarrow> commit_input list \<Rightarrow> 'j db \<Rightarrow> (exn + commit_outcome) list \<times> 'j db" where
  "run_commits env tick add_job [] d = ([], d)"
| "run_commits env tick add_job (input # inputs) d =
     (let (r, d') = commitOutcome env tick add_job input d;
          (rs, d'') = run_commits env (tick + 1) add_job inputs d'
      in (r # rs, d''))"

definition was_applied :: "exn + commit_outcome \<Rightarrow> bool" where
  "was_applied r = (\<exists>status retried. r = Inr (Applied status retried))"

text \<open>The commits a row can still take: none unless it is pending, then its retries and one more.\<close>

definition commits_left :: "task_row \<Rightarrow> int" where
  "commits_left row =
     (if kr_status row = TS_pending then max 0 (kr_maxRetries row - kr_retryCount row) + 1 else 0)"

lemma commits_left_nonneg: "0 \<le> commits_left row"
  by (simp add: commits_left_def)

lemma last_target_path [simp]: "last (PATH_TO_TARGET t) \<noteq> TS_pending"
  by (cases t) simp_all

lemma commits_left_committed:
  "kr_status row = TS_pending \<Longrightarrow> commits_left (committed_row status row) + 1 \<le> commits_left row"
  by (auto simp: commits_left_def committed_row_def commit_path_def retries_def)

lemma task_at_update [simp]: "task_at i org (r\<lparr>kr_status := s, kr_retryCount := n\<rparr>) = task_at i org r"
  by (simp add: task_at_def)

lemma find_task_update:
  "find_task i org (d\<lparr>db_events := es, db_queue := q\<rparr>) = find_task i org d"
  by (simp add: find_task_def)

lemma find_set_task:
  "find_task i org (set_task i org s n d) =
     map_option (\<lambda>r. r\<lparr>kr_status := s, kr_retryCount := n\<rparr>) (find_task i org d)"
proof -
  have "find (task_at i org) (map (\<lambda>r. if task_at i org r then r\<lparr>kr_status := s, kr_retryCount := n\<rparr> else r) rows) =
      map_option (\<lambda>r. r\<lparr>kr_status := s, kr_retryCount := n\<rparr>) (find (task_at i org) rows)" for rows
    by (induction rows) simp_all
  then show ?thesis by (simp add: find_task_def set_task_def)
qed

lemma find_commit_effect:
  assumes "find_task (ci_taskId input) (ci_organizationId input) d = Some row"
  shows "find_task (ci_taskId input) (ci_organizationId input) (commit_effect env tick add_job input row d) =
    Some (committed_row (ci_status input) row)"
  using assms by (simp add: commit_effect_def find_task_update find_set_task committed_row_def)

lemma commit_cases:
  assumes "commitOutcome env tick add_job input d = (r, d')"
  obtains (unchanged) "d' = d" "\<not> was_applied r"
  | (applied) row where "find_task (ci_taskId input) (ci_organizationId input) d = Some row"
      "kr_status row = TS_pending" "d' = commit_effect env tick add_job input row d"
      "r = Inr (Applied (kr_status (committed_row (ci_status input) row)) (retries (ci_status input) row))"
proof (cases r)
  case (Inl e)
  with wp_Inl [OF commitOutcome_wp] assms have "d' = d" by blast
  with Inl show thesis by (intro unchanged) (simp_all add: was_applied_def)
next
  case (Inr outcome)
  note post = wp_Inr [OF commitOutcome_wp assms [unfolded Inr]]
  show thesis
  proof (cases "find_task (ci_taskId input) (ci_organizationId input) d")
    case None
    with post Inr show ?thesis by (intro unchanged) (simp_all add: was_applied_def)
  next
    case (Some row)
    show ?thesis
    proof (cases "kr_status row = TS_pending")
      case True
      with post Some Inr show ?thesis by (intro applied [of row]) simp_all
    next
      case False
      with post Some Inr show ?thesis by (intro unchanged) (simp_all add: was_applied_def)
    qed
  qed
qed

lemma applied_commits_bounded:
  assumes "\<forall>input \<in> set inputs. ci_taskId input = i \<and> ci_organizationId input = org"
    and "find_task i org d = Some row"
  shows "int (length (filter was_applied (fst (run_commits env tick add_job inputs d)))) \<le> commits_left row"
  using assms
proof (induction inputs arbitrary: tick d row)
  case Nil
  then show ?case by (simp add: commits_left_nonneg)
next
  case (Cons input inputs)
  obtain r d' where c: "commitOutcome env tick add_job input d = (r, d')" by fastforce
  have run: "fst (run_commits env tick add_job (input # inputs) d) =
      r # fst (run_commits env (tick + 1) add_job inputs d')"
    by (simp add: c case_prod_beta)
  have same: "ci_taskId input = i" "ci_organizationId input = org"
    and rest: "\<forall>input \<in> set inputs. ci_taskId input = i \<and> ci_organizationId input = org"
    using Cons.prems(1) by simp_all
  from c show ?case
  proof (cases rule: commit_cases)
    case unchanged
    with Cons.IH [OF rest Cons.prems(2), of "tick + 1"] show ?thesis
      by (simp add: run del: run_commits.simps)
  next
    case (applied row')
    then have row': "row' = row"
      using Cons.prems(2) same by simp
    have found: "find_task i org d' = Some (committed_row (ci_status input) row)"
      using find_commit_effect [OF applied(1)] applied(3) row' same by simp
    note Cons.IH [OF rest found, of "tick + 1"]
    with commits_left_committed [of row "ci_status input"] applied(2,4) row' show ?thesis
      by (simp add: run was_applied_def [of r] del: run_commits.simps)
  qed
qed

section \<open>Properties\<close>

text \<open>
  C5: Committing an outcome refines the domain's task machine and is all or nothing. When it is applied,
  the row was pending and is now where the machine of the domain takes it along the path of the outcome
  (and back to pending, with one retry spent, for a failure with retries left); every other task and
  table is as before; the events table has gained exactly the run's trace, and the retry event when
  retried; the order is enqueued under the task's id exactly when retried. Otherwise nothing has changed,
  and the only exception there can be is the database's: no commit ever attempts an illegal transition.
\<close>

theorem commitOutcome_refines_machine:
  "case commitOutcome env tick add_job input d of
     (Inl e, d') \<Rightarrow> d' = d \<and> (\<exists>c. e = DbError c)
   | (Inr (NotApplied why), d') \<Rightarrow> d' = d
   | (Inr (Applied status retried), d') \<Rightarrow>
       (\<exists>row row'. find_task (ci_taskId input) (ci_organizationId input) d = Some row
         \<and> kr_status row = TS_pending
         \<and> run_transitions (rowToTask row)
             (PATH_TO_TARGET (targetStatusForResult (ci_status input)) @ (if retried then [TS_pending] else []))
             = Inr (rowToTask row')
         \<and> kr_status row' = status
         \<and> (retried = (ci_status input = WS_failed \<and> kr_retryCount row < kr_maxRetries row))
         \<and> d' = (set_task (ci_taskId input) (ci_organizationId input) status (kr_retryCount row') d)
              \<lparr>db_events := db_events d @ map eventEnvelopeToRow
                 (ci_events input @ (if retried then [retry_event env tick input row] else [])),
               db_queue := (if retried
                 then snd (add_job EXECUTE_WORK_ORDER_TASK (order_payload (ci_order input)) (ci_taskId input)
                        (db_queue d))
                 else db_queue d)\<rparr>)"
proof -
  obtain r d' where c: "commitOutcome env tick add_job input d = (r, d')" by fastforce
  show ?thesis
  proof (cases r)
    case (Inl e)
    with wp_Inl [OF commitOutcome_wp] c show ?thesis by fastforce
  next
    case (Inr outcome)
    from c show ?thesis
    proof (cases rule: commit_cases)
      case unchanged
      with c Inr show ?thesis by (simp add: was_applied_def split: commit_outcome.split)
    next
      case (applied row)
      with c run_commit_path [of row "ci_status input"] show ?thesis
        by (auto simp: retries_def commit_effect_def commit_events_def commit_path_def
            intro!: exI [of _ "committed_row (ci_status input) row"])
    qed
  qed
qed

text \<open>
  However often the worker delivers outcomes for a task, and whatever they are, at most one more than
  the retries the row has left are applied, and none once the row is not pending: redelivery of a finished
  job changes nothing.
\<close>

theorem deliveries_applied_bounded:
  assumes "\<forall>input \<in> set inputs. ci_taskId input = i \<and> ci_organizationId input = org"
    and "find_task i org d = Some row"
  shows "int (length (filter was_applied (fst (run_commits env tick add_job inputs d)))) \<le>
    (if kr_status row = TS_pending then max 0 (kr_maxRetries row - kr_retryCount row) + 1 else 0)"
  using applied_commits_bounded [of inputs i org d row env tick add_job] assms
  by (simp add: commits_left_def)

definition sample_commit :: "work_order_status \<Rightarrow> commit_input" where
  "sample_commit status =
     \<lparr>ci_taskId = ''t1'', ci_organizationId = ''org'', ci_status = status, ci_events = [],
      ci_order = sample_payload_order, ci_actor = None\<rparr>"

theorem deliveries_applied_bounded_witness:
  "length (filter was_applied (fst (run_commits \<lparr>uuid_at = (\<lambda>n. ''id''), clock_at = (\<lambda>n. 0)\<rparr> 0
     (\<lambda>_ _ _ q. (''1'', q)) (replicate 5 (sample_commit WS_failed)) sample_db))) \<le> 2"
proof -
  have "find_task ''t1'' ''org'' sample_db = Some sample_row"
    by (simp add: find_task_def task_at_def sample_db_def sample_row_def taskToRow_def sample_task_def)
  from deliveries_applied_bounded [OF _ this, of "replicate 5 (sample_commit WS_failed)"
      "\<lparr>uuid_at = (\<lambda>n. ''id''), clock_at = (\<lambda>n. 0)\<rparr>" 0 "\<lambda>_ _ _ q. (''1'', q)"]
  show ?thesis
    by (simp add: sample_commit_def sample_row_def taskToRow_def sample_task_def)
qed

end
