(* ===== verification/Worker_Runtime.thy ===== *)
theory Worker_Runtime
  imports Worker_State Orchestrator_Traces
begin

text \<open>
  The worker's tasks (\<open>apps/worker/src/worker.ts\<close>, \<open>outbox-bus.ts\<close>): the composition of the orchestrator's
  dependencies, the \<open>execute-work-order\<close> job (parse, run into a buffer, commit the task row and the trace in
  one transaction) and the \<open>dispatch-outbox\<close> tick. The lemmas show that the buffer holds exactly the trace
  of the run, and with it that the stored row and the stored events of a task agree.
\<close>

section \<open>Publishing into the buffer\<close>

text \<open>An adapter does not see the buffer: its actions are those on the world around it.\<close>

definition lift_outer :: "('w, 'e, 'a) act \<Rightarrow> ('w buffered, 'e, 'a) act" where
  "lift_outer m b = (case m (bw_outer b) of (r, w) \<Rightarrow> (r, b\<lparr>bw_outer := w\<rparr>))"

definition lift_capability :: "('w, 'e) capability_adapter \<Rightarrow> ('w buffered, 'e) capability_adapter" where
  "lift_capability a =
     \<lparr>cad_id = cad_id a, cad_name = cad_name a, cad_version = cad_version a,
      cad_capabilities = cad_capabilities a,
      cad_estimate = (\<lambda>x c. lift_outer (cad_estimate a x c)),
      cad_execute = (\<lambda>x c. lift_outer (cad_execute a x c)),
      cad_reportUsage = lift_outer (cad_reportUsage a),
      cad_classifyError = cad_classifyError a\<rparr>"

definition lift_model :: "('w, 'e) model_adapter \<Rightarrow> ('w buffered, 'e) model_adapter" where
  "lift_model a =
     \<lparr>mad_id = mad_id a,
      mad_estimate = (\<lambda>x c. lift_outer (mad_estimate a x c)),
      mad_execute = (\<lambda>x c. lift_outer (mad_execute a x c)),
      mad_classifyError = mad_classifyError a\<rparr>"

text \<open>\<open>{ ...deps, bus: buffer }\<close>\<close>

definition with_buffer :: "('w, 'e) orchestrator_deps \<Rightarrow> ('w buffered, 'e) orchestrator_deps" where
  "with_buffer deps =
     \<lparr>od_publish = buffer_publish, od_workRegistry = od_workRegistry deps,
      od_modelRegistry = od_modelRegistry deps,
      od_resolveModelAdapter = (\<lambda>i. map_option lift_model (od_resolveModelAdapter deps i)),
      od_resolveCapabilityAdapter =
        map_option (\<lambda>resolve i. map_option lift_capability (resolve i)) (od_resolveCapabilityAdapter deps),
      od_env = od_env deps, od_numText = od_numText deps\<rparr>"

section \<open>Wiring the worker\<close>

record ('w, 'e) worker_config =
  wk_capabilityCatalog :: "('w, 'e) capability_catalog option"
  wk_workRegistry :: "capability_registry option"
  wk_outboxBatchSize :: "nat option"
  wk_resolveModelAdapter :: "string \<Rightarrow> ('w, 'e) model_adapter option"
  wk_env :: env
  wk_numText :: "number \<Rightarrow> string"

definition batch_size :: "('w, 'e) worker_config \<Rightarrow> nat" where
  "batch_size cfg = coalesce (wk_outboxBatchSize cfg) 500"

text \<open>The bus of these dependencies is replaced by the buffer in every job.\<close>

definition worker_deps :: "('w, 'e) worker_config \<Rightarrow> ('w, 'e) orchestrator_deps" where
  "worker_deps cfg =
     \<lparr>od_publish = (\<lambda>_. ret ()),
      od_workRegistry =
        (case wk_capabilityCatalog cfg of
           Some cat \<Rightarrow> toWorkRegistry cat
         | None \<Rightarrow> coalesce (wk_workRegistry cfg) []),
      od_modelRegistry = MODEL_REGISTRY,
      od_resolveModelAdapter = wk_resolveModelAdapter cfg,
      od_resolveCapabilityAdapter = map_option catalog_resolve (wk_capabilityCatalog cfg),
      od_env = wk_env cfg, od_numText = wk_numText cfg\<rparr>"

section \<open>The execute-work-order job\<close>

text \<open>The worker process beside the database: the adapters' world, the ledger, the supply of ids.\<close>

record ('j, 'w) worker =
  ws_db :: "'j db"
  ws_world :: 'w
  ws_ledger :: usage_ledger
  ws_tick :: nat

datatype 'e job_error = RunThrew 'e | JobThrew exn

text \<open>A database action of the job.\<close>

definition on_db :: "('j db, exn, 'a) act \<Rightarrow> (('j, 'w) worker, 'e job_error, 'a) act" where
  "on_db m s =
     (case m (ws_db s) of
        (Inl e, d) \<Rightarrow> (Inl (JobThrew e), s\<lparr>ws_db := d\<rparr>)
      | (Inr a, d) \<Rightarrow> (Inr a, s\<lparr>ws_db := d\<rparr>))"

text \<open>
  The gates of a parsed order are objects that the orchestrator reads at the types of \<open>WorkOrder\<close>; how a
  JSON object is read as a policy input or a budget is a parameter.
\<close>

record gate_readers =
  gr_policy :: "js \<Rightarrow> policy_input"
  gr_budget :: "js \<Rightarrow> order_budget"

definition read_gates :: "gate_readers \<Rightarrow> parsed_order \<Rightarrow> order" where
  "read_gates readers w =
     \<lparr>wo_organizationId = wo_organizationId w, wo_taskId = wo_taskId w,
      wo_correlationId = wo_correlationId w, wo_actor = wo_actor w,
      wo_requiredCapabilities = wo_requiredCapabilities w, wo_prefersHuman = wo_prefersHuman w,
      wo_needsReasoning = wo_needsReasoning w, wo_reasoningTier = wo_reasoningTier w,
      wo_needsTools = wo_needsTools w, wo_needsVision = wo_needsVision w,
      wo_requireLocal = wo_requireLocal w, wo_minContextTokens = wo_minContextTokens w,
      wo_modelRequest = wo_modelRequest w, wo_capabilityInput = wo_capabilityInput w,
      wo_policy = map_option (gr_policy readers) (wo_policy w),
      wo_budget = map_option (gr_budget readers) (wo_budget w)\<rparr>"

text \<open>The run of an order from a fresh buffer: its result, its trace, and the process after it.\<close>

definition run_buffered ::
    "('w, 'e) orchestrator_deps \<Rightarrow> order \<Rightarrow>
     (('j, 'w) worker, 'e job_error, work_order_result \<times> event_envelope list) act" where
  "run_buffered deps order s =
     (let (r, rt) = executeWorkOrder (with_buffer deps) order
            \<lparr>rt_world = \<lparr>bw_buffer = [], bw_outer = ws_world s\<rparr>, rt_ledger = ws_ledger s,
             rt_tick = ws_tick s, rt_log = []\<rparr>;
          s' = s\<lparr>ws_world := bw_outer (rt_world rt), ws_ledger := rt_ledger rt, ws_tick := rt_tick rt\<rparr>
      in case r of
           Inl e \<Rightarrow> (Inl (RunThrew e), s')
         | Inr result \<Rightarrow> (Inr (result, bw_buffer (rt_world rt)), s'))"

text \<open>\<open>DrizzleOutboxBus.publish\<close>\<close>

definition outbox_publish :: "event_envelope \<Rightarrow> ('j db, exn, unit) act" where
  "outbox_publish event = insert_events [eventEnvelopeToRow event]"

definition execute_work_order_job ::
    "('w, 'e) worker_config \<Rightarrow> gate_readers \<Rightarrow> 'j add_job \<Rightarrow> js \<Rightarrow>
     (('j, 'w) worker, 'e job_error, commit_outcome option) act" where
  "execute_work_order_job cfg readers add_job payload =
     (case parseWorkOrder payload of
        Inl e \<Rightarrow> throw (JobThrew e)
      | Inr order \<Rightarrow>
          bind_act (run_buffered (worker_deps cfg) (read_gates readers order)) (\<lambda>(result, trace).
          case wo_taskId order of
            None \<Rightarrow> seq_act (for_each (\<lambda>event. on_db (outbox_publish event)) trace) (ret None)
          | Some taskId \<Rightarrow>
              bind_act (gets ws_tick) (\<lambda>tick.
              seq_act (modify (\<lambda>s. s\<lparr>ws_tick := tick + 1\<rparr>))
              (bind_act
                (on_db (commitOutcome (wk_env cfg) tick add_job
                   \<lparr>ci_taskId = taskId, ci_organizationId = wo_organizationId order,
                    ci_status = wx_status result, ci_events = trace, ci_order = order,
                    ci_actor = None\<rparr>))
                (\<lambda>outcome. ret (Some outcome))))))"

section \<open>The dispatch-outbox tick\<close>

definition dispatch_outbox ::
    "('w, 'e) worker_config \<Rightarrow> time \<Rightarrow> (event_envelope \<Rightarrow> ('b, 'e, unit) act) \<Rightarrow>
     (event_row list \<times> 'b, 'e, nat) act" where
  "dispatch_outbox cfg now publish = dispatchBatch db_fetchUnpublished (db_markPublished now) publish (batch_size cfg)"

section \<open>The buffer is the trace\<close>

text \<open>What a run has put into its buffer, read off its log.\<close>

definition published :: "observation list \<Rightarrow> event_envelope list" where
  "published tr = List.map_filter (\<lambda>ob. case ob of Published ev \<Rightarrow> Some ev | _ \<Rightarrow> None) tr"

lemma published_simps [simp]:
  "published [] = []"
  "published (tr @ tr') = published tr @ published tr'"
  "published [Published ev] = [ev]"
  "published [PublishFailed ev] = []"
  "published [Estimated t c] = []"
  "published [Executed t] = []"
  "published [ExecuteFailed t cls] = []"
  by (simp_all add: published_def List.map_filter_def)

lemma events_published: "events tr = map ev_type (published tr)"
  by (induction tr rule: events.induct) (simp_all add: published_def List.map_filter_def)

definition in_step :: "'w buffered runtime \<Rightarrow> bool" where
  "in_step s \<longleftrightarrow> bw_buffer (rt_world s) = published (rt_log s)"

lemma keeps_lifted_call [intro!]: "keeps in_step (call_out (lift_outer m))"
  by (simp add: keeps_def in_step_def call_out_def lift_outer_def case_prod_beta)

lemma keeps_record [intro!]: "keeps in_step (record_usage u)"
  unfolding record_usage_def by (rule keeps_modify) (simp add: in_step_def)

lemma keeps_observe: "published [ob] = [] \<Longrightarrow> keeps in_step (observe ob)"
  unfolding observe_def by (rule keeps_modify) (simp add: in_step_def)

lemma keeps_emit [intro!]: "keeps in_step (emit (with_buffer deps) order t)"
  by (simp add: keeps_def emit_def publish_event_def with_buffer_def buffer_publish_def call_out_def
      observe_def bind_act_def seq_act_def try_act_def gets_def modify_def ret_def throw_def in_step_def)

lemma keeps_execute [intro!]: "keeps in_step (execute_call t cls (lift_outer m))"
  unfolding execute_call_def by (intro keeps_bind keeps_try keeps_seq keeps_lifted_call keeps_observe) auto

lemma keeps_gate [intro!]: "keeps in_step (budget_gate b t (lift_outer m))"
  unfolding budget_gate_def
  by (intro keeps_option keeps_bind keeps_seq keeps_lifted_call keeps_observe keeps_ret) auto

lemma resolve_lifted:
  "resolve_capability (with_buffer deps) i = map_option lift_capability (resolve_capability deps i)"
  by (simp add: resolve_capability_def with_buffer_def split: option.split)

lemma lifted_simps [simp]:
  "cad_estimate (lift_capability a) x c = lift_outer (cad_estimate a x c)"
  "cad_execute (lift_capability a) x c = lift_outer (cad_execute a x c)"
  "cad_reportUsage (lift_capability a) = lift_outer (cad_reportUsage a)"
  "cad_classifyError (lift_capability a) = cad_classifyError a"
  "mad_estimate (lift_model b) x' c = lift_outer (mad_estimate b x' c)"
  "mad_execute (lift_model b) x' c = lift_outer (mad_execute b x' c)"
  "mad_classifyError (lift_model b) = mad_classifyError b"
  "od_resolveModelAdapter (with_buffer deps) i = map_option lift_model (od_resolveModelAdapter deps i)"
  by (simp_all add: lift_capability_def lift_model_def with_buffer_def)

lemma keeps_attempt_capability: "keeps in_step (attempt_capability (with_buffer deps) order c (lift_capability a))"
  unfolding attempt_capability_def by (auto intro!: keeps_bind keeps_seq)

lemma keeps_attempt_model: "keeps in_step (attempt_model (with_buffer deps) order cls request entry (lift_model a))"
  unfolding attempt_model_def by (auto intro!: keeps_bind keeps_seq)

lemma keeps_capability_loop: "keeps in_step (capability_loop (with_buffer deps) order cs att)"
proof (induction cs arbitrary: att)
  case (Cons c cs)
  then show ?case
    by (cases "resolve_capability deps (rc_id c)")
      (auto simp: resolve_lifted intro!: keeps_bind keeps_seq keeps_try keeps_attempt_capability split: option.split)
qed auto

lemma keeps_model_loop: "keeps in_step (model_loop (with_buffer deps) order cls request es l)"
proof (induction es arbitrary: l)
  case (Cons e es)
  then show ?case
    by (cases "od_resolveModelAdapter deps (me_id e)")
      (auto intro!: keeps_bind keeps_seq keeps_try keeps_attempt_model split: sum.split)
qed auto

lemma keeps_executeWorkOrder: "keeps in_step (executeWorkOrder (with_buffer deps) order)"
proof -
  have model: "keeps in_step (model_path (with_buffer deps) order cls)" for cls
    unfolding model_path_def
    by (auto simp del: model_loop.simps intro!: keeps_bind keeps_seq keeps_model_loop split: option.split sum.split)
  have routed: "keeps in_step (routed_path (with_buffer deps) order)"
    unfolding routed_path_def capability_path_def Let_def
    by (auto simp del: capability_loop.simps intro!: keeps_bind keeps_seq keeps_capability_loop model split: sum.split)
  show ?thesis
    unfolding executeWorkOrder_def Let_def by (auto intro!: keeps_seq routed split: option.split)
qed

section \<open>Runs of a job\<close>

text \<open>Adapters whose estimates and usage reports do not throw.\<close>

definition reliable_adapters :: "('w, 'e) worker_config \<Rightarrow> bool" where
  "reliable_adapters cfg \<longleftrightarrow>
     (\<forall>cat i a. wk_capabilityCatalog cfg = Some cat \<and> catalog_resolve cat i = Some a \<longrightarrow>
        (\<forall>w e. fst (cad_reportUsage a w) \<noteq> Inl e) \<and> (\<forall>x c w e. fst (cad_estimate a x c w) \<noteq> Inl e))
     \<and> (\<forall>i a. wk_resolveModelAdapter cfg i = Some a \<longrightarrow> (\<forall>x c w e. fst (mad_estimate a x c w) \<noteq> Inl e))"

lemma fst_lift_outer: "fst (lift_outer m b) = fst (m (bw_outer b))"
  by (simp add: lift_outer_def case_prod_beta)

lemma reliable_with_buffer: "reliable_adapters cfg \<Longrightarrow> reliable (with_buffer (worker_deps cfg))"
  by (auto simp: reliable_def reliable_adapters_def resolve_lifted fst_lift_outer, simp_all add: worker_deps_def
      with_buffer_def buffer_publish_def modify_def resolve_capability_def split: option.splits)

text \<open>A run of reliable adapters always has a result, and its buffer holds the trace of that result.\<close>

lemma run_buffered_reliable:
  assumes "reliable_adapters cfg"
  shows "\<exists>result trace s'. run_buffered (worker_deps cfg) order s = (Inr (result, trace), s')
    \<and> ws_db s' = ws_db s \<and> (\<exists>a us. lifecycle result a (map ev_type trace) us)"
proof -
  let ?rt = "\<lparr>rt_world = \<lparr>bw_buffer = [], bw_outer = ws_world s\<rparr>, rt_ledger = ws_ledger s,
             rt_tick = ws_tick s, rt_log = []\<rparr>"
  let ?run = "executeWorkOrder (with_buffer (worker_deps cfg)) order ?rt"
  from runs_asD [OF executeWorkOrder_runs [OF reliable_with_buffer [OF assms]], of order ?rt]
  obtain res tr us where "fst ?run = Inr res" and log: "rt_log (snd ?run) = tr"
    and life: "lifecycle res (attempts tr) (events tr) us" by auto
  moreover have "in_step (snd ?run)"
    using keeps_executeWorkOrder [of "worker_deps cfg" order]
    by (simp add: keeps_def, elim allE [of _ ?rt]) (simp add: in_step_def)
  ultimately have "run_buffered (worker_deps cfg) order s = (Inr (res, published tr),
      s\<lparr>ws_world := bw_outer (rt_world (snd ?run)), ws_ledger := rt_ledger (snd ?run), ws_tick := rt_tick (snd ?run)\<rparr>)"
    by (simp add: run_buffered_def Let_def case_prod_beta in_step_def)
  with life show ?thesis by (auto simp: events_published intro: exI [of _ "attempts tr"])
qed

text \<open>The last event of a trace, as the status of its result decides it.\<close>

fun final_event :: "work_order_status \<Rightarrow> event_type" where
  "final_event WS_completed = ET_task_completed"
| "final_event WS_failed = ET_task_failed"
| "final_event WS_approval_required = ET_approval_requested"
| "final_event _ = ET_task_blocked"

definition outcome_events :: "event_type list" where
  "outcome_events = [ET_task_completed, ET_task_failed, ET_task_blocked, ET_approval_requested, ET_task_retried]"

lemma rounds_no_outcome: "filter (\<lambda>t. t \<in> set outcome_events) (rounds n) = []"
  by (induction n) (simp_all add: outcome_events_def)

lemma lifecycle_outcome:
  "lifecycle r a evs us \<Longrightarrow> filter (\<lambda>t. t \<in> set outcome_events) evs = [final_event (wx_status r)]"
  by (cases "wx_status r")
    (auto simp: lifecycle_def finished_def rounds_no_outcome, simp_all add: outcome_events_def)

text \<open>The events of an outcome that a list of stored rows holds for a task.\<close>

definition outcomes_of :: "event_row list \<Rightarrow> event_type list" where
  "outcomes_of rows = filter (\<lambda>t. t \<in> set outcome_events) (map er_type rows)"

fun status_event :: "task_status \<Rightarrow> event_type list" where
  "status_event TS_completed = [ET_task_completed]"
| "status_event TS_failed = [ET_task_failed]"
| "status_event TS_pending = [ET_task_failed, ET_task_retried]"
| "status_event TS_awaiting_approval = [ET_approval_requested]"
| "status_event TS_blocked = [ET_task_blocked]"
| "status_event _ = []"

lemma er_type_row [simp]: "er_type (eventEnvelopeToRow e) = ev_type e"
  by (simp add: eventEnvelopeToRow_def)

lemma commit_events_outcome:
  assumes "lifecycle result a (map ev_type trace) us" and "wx_status result = ci_status input"
    and "ci_events input = trace"
  shows "outcomes_of (commit_events env tick input row) = status_event (kr_status (committed_row (ci_status input) row))"
proof -
  have "outcomes_of (commit_events env tick input row) =
      final_event (ci_status input) # (if retries (ci_status input) row then [ET_task_retried] else [])"
    using lifecycle_outcome [OF assms(1)] assms(2,3)
    by (simp add: outcomes_of_def commit_events_def comp_def retry_event_def createEvent_def)
      (simp add: outcome_events_def)
  then show ?thesis
    by (cases "ci_status input") (auto simp: committed_row_def commit_path_def retries_def)
qed

text \<open>A delivered job of a task is one commit of what its run came to.\<close>

lemma job_commits:
  assumes "reliable_adapters cfg"
    and "parseWorkOrder payload = Inr order" and "wo_taskId order = Some i"
  obtains input a us result r d' s' where
    "commitOutcome (wk_env cfg) (ws_tick s') add_job input (ws_db s) = (r, d')"
    "execute_work_order_job cfg readers add_job payload s =
      ((case r of Inl e \<Rightarrow> Inl (JobThrew e) | Inr outcome \<Rightarrow> Inr (Some outcome)), s'\<lparr>ws_tick := ws_tick s' + 1, ws_db := d'\<rparr>)"
    "ci_taskId input = i" "ci_organizationId input = wo_organizationId order"
    "lifecycle result a (map ev_type (ci_events input)) us" "wx_status result = ci_status input"
proof -
  obtain result trace s' a us where
      run: "run_buffered (worker_deps cfg) (read_gates readers order) s = (Inr (result, trace), s')"
      and db: "ws_db s' = ws_db s" and life: "lifecycle result a (map ev_type trace) us"
    using run_buffered_reliable [OF assms(1)] by blast
  let ?input = "\<lparr>ci_taskId = i, ci_organizationId = wo_organizationId order, ci_status = wx_status result,
      ci_events = trace, ci_order = order, ci_actor = None\<rparr>"
  obtain r d' where c: "commitOutcome (wk_env cfg) (ws_tick s') add_job ?input (ws_db s) = (r, d')"
    by fastforce
  have "execute_work_order_job cfg readers add_job payload s =
      ((case r of Inl e \<Rightarrow> Inl (JobThrew e) | Inr outcome \<Rightarrow> Inr (Some outcome)), s'\<lparr>ws_tick := ws_tick s' + 1, ws_db := d'\<rparr>)"
    by (simp add: execute_work_order_job_def assms(2,3) bind_act_def run gets_def seq_act_def modify_def
        on_db_def ret_def db c split: sum.split)
  with c life show thesis by (intro that [of s' ?input r d' result a us]) simp_all
qed

section \<open>Properties\<close>

text \<open>
  The stored task and the stored events agree. A delivered job for a task always commits or changes
  nothing in the database: when the commit is applied, the events table has gained rows whose outcome
  events are exactly those of the row's new status (completed, blocked, approval requested, failed, or
  failed and retried for a row that is pending again), and otherwise neither has changed. This holds for
  every payload the worker accepts and every behaviour of the adapters' executions.
\<close>

theorem job_row_and_events_agree:
  assumes "reliable_adapters cfg"
    and "parseWorkOrder payload = Inr order" and "wo_taskId order = Some i"
  shows "case execute_work_order_job cfg readers add_job payload s of
      (Inr (Some (Applied status again)), s') \<Rightarrow>
        (\<exists>rows. db_events (ws_db s') = db_events (ws_db s) @ rows \<and> outcomes_of rows = status_event status)
        \<and> map_option kr_status (find_task i (wo_organizationId order) (ws_db s')) = Some status
    | (Inr (Some (NotApplied why)), s') \<Rightarrow> ws_db s' = ws_db s
    | (Inr None, s') \<Rightarrow> False
    | (Inl (JobThrew e), s') \<Rightarrow> ws_db s' = ws_db s \<and> (\<exists>c. e = DbError c)
    | (Inl (RunThrew e), s') \<Rightarrow> False"
proof -
  obtain input a us result r d' s' where c: "commitOutcome (wk_env cfg) (ws_tick s') add_job input (ws_db s) = (r, d')"
    and job: "execute_work_order_job cfg readers add_job payload s =
      ((case r of Inl e \<Rightarrow> Inl (JobThrew e) | Inr outcome \<Rightarrow> Inr (Some outcome)), s'\<lparr>ws_tick := ws_tick s' + 1, ws_db := d'\<rparr>)"
    and input: "ci_taskId input = i" "ci_organizationId input = wo_organizationId order"
    and life: "lifecycle result a (map ev_type (ci_events input)) us" "wx_status result = ci_status input"
    by (rule job_commits [OF assms])
  from c show ?thesis
  proof (cases rule: commit_cases)
    case unchanged
    from c have "\<And>e. r = Inl e \<Longrightarrow> \<exists>c. e = DbError c"
      using wp_Inl [OF commitOutcome_wp] by blast
    with unchanged job show ?thesis
      by (auto simp: was_applied_def split: sum.split commit_outcome.split)
  next
    case (applied row)
    from find_commit_effect [OF applied(1)]
    have "find_task i (wo_organizationId order) d' = Some (committed_row (ci_status input) row)"
      by (simp add: applied(3) input)
    with applied(3,4) job commit_events_outcome [OF life refl, of "wk_env cfg" "ws_tick s'" row]
    show ?thesis by (auto simp: commit_effect_def)
  qed
qed

definition sample_config :: "(unit, unit) worker_config" where
  "sample_config =
     \<lparr>wk_capabilityCatalog = Some sample_catalog, wk_workRegistry = None, wk_outboxBatchSize = None,
      wk_resolveModelAdapter = (\<lambda>_. None), wk_env = sample_env, wk_numText = (\<lambda>_. [])\<rparr>"

definition sample_payload :: js where
  "sample_payload = JObj [(''organizationId'', JStr ''org''), (''taskId'', JStr ''t1'')]"

definition sample_readers :: gate_readers where
  "sample_readers = \<lparr>gr_policy = (\<lambda>_. observer_input),
     gr_budget = (\<lambda>_. \<lparr>wb_budget = \<lparr>bu_scope = BS_task, bu_scopeRef = ''t1'', bu_limitUsd = 1\<rparr>, wb_spentUsd = 0\<rparr>)\<rparr>"

definition sample_worker :: "(unit, unit) worker" where
  "sample_worker = \<lparr>ws_db = sample_db, ws_world = (), ws_ledger = [], ws_tick = 0\<rparr>"

theorem job_row_and_events_agree_witness:
  "\<nexists>s'. execute_work_order_job sample_config sample_readers (\<lambda>_ _ _ q. (''1'', q)) sample_payload sample_worker
       = (Inr None, s')"
proof -
  have rel: "reliable_adapters sample_config"
    by (auto simp: reliable_adapters_def sample_config_def catalog_resolve_def sample_catalog_def
        catalog_register_def working_adapter_def busy_adapter_def split: if_splits)
  obtain order where "parseWorkOrder sample_payload = Inr order" "wo_taskId order = Some ''t1''"
    by (simp add: parseWorkOrder_def sample_payload_def requireString_def stringArray_def
        optionalString_def optionalBoolean_def optionalNumber_def gate_field_def)
  from job_row_and_events_agree [OF rel this, where readers = sample_readers
      and add_job = "\<lambda>_ _ _ q. (''1'', q)" and s = sample_worker]
  show ?thesis by auto
qed

end
