(* ===== verification/Objective_Service.thy ===== *)
theory Objective_Service
  imports Row_Mappers Policy_Engine
begin

text \<open>
  Objectives of the control plane (\<open>apps/control-plane/src/services\<close>: objective-service.ts and
  drizzle-objective-service.ts). The contract of \<open>ObjectiveService\<close> is the locale \<open>objective_service\<close>:
  what is created can be read back in its organisation and nowhere else, and creating one objective does
  not touch another. Both implementations are interpretations of it.
\<close>

section \<open>Creating an objective\<close>

record create_objective_input =
  co_requestedOutcome :: string
  co_definitionOfDone :: string
  co_scope :: scope
  co_riskLevel :: risk_level
  co_projectId :: "ident option"
  co_teamId :: "ident option"

definition event_actor :: "principal_context \<Rightarrow> actor" where
  "event_actor prin =
     \<lparr>actor_kind = (if pr_actorKind prin = KindHuman then ActorHuman else ActorOrchestrator),
      actor_id = pr_userId prin\<rparr>"

definition new_objective :: "ident \<Rightarrow> create_objective_input \<Rightarrow> principal_context \<Rightarrow> objective" where
  "new_objective i input prin =
     \<lparr>ob_id = i, ob_scope = co_scope input, ob_requesterId = pr_userId prin,
      ob_ownerId = pr_userId prin, ob_requestedOutcome = co_requestedOutcome input,
      ob_definitionOfDone = co_definitionOfDone input, ob_status = OS_draft,
      ob_riskLevel = co_riskLevel input, ob_projectId = co_projectId input,
      ob_teamId = co_teamId input, ob_dueAt = None, ob_completionSummary = None\<rparr>"

definition objective_created :: "env \<Rightarrow> nat \<Rightarrow> principal_context \<Rightarrow> ident \<Rightarrow> event_envelope" where
  "objective_created env tick prin i =
     createEvent env tick
       \<lparr>ce_type = ET_objective_created, ce_organizationId = pr_organizationId prin,
        ce_actor = event_actor prin, ce_objectiveId = Some i, ce_taskId = None, ce_correlationId = None,
        ce_causationId = None, ce_payloadRef = None, ce_now = None\<rparr>"

section \<open>The in-memory service\<close>

record 'b memory_objectives =
  om_store :: "(ident \<times> objective \<times> ident) list"
  om_bus :: 'b

definition on_bus :: "('b, exn, 'a) act \<Rightarrow> ('b memory_objectives, exn, 'a) act" where
  "on_bus m s = (case m (om_bus s) of (r, b) \<Rightarrow> (r, s\<lparr>om_bus := b\<rparr>))"

definition memory_create ::
    "(event_envelope \<Rightarrow> ('b, exn, unit) act) \<Rightarrow> env \<Rightarrow> nat \<Rightarrow> create_objective_input \<Rightarrow> principal_context \<Rightarrow>
     ('b memory_objectives, exn, objective) act" where
  "memory_create publish env tick input prin =
     (let i = fresh_id env tick;
          obj = new_objective i input prin
      in seq_act (modify (\<lambda>s. s\<lparr>om_store := map_set i (obj, pr_organizationId prin) (om_store s)\<rparr>))
         (seq_act (on_bus (publish (objective_created env (tick + 1) prin i)))
         (ret obj)))"

definition memory_get :: "ident \<Rightarrow> ident \<Rightarrow> ('b memory_objectives, exn, objective option) act" where
  "memory_get i org =
     gets (\<lambda>s. case map_of (om_store s) i of
                 None \<Rightarrow> None
               | Some (obj, owner_org) \<Rightarrow> if owner_org \<noteq> org then None else Some obj)"

section \<open>The Postgres service\<close>

definition drizzle_create ::
    "env \<Rightarrow> nat \<Rightarrow> create_objective_input \<Rightarrow> principal_context \<Rightarrow> ('j db, exn, objective) act" where
  "drizzle_create env tick input prin =
     (let i = fresh_id env tick;
          obj = new_objective i input prin;
          event = objective_created env (tick + 1) prin i
      in seq_act
           (transaction
              (seq_act (insert_objective (objectiveToRow obj (pr_organizationId prin)))
                       (insert_events [eventEnvelopeToRow event])))
           (ret obj))"

definition objective_at :: "ident \<Rightarrow> ident \<Rightarrow> objective_row \<Rightarrow> bool" where
  "objective_at i org r = (or_id r = i \<and> or_organizationId r = org)"

definition drizzle_get :: "ident \<Rightarrow> ident \<Rightarrow> ('j db, exn, objective option) act" where
  "drizzle_get i org = gets (\<lambda>d. map_option rowToObjective (find (objective_at i org) (db_objectives d)))"

section \<open>The contract\<close>

text \<open>What is read back: the objective as created, its team only for a TEAM scope where rows are kept.\<close>

definition as_read :: "objective \<Rightarrow> objective \<Rightarrow> bool" where
  "as_read obj obj' \<longleftrightarrow> obj' = obj \<or> (ob_scope obj \<noteq> TEAM \<and> obj' = obj\<lparr>ob_teamId := None\<rparr>)"

locale objective_service =
  fixes create :: "env \<Rightarrow> nat \<Rightarrow> create_objective_input \<Rightarrow> principal_context \<Rightarrow> ('s, exn, objective) act"
    and get :: "ident \<Rightarrow> ident \<Rightarrow> ('s, exn, objective option) act"
  assumes get_reads: "\<exists>found. get i org s = (Inr found, s)"
    and create_new: "create env tick input prin s = (Inr obj, s') \<Longrightarrow>
      obj = new_objective (fresh_id env tick) input prin"
    and create_get: "create env tick input prin s = (Inr obj, s') \<Longrightarrow>
      \<exists>obj'. fst (get (ob_id obj) (pr_organizationId prin) s') = Inr (Some obj') \<and> as_read obj obj'"
    and create_isolated: "create env tick input prin s = (Inr obj, s') \<Longrightarrow> org \<noteq> pr_organizationId prin \<Longrightarrow>
      fst (get (ob_id obj) org s') = Inr None"
    and create_frame: "create env tick input prin s = (r, s') \<Longrightarrow> i \<noteq> fresh_id env tick \<Longrightarrow>
      fst (get i org s') = fst (get i org s)"
begin

lemma get_state [simp]: "snd (get i org s) = s"
  using get_reads [of i org s] by auto

text \<open>Two objectives created one after the other are both readable by their own organisation only.\<close>

lemma read_across_creates:
  assumes "create env tick input prin s = (Inr obj, s')"
    and "create env tick' input' prin' s' = (r, s'')" and "fresh_id env tick' \<noteq> fresh_id env tick"
  shows "(\<exists>obj'. fst (get (ob_id obj) (pr_organizationId prin) s'') = Inr (Some obj') \<and> as_read obj obj')
    \<and> (\<forall>org. org \<noteq> pr_organizationId prin \<longrightarrow> fst (get (ob_id obj) org s'') = Inr None)"
proof -
  have "ob_id obj = fresh_id env tick"
    using create_new [OF assms(1)] by (simp add: new_objective_def)
  then have "fst (get (ob_id obj) org s'') = fst (get (ob_id obj) org s')" for org
    using create_frame [OF assms(2), of "ob_id obj" org] assms(3) by simp
  with create_get [OF assms(1)] create_isolated [OF assms(1)] show ?thesis by simp
qed

end

lemma memory_create_state:
  "snd (memory_create publish env tick input prin s) =
     s\<lparr>om_store := map_set (fresh_id env tick)
          (new_objective (fresh_id env tick) input prin, pr_organizationId prin) (om_store s),
       om_bus := snd (publish (objective_created env (tick + 1) prin (fresh_id env tick)) (om_bus s))\<rparr>"
  by (simp add: memory_create_def Let_def seq_act_def bind_act_def modify_def on_bus_def ret_def
      case_prod_beta split: sum.split)

lemma memory_create_result:
  "memory_create publish env tick input prin s = (Inr obj, s') \<Longrightarrow> obj = new_objective (fresh_id env tick) input prin"
  by (auto simp: memory_create_def Let_def seq_act_def bind_act_def modify_def on_bus_def ret_def
      case_prod_beta split: sum.splits)

interpretation memory_objectives: objective_service "memory_create publish" memory_get
  for publish :: "event_envelope \<Rightarrow> ('b, exn, unit) act"
proof
  fix env tick input prin org r i
  fix s s' :: "'b memory_objectives" and obj
  show "\<exists>found. memory_get i org s = (Inr found, s)"
    by (simp add: memory_get_def gets_def)
  show "memory_create publish env tick input prin s = (Inr obj, s') \<Longrightarrow> obj = new_objective (fresh_id env tick) input prin"
    by (rule memory_create_result)
  show "memory_create publish env tick input prin s = (Inr obj, s') \<Longrightarrow>
      \<exists>obj'. fst (memory_get (ob_id obj) (pr_organizationId prin) s') = Inr (Some obj') \<and> as_read obj obj'"
    using memory_create_state [of publish env tick input prin s] memory_create_result [of publish env tick input prin s]
    by (auto simp: memory_get_def gets_def as_read_def new_objective_def)
  show "memory_create publish env tick input prin s = (Inr obj, s') \<Longrightarrow> org \<noteq> pr_organizationId prin \<Longrightarrow>
      fst (memory_get (ob_id obj) org s') = Inr None"
    using memory_create_state [of publish env tick input prin s] memory_create_result [of publish env tick input prin s]
    by (auto simp: memory_get_def gets_def new_objective_def)
  show "memory_create publish env tick input prin s = (r, s') \<Longrightarrow> i \<noteq> fresh_id env tick \<Longrightarrow>
      fst (memory_get i org s') = fst (memory_get i org s)"
    using memory_create_state [of publish env tick input prin s] by (auto simp: memory_get_def gets_def)
qed

lemma objectiveToRow_key [simp]:
  "or_id (objectiveToRow obj org) = ob_id obj"
  "or_organizationId (objectiveToRow obj org) = org"
  by (simp_all add: objectiveToRow_def)

lemma rowToObjective_read: "as_read obj (rowToObjective (objectiveToRow obj org))"
  by (simp add: as_read_def rowToObjective_def objectiveToRow_def)

text \<open>What the Postgres service does: both rows, or neither.\<close>

lemma drizzle_create_wp:
  "wp (drizzle_create env tick input prin)
     (\<lambda>obj d'. obj = new_objective (fresh_id env tick) input prin \<and> db_ok d'
        \<and> d' = d\<lparr>db_objectives := db_objectives d @ [objectiveToRow obj (pr_organizationId prin)],
                 db_events := db_events d @ [eventEnvelopeToRow (objective_created env (tick + 1) prin (ob_id obj))]\<rparr>)
     (\<lambda>e d'. d' = d \<and> (\<exists>c. e = DbError c)) d"
  by (simp add: drizzle_create_def Let_def new_objective_def)

lemma find_new_objective:
  assumes "db_ok d'" and "db_objectives d' = db_objectives d @ [row]"
  shows "find (objective_at (or_id row) org) (db_objectives d') = (if org = or_organizationId row then Some row else None)"
proof -
  have "unique_on (Some \<circ> or_id) (db_objectives d')"
    using assms(1) by (simp add: db_ok_def donna_constraints)
  then have "or_id row \<notin> set (map or_id (db_objectives d))"
    using assms(2) by (simp add: unique_on_def List.map_filter_def)
  then have "find (objective_at (or_id row) org) (db_objectives d) = None"
    by (auto simp: find_None_conv objective_at_def image_iff)
  with assms(2) show ?thesis
    by (simp add: find_append) (simp add: objective_at_def)
qed

interpretation drizzle_objectives: objective_service drizzle_create "drizzle_get :: ident \<Rightarrow> ident \<Rightarrow> ('j db, exn, objective option) act"
proof
  fix env tick input prin i org r
  fix s s' :: "'j db" and obj
  note post = wp_Inr [OF drizzle_create_wp]
  show "\<exists>found. drizzle_get i org s = (Inr found, s)"
    by (simp add: drizzle_get_def gets_def)
  show "drizzle_create env tick input prin s = (Inr obj, s') \<Longrightarrow> obj = new_objective (fresh_id env tick) input prin"
    using post by blast
  show "drizzle_create env tick input prin s = (Inr obj, s') \<Longrightarrow>
      \<exists>obj'. fst (drizzle_get (ob_id obj) (pr_organizationId prin) s') = Inr (Some obj') \<and> as_read obj obj'"
  proof -
    assume "drizzle_create env tick input prin s = (Inr obj, s')"
    note p = post [OF this]
    have "find (objective_at (ob_id obj) (pr_organizationId prin)) (db_objectives s')
        = Some (objectiveToRow obj (pr_organizationId prin))"
      using find_new_objective [of s' s "objectiveToRow obj (pr_organizationId prin)" "pr_organizationId prin"] p
      by fastforce
    then show ?thesis
      by (simp add: drizzle_get_def gets_def rowToObjective_read)
  qed
  show "drizzle_create env tick input prin s = (Inr obj, s') \<Longrightarrow> org \<noteq> pr_organizationId prin \<Longrightarrow>
      fst (drizzle_get (ob_id obj) org s') = Inr None"
  proof -
    assume "drizzle_create env tick input prin s = (Inr obj, s')" and "org \<noteq> pr_organizationId prin"
    moreover note p = post [OF this(1)]
    ultimately show ?thesis
      using find_new_objective [of s' s "objectiveToRow obj (pr_organizationId prin)" org] p
      by (simp add: drizzle_get_def gets_def)
  qed
  show "drizzle_create env tick input prin s = (r, s') \<Longrightarrow> i \<noteq> fresh_id env tick \<Longrightarrow>
      fst (drizzle_get i org s') = fst (drizzle_get i org s)"
  proof -
    assume c: "drizzle_create env tick input prin s = (r, s')" and i: "i \<noteq> fresh_id env tick"
    show ?thesis
    proof (cases r)
      case (Inl e)
      with c wp_Inl [OF drizzle_create_wp] show ?thesis by blast
    next
      case (Inr obj)
      note p = post [OF c [unfolded Inr]]
      then have "find (objective_at i org) (db_objectives s') = find (objective_at i org) (db_objectives s)"
        using i by (simp add: find_append objective_at_def new_objective_def split: option.split)
      then show ?thesis by (simp add: drizzle_get_def gets_def)
    qed
  qed
qed

end
