(* ===== verification/Task_Dispatch.thy ===== *)
theory Task_Dispatch
  imports Objective_Service
begin

text \<open>
  Tasks and the queue's producer side in the control plane (\<open>apps/control-plane/src/services\<close>:
  task-service.ts, work-queue.ts and task-dispatcher.ts). The Postgres dispatcher writes the task, its
  event and its job in one transaction; the lemmas say exactly what it writes, and that the job it
  enqueues finds its task.
\<close>

section \<open>Tasks in memory\<close>

record create_task_input =
  ct_objectiveId :: ident
  ct_goal :: string
  ct_definitionOfDone :: string
  ct_requiredAuthority :: "authority_level option"

definition fresh_task :: "ident \<Rightarrow> create_task_input \<Rightarrow> task" where
  "fresh_task i input =
     \<lparr>tk_id = i, tk_objectiveId = ct_objectiveId input, tk_parentTaskId = None, tk_goal = ct_goal input,
      tk_definitionOfDone = ct_definitionOfDone input, tk_status = TS_pending, tk_executionClass = None,
      tk_requiredAuthority = coalesce (ct_requiredAuthority input) PREPARE, tk_idempotencyKey = None,
      tk_retryCount = 0, tk_maxRetries = 3\<rparr>"

definition task_created :: "env \<Rightarrow> nat \<Rightarrow> principal_context \<Rightarrow> ident \<Rightarrow> ident \<Rightarrow> event_envelope" where
  "task_created env tick prin objectiveId taskId =
     createEvent env tick
       \<lparr>ce_type = ET_task_created, ce_organizationId = pr_organizationId prin,
        ce_actor = event_actor prin, ce_objectiveId = Some objectiveId, ce_taskId = Some taskId,
        ce_correlationId = None, ce_causationId = None, ce_payloadRef = None, ce_now = None\<rparr>"

text \<open>The in-memory task service, and the queue that records what is enqueued, over one state.\<close>

record 'b memory_tasks =
  tm_store :: "(ident \<times> task) list"
  tm_enqueued :: "js list"
  tm_bus :: 'b

definition on_task_bus :: "('b, exn, 'a) act \<Rightarrow> ('b memory_tasks, exn, 'a) act" where
  "on_task_bus m s = (case m (tm_bus s) of (r, b) \<Rightarrow> (r, s\<lparr>tm_bus := b\<rparr>))"

definition memory_task_create ::
    "(event_envelope \<Rightarrow> ('b, exn, unit) act) \<Rightarrow> env \<Rightarrow> nat \<Rightarrow> create_task_input \<Rightarrow> principal_context \<Rightarrow>
     ('b memory_tasks, exn, task) act" where
  "memory_task_create publish env tick input prin =
     (let i = fresh_id env tick;
          t = fresh_task i input
      in seq_act (modify (\<lambda>s. s\<lparr>tm_store := map_set i t (tm_store s)\<rparr>))
         (seq_act (on_task_bus (publish (task_created env (tick + 1) prin (ct_objectiveId input) i)))
         (ret t)))"

definition memory_task_get :: "ident \<Rightarrow> ('b memory_tasks, exn, task option) act" where
  "memory_task_get i = gets (\<lambda>s. map_of (tm_store s) i)"

section \<open>The queue\<close>

definition memory_enqueue :: "js \<Rightarrow> ('b memory_tasks, exn, string) act" where
  "memory_enqueue order =
     seq_act (modify (\<lambda>s. s\<lparr>tm_enqueued := tm_enqueued s @ [order]\<rparr>))
       (gets (\<lambda>s. ''mem-'' @ nat_text (length (tm_enqueued s))))"

text \<open>\<open>JobAdder.addJob\<close> of graphile-worker is a parameter; the key is set when the order has a task.\<close>

definition graphile_enqueue ::
    "(string \<Rightarrow> js \<Rightarrow> js \<Rightarrow> ('q, exn, string) act) \<Rightarrow> js_record \<Rightarrow> ('q, exn, string) act" where
  "graphile_enqueue addJob order =
     addJob EXECUTE_WORK_ORDER_TASK (JObj order)
       (if js_get order ''taskId'' \<noteq> JUndefined then JObj [(''jobKey'', js_get order ''taskId'')] else JObj [])"

section \<open>Dispatching\<close>

record dispatch_input =
  di_objectiveId :: ident
  di_goal :: string
  di_definitionOfDone :: string
  di_requiredAuthority :: "authority_level option"
  di_hints :: work_order_hints

definition task_input :: "dispatch_input \<Rightarrow> create_task_input" where
  "task_input input =
     \<lparr>ct_objectiveId = di_objectiveId input, ct_goal = di_goal input,
      ct_definitionOfDone = di_definitionOfDone input, ct_requiredAuthority = di_requiredAuthority input\<rparr>"

definition newTask :: "env \<Rightarrow> nat \<Rightarrow> dispatch_input \<Rightarrow> task" where
  "newTask env tick input = fresh_task (fresh_id env tick) (task_input input)"

definition memory_dispatch ::
    "(event_envelope \<Rightarrow> ('b, exn, unit) act) \<Rightarrow> env \<Rightarrow> nat \<Rightarrow> dispatch_input \<Rightarrow> principal_context \<Rightarrow>
     ('b memory_tasks, exn, task \<times> string) act" where
  "memory_dispatch publish env tick input prin =
     bind_act (memory_task_create publish env tick (task_input input) prin) (\<lambda>t.
     bind_act (memory_enqueue (buildWorkOrder t (pr_organizationId prin) (di_hints input))) (\<lambda>jobId.
     ret (t, jobId)))"

definition drizzle_dispatch ::
    "'j add_job \<Rightarrow> env \<Rightarrow> nat \<Rightarrow> dispatch_input \<Rightarrow> principal_context \<Rightarrow> ('j db, exn, task \<times> string) act" where
  "drizzle_dispatch add_job env tick input prin =
     (let t = newTask env tick input;
          event = task_created env (tick + 1) prin (di_objectiveId input) (tk_id t)
      in bind_act
           (transaction
              (seq_act
                 (insert_task (taskToRow t (pr_organizationId prin) (wh_requiredCapabilities (di_hints input))))
              (seq_act (insert_events [eventEnvelopeToRow event])
                 (enqueue_job add_job EXECUTE_WORK_ORDER_TASK
                    (work_order_payload t (pr_organizationId prin) (di_hints input)) (tk_id t)))))
           (\<lambda>jobId. ret (t, jobId)))"

section \<open>What a dispatch writes\<close>

definition dispatched ::
    "'j add_job \<Rightarrow> env \<Rightarrow> nat \<Rightarrow> dispatch_input \<Rightarrow> principal_context \<Rightarrow> 'j db \<Rightarrow> 'j db" where
  "dispatched add_job env tick input prin d =
     (let t = newTask env tick input; org = pr_organizationId prin in
      d\<lparr>db_tasks := db_tasks d @ [taskToRow t org (wh_requiredCapabilities (di_hints input))],
        db_events := db_events d @
          [eventEnvelopeToRow (task_created env (tick + 1) prin (di_objectiveId input) (tk_id t))],
        db_queue := snd (add_job EXECUTE_WORK_ORDER_TASK (work_order_payload t org (di_hints input)) (tk_id t)
          (db_queue d))\<rparr>)"

lemma drizzle_dispatch_wp:
  "wp (drizzle_dispatch add_job env tick input prin)
     (\<lambda>(t, jobId) d'. t = newTask env tick input \<and> db_ok d' \<and> d' = dispatched add_job env tick input prin d)
     (\<lambda>e d'. d' = d \<and> (\<exists>c. e = DbError c)) d"
  by (simp add: drizzle_dispatch_def Let_def dispatched_def)

lemma taskToRow_simps [simp]:
  "kr_id (taskToRow t org caps) = tk_id t" "kr_organizationId (taskToRow t org caps) = org"
  "kr_status (taskToRow t org caps) = tk_status t" "kr_retryCount (taskToRow t org caps) = tk_retryCount t"
  "kr_maxRetries (taskToRow t org caps) = tk_maxRetries t"
  by (simp_all add: taskToRow_def)

lemma newTask_simps [simp]:
  "tk_status (newTask env tick input) = TS_pending" "tk_retryCount (newTask env tick input) = 0"
  "tk_maxRetries (newTask env tick input) = 3" "tk_id (newTask env tick input) = fresh_id env tick"
  by (simp_all add: newTask_def fresh_task_def)

lemma find_new_task:
  assumes "db_ok d'" and "db_tasks d' = db_tasks d @ [row]"
  shows "find (\<lambda>r. kr_id r = kr_id row \<and> kr_organizationId r = kr_organizationId row) (db_tasks d') = Some row"
proof -
  have "unique_on (Some \<circ> kr_id) (db_tasks d')"
    using assms(1) by (simp add: db_ok_def donna_constraints)
  then have "kr_id row \<notin> set (map kr_id (db_tasks d))"
    using assms(2) by (simp add: unique_on_def List.map_filter_def)
  then have "find (\<lambda>r. kr_id r = kr_id row \<and> kr_organizationId r = kr_organizationId row) (db_tasks d) = None"
    by (auto simp: find_None_conv image_iff)
  with assms(2) show ?thesis by (simp add: find_append)
qed

text \<open>What the worker reads in the job of a dispatch.\<close>

lemma dispatched_order_fields:
  assumes "parseWorkOrder (work_order_payload t org h) = Inr w"
  shows "wo_organizationId w = org \<and> wo_taskId w = Some (tk_id t)
    \<and> wo_requiredCapabilities w = wh_requiredCapabilities h \<and> wo_actor w = None
    \<and> wo_correlationId w = None \<and> wo_policy w = None \<and> wo_budget w = None"
proof -
  have get: "js_get (copy_fields (work_order_fields t org h)) k = json_copy (js_get (work_order_fields t org h) k)" for k
    using work_order_payload_get [of t org h k] by simp
  have payload: "work_order_payload t org h = JObj (copy_fields (work_order_fields t org h))"
    using work_order_payload_get by blast
  let ?r = "copy_fields (work_order_fields t org h)"
  have looked: "js_get ?r ''organizationId'' = JStr org" "js_get ?r ''taskId'' = JStr (tk_id t)"
    "js_get ?r ''requiredCapabilities'' = JArr (map JStr (wh_requiredCapabilities h))"
    "js_get ?r ''correlationId'' = JUndefined" "js_get ?r ''policy'' = JUndefined"
    "js_get ?r ''budget'' = JUndefined"
    by (simp_all only: get work_order_fields_get json_copy_texts json_copy.simps(1,2,5-))
  have fields: "requireString ?r ''organizationId'' = Inr x \<Longrightarrow> x = org"
    "optionalString ?r ''taskId'' = Inr (Some (tk_id t))" "optionalString ?r ''correlationId'' = Inr None"
    "stringArray ?r ''requiredCapabilities'' = Inr (wh_requiredCapabilities h)"
    "gate_field ?r ''policy'' = Inr None" "gate_field ?r ''budget'' = Inr None" for x
    by (auto simp: requireString_def optionalString_def stringArray_def gate_field_def refuse_def looked
        split: if_splits)
  from assms show ?thesis
    unfolding payload parseWorkOrder_def by (auto simp: and_then_Inr_iff fields dest: fields(1))
qed

section \<open>Properties\<close>

text \<open>
  C24: Dispatching is all or nothing. When the Postgres dispatcher returns, exactly one pending task with
  three retries, its creation event and one job, keyed by the task, have been written in one step, and the
  constraints hold; when it throws, it is the database's refusal and nothing has changed. The job's
  payload, when the worker accepts it, names the organisation and the task of the stored row, so the
  worker finds it pending.
\<close>

theorem dispatch_atomic:
  "case drizzle_dispatch add_job env tick input prin d of
     (Inl e, d') \<Rightarrow> d' = d \<and> (\<exists>c. e = DbError c)
   | (Inr (t, jobId), d') \<Rightarrow>
       db_ok d' \<and> d' = dispatched add_job env tick input prin d
       \<and> (\<forall>w. parseWorkOrder (work_order_payload t (pr_organizationId prin) (di_hints input)) = Inr w \<longrightarrow>
            wo_taskId w = Some (tk_id t)
            \<and> (\<exists>row. find (\<lambda>r. kr_id r = tk_id t \<and> kr_organizationId r = wo_organizationId w) (db_tasks d') = Some row
                 \<and> kr_status row = TS_pending \<and> kr_retryCount row = 0 \<and> kr_maxRetries row = 3))"
proof -
  obtain r d' where c: "drizzle_dispatch add_job env tick input prin d = (r, d')" by fastforce
  show ?thesis
  proof (cases r)
    case (Inl e)
    with c wp_Inl [OF drizzle_dispatch_wp] show ?thesis by fastforce
  next
    case (Inr res)
    obtain t jobId where res: "res = (t, jobId)" by fastforce
    from wp_Inr [OF drizzle_dispatch_wp c [unfolded Inr]]
    have post: "t = newTask env tick input" "db_ok d'" "d' = dispatched add_job env tick input prin d"
      by (auto simp: res)
    have "db_tasks d' = db_tasks d @ [taskToRow t (pr_organizationId prin) (wh_requiredCapabilities (di_hints input))]"
      using post by (simp add: dispatched_def Let_def)
    from find_new_task [OF post(2) this]
    have "find (\<lambda>r. kr_id r = tk_id t \<and> kr_organizationId r = pr_organizationId prin) (db_tasks d')
        = Some (taskToRow t (pr_organizationId prin) (wh_requiredCapabilities (di_hints input)))"
      by simp
    with c Inr res post show ?thesis
      by (auto dest: dispatched_order_fields)
  qed
qed

definition sample_dispatch :: dispatch_input where
  "sample_dispatch =
     \<lparr>di_objectiveId = ''o1'', di_goal = ''goal'', di_definitionOfDone = ''done'',
      di_requiredAuthority = None, di_hints = no_hints\<rparr>"

definition sample_principal :: principal_context where
  "sample_principal =
     \<lparr>pr_userId = ''u1'', pr_organizationId = ''org'', pr_role = Owner, pr_actorKind = KindHuman,
      pr_teamIds = [], pr_projectIds = []\<rparr>"

lemma sample_dispatched_ok:
  "db_ok (dispatched (\<lambda>_ _ _ q. (''1'', q)) numbered_env 0 sample_dispatch sample_principal sample_db)"
  "db_ok (sample_db\<lparr>db_tasks := db_tasks sample_db @
     [taskToRow (newTask numbered_env 0 sample_dispatch) (pr_organizationId sample_principal)
       (wh_requiredCapabilities (di_hints sample_dispatch))]\<rparr>)"
  by code_simp+

theorem dispatch_atomic_witness:
  "\<exists>t jobId d'. drizzle_dispatch (\<lambda>_ _ _ q. (''1'', q)) numbered_env 0 sample_dispatch sample_principal sample_db
       = (Inr (t, jobId), d')
     \<and> (\<forall>w. parseWorkOrder (work_order_payload t ''org'' no_hints) = Inr w \<longrightarrow> wo_taskId w = Some (tk_id t))"
proof -
  let ?run = "drizzle_dispatch (\<lambda>_ _ _ q. (''1'', q)) numbered_env 0 sample_dispatch sample_principal sample_db"
  have "\<exists>r. ?run = (Inr r, dispatched (\<lambda>_ _ _ q. (''1'', q)) numbered_env 0 sample_dispatch sample_principal sample_db)"
  proof (cases "fst ?run")
    case (Inl e)
    have "wp (drizzle_dispatch (\<lambda>_ _ _ q. (''1'', q)) numbered_env 0 sample_dispatch sample_principal)
        (\<lambda>_ _. True) (\<lambda>_ _. False) sample_db"
      using sample_dispatched_ok by (simp add: drizzle_dispatch_def Let_def dispatched_def)
    with Inl show ?thesis by (simp add: wp_def case_prod_beta)
  next
    case (Inr r)
    then have "?run = (Inr r, snd ?run)" by (simp add: prod_eq_iff)
    from wp_Inr [OF drizzle_dispatch_wp this] this show ?thesis by (auto split: prod.splits)
  qed
  then obtain t jobId d' where "?run = (Inr (t, jobId), d')" by auto
  with dispatch_atomic [where add_job = "\<lambda>_ _ _ q. (''1'', q)" and env = numbered_env and tick = 0
      and input = sample_dispatch and prin = sample_principal and d = sample_db]
  show ?thesis by (auto simp: sample_dispatch_def sample_principal_def)
qed

end
