(* ===== verification/Worker_Concurrency.thy ===== *)
theory Worker_Concurrency
  imports Worker_Runtime Task_Dispatch
begin

text \<open>
  Jobs that run at the same time (\<open>apps/worker/src/worker.ts\<close> with \<open>concurrency: 4\<close>, \<open>task-state.ts\<close>): slots
  that each work on one job, interleaved at every statement of the database and every delivery to the bus.
  The queue is as weak as its documentation allows: it may deliver any payload, again and more than once,
  and a job may stop at any point. What a transaction has written appears when it commits, and
  \<open>select .. for update\<close> waits while another transaction holds the row, as Postgres does under read
  committed. The lemmas show that the row lock makes the commits atomic, that in every reachable state the
  events stored for a task are the history of its row, and that the outbox loses nothing.
\<close>

section \<open>Slots and steps\<close>

text \<open>Where a slot is in its job: \<open>execute-work-order\<close> in the first constructors, \<open>dispatch-outbox\<close> in the last.\<close>

datatype slot =
    Free
  | Received js
  | Tracing "event_envelope list"
  | Finished commit_input
  | Holding commit_input task_row
  | Delivering "event_envelope list" "ident list"

text \<open>The database, the slots of all workers, and what the delivered bus has been handed so far.\<close>

record 'j system =
  sy_db :: "'j db"
  sy_slots :: "slot list"
  sy_bus :: "event_envelope list"

definition in_slot :: "nat \<Rightarrow> slot \<Rightarrow> 'j system \<Rightarrow> bool" where
  "in_slot n s sys \<longleftrightarrow> n < length (sy_slots sys) \<and> sy_slots sys ! n = s"

definition put_slot :: "nat \<Rightarrow> slot \<Rightarrow> 'j system \<Rightarrow> 'j system" where
  "put_slot n s sys = sys\<lparr>sy_slots := (sy_slots sys)[n := s]\<rparr>"

text \<open>The row lock of \<open>for update\<close>: no slot's transaction holds the row.\<close>

fun holds_row :: "ident \<Rightarrow> ident \<Rightarrow> slot \<Rightarrow> bool" where
  "holds_row i org (Holding input row) = (ci_taskId input = i \<and> ci_organizationId input = org)"
| "holds_row i org _ = False"

definition unlocked :: "ident \<Rightarrow> ident \<Rightarrow> 'j system \<Rightarrow> bool" where
  "unlocked i org sys = (\<forall>s \<in> set (sy_slots sys). \<not> holds_row i org s)"

text \<open>
  What a run hands to the commit of its task, or to the outbox when the order has no task. The world, the
  ledger and the supply of ids are whatever the other runs have made of them.
\<close>

inductive ran_task :: "('w, 'e) worker_config \<Rightarrow> gate_readers \<Rightarrow> js \<Rightarrow> commit_input \<Rightarrow> bool"
    for cfg :: "('w, 'e) worker_config" and readers payload where
  "parseWorkOrder payload = Inr order \<Longrightarrow> wo_taskId order = Some i \<Longrightarrow>
   run_buffered (worker_deps cfg) (read_gates readers order) (s :: (unit, 'w) worker) =
     (Inr (result, trace) :: 'e job_error + _, s') \<Longrightarrow>
   ran_task cfg readers payload
     \<lparr>ci_taskId = i, ci_organizationId = wo_organizationId order, ci_status = wx_status result,
      ci_events = trace, ci_order = order, ci_actor = None\<rparr>"

inductive ran_adhoc :: "('w, 'e) worker_config \<Rightarrow> gate_readers \<Rightarrow> js \<Rightarrow> event_envelope list \<Rightarrow> bool"
    for cfg :: "('w, 'e) worker_config" and readers payload where
  "parseWorkOrder payload = Inr order \<Longrightarrow> wo_taskId order = None \<Longrightarrow>
   run_buffered (worker_deps cfg) (read_gates readers order) (s :: (unit, 'w) worker) =
     (Inr (result, trace) :: 'e job_error + _, s') \<Longrightarrow>
   ran_adhoc cfg readers payload trace"

text \<open>
  What the other services do to the database: no task changes, and the events they write belong to no task.
\<close>

definition changes_elsewhere :: "'j db \<Rightarrow> 'j db \<Rightarrow> bool" where
  "changes_elsewhere d d' \<longleftrightarrow> db_ok d' \<and> db_tasks d' = db_tasks d
     \<and> (\<exists>new. db_events d' = db_events d @ new
          \<and> (\<forall>r \<in> set new. er_taskId r = None \<and> er_dispatchedAt r = None))"

inductive worker_step ::
    "('w, 'e) worker_config \<Rightarrow> gate_readers \<Rightarrow> 'j add_job \<Rightarrow> 'j system \<Rightarrow> 'j system \<Rightarrow> bool"
    for cfg readers and add_job :: "'j add_job" where
  receive: "in_slot n Free sys \<Longrightarrow>
    worker_step cfg readers add_job sys (put_slot n (Received payload) sys)"
| run_for_task: "in_slot n (Received payload) sys \<Longrightarrow> ran_task cfg readers payload input \<Longrightarrow>
    worker_step cfg readers add_job sys (put_slot n (Finished input) sys)"
| run_adhoc: "in_slot n (Received payload) sys \<Longrightarrow> ran_adhoc cfg readers payload trace \<Longrightarrow>
    worker_step cfg readers add_job sys (put_slot n (Tracing trace) sys)"
| publish: "in_slot n (Tracing (event # rest)) sys \<Longrightarrow> outbox_publish event (sy_db sys) = (Inr (), d') \<Longrightarrow>
    worker_step cfg readers add_job sys (put_slot n (Tracing rest) sys\<lparr>sy_db := d'\<rparr>)"
| lock: "in_slot n (Finished input) sys \<Longrightarrow>
    find_task (ci_taskId input) (ci_organizationId input) (sy_db sys) = Some row \<Longrightarrow>
    unlocked (ci_taskId input) (ci_organizationId input) sys \<Longrightarrow>
    worker_step cfg readers add_job sys (put_slot n (Holding input row) sys)"
| commit: "in_slot n (Holding input row) sys \<Longrightarrow>
    transaction (commit_row (wk_env cfg) tick add_job input row) (sy_db sys) = (r, d') \<Longrightarrow>
    worker_step cfg readers add_job sys (put_slot n Free sys\<lparr>sy_db := d'\<rparr>)"
| fetch: "in_slot n Free sys \<Longrightarrow>
    worker_step cfg readers add_job sys
      (put_slot n (Delivering (db_fetchUnpublished (batch_size cfg) (db_events (sy_db sys))) []) sys)"
| deliver: "in_slot n (Delivering (event # rest) ids) sys \<Longrightarrow>
    worker_step cfg readers add_job sys
      (put_slot n (Delivering rest (ids @ [ev_id event])) sys\<lparr>sy_bus := sy_bus sys @ [event]\<rparr>)"
| mark: "in_slot n (Delivering [] ids) sys \<Longrightarrow> ids \<noteq> [] \<Longrightarrow>
    worker_step cfg readers add_job sys
      (put_slot n Free sys\<lparr>sy_db := (sy_db sys)\<lparr>db_events := db_markPublished now ids (db_events (sy_db sys))\<rparr>\<rparr>)"
| stop: "in_slot n s sys \<Longrightarrow> worker_step cfg readers add_job sys (put_slot n Free sys)"
| dispatch: "drizzle_dispatch add_job env tick input prin (sy_db sys) = (r, d') \<Longrightarrow>
    worker_step cfg readers add_job sys (sys\<lparr>sy_db := d'\<rparr>)"
| elsewhere: "changes_elsewhere (sy_db sys) d' \<Longrightarrow>
    worker_step cfg readers add_job sys (sys\<lparr>sy_db := d'\<rparr>)"

inductive_cases worker_stepE: "worker_step cfg readers add_job sys sys'"

text \<open>The system as it starts: free slots over a database.\<close>

definition started :: "nat \<Rightarrow> 'j db \<Rightarrow> 'j system" where
  "started n d = \<lparr>sy_db = d, sy_slots = replicate n Free, sy_bus = []\<rparr>"

section \<open>The database one operation at a time\<close>

text \<open>The same operations on the database alone, each of them whole.\<close>

inductive atomic_step ::
    "('w, 'e) worker_config \<Rightarrow> gate_readers \<Rightarrow> 'j add_job \<Rightarrow> 'j db \<Rightarrow> 'j db \<Rightarrow> bool"
    for cfg readers and add_job :: "'j add_job" where
  commits: "ran_task cfg readers payload input \<Longrightarrow>
    commitOutcome (wk_env cfg) tick add_job input d = (r, d') \<Longrightarrow> atomic_step cfg readers add_job d d'"
| publishes: "ran_adhoc cfg readers payload trace \<Longrightarrow> event \<in> set trace \<Longrightarrow>
    outbox_publish event d = (Inr (), d') \<Longrightarrow> atomic_step cfg readers add_job d d'"
| marks: "ids \<noteq> [] \<Longrightarrow>
    atomic_step cfg readers add_job d (d\<lparr>db_events := db_markPublished now ids (db_events d)\<rparr>)"
| dispatches: "drizzle_dispatch add_job env tick input prin d = (r, d') \<Longrightarrow>
    atomic_step cfg readers add_job d d'"
| others: "changes_elsewhere d d' \<Longrightarrow>
    atomic_step cfg readers add_job d d'"

section \<open>What a slot knows\<close>

fun slot_ok :: "('w, 'e) worker_config \<Rightarrow> gate_readers \<Rightarrow> 'j db \<Rightarrow> slot \<Rightarrow> bool" where
  "slot_ok cfg readers d (Tracing rest) = (\<exists>payload trace. ran_adhoc cfg readers payload trace \<and> set rest \<subseteq> set trace)"
| "slot_ok cfg readers d (Finished input) = (\<exists>payload. ran_task cfg readers payload input)"
| "slot_ok cfg readers d (Holding input row) \<longleftrightarrow>
     (\<exists>payload. ran_task cfg readers payload input)
     \<and> find_task (ci_taskId input) (ci_organizationId input) d = Some row"
| "slot_ok cfg readers d _ = True"

text \<open>Two slots that hold the same row are the same slot.\<close>

definition locks_apart :: "slot list \<Rightarrow> bool" where
  "locks_apart slots \<longleftrightarrow> (\<forall>i org m n. m < length slots \<longrightarrow> n < length slots \<longrightarrow>
     holds_row i org (slots ! m) \<longrightarrow> holds_row i org (slots ! n) \<longrightarrow> m = n)"

definition slots_ok :: "('w, 'e) worker_config \<Rightarrow> gate_readers \<Rightarrow> 'j system \<Rightarrow> bool" where
  "slots_ok cfg readers sys \<longleftrightarrow>
     (\<forall>s \<in> set (sy_slots sys). slot_ok cfg readers (sy_db sys) s) \<and> locks_apart (sy_slots sys)"

lemma put_slot_simps [simp]:
  "sy_db (put_slot n s sys) = sy_db sys" "sy_bus (put_slot n s sys) = sy_bus sys"
  "sy_slots (put_slot n s sys) = (sy_slots sys)[n := s]"
  by (simp_all add: put_slot_def)

lemma in_slot_set: "in_slot n s sys \<Longrightarrow> s \<in> set (sy_slots sys)"
  by (auto simp: in_slot_def)

lemma set_put: "x \<in> set (xs[n := y]) \<Longrightarrow> x = y \<or> x \<in> set xs"
  using set_update_subset_insert [of xs n y] by auto

lemma nth_put: "m < length xs \<Longrightarrow> xs[n := y] ! m = (if m = n then y else xs ! m)"
  by simp

lemma locks_apart_free: "locks_apart slots \<Longrightarrow> \<forall>i org. \<not> holds_row i org s \<Longrightarrow> locks_apart (slots[n := s])"
  unfolding locks_apart_def by (auto simp: nth_put split: if_splits)

lemma locks_apart_lock:
  "locks_apart slots \<Longrightarrow> \<forall>s \<in> set slots. \<not> holds_row (ci_taskId input) (ci_organizationId input) s \<Longrightarrow>
     locks_apart (slots[n := Holding input row])"
  unfolding locks_apart_def by (auto simp: nth_put split: if_splits)

text \<open>A slot keeps what it knows when no row it holds has changed.\<close>

lemma slot_ok_mono:
  assumes "slot_ok cfg readers d s"
    and "\<And>i org row. holds_row i org s \<Longrightarrow> find_task i org d = Some row \<Longrightarrow> find_task i org d' = Some row"
  shows "slot_ok cfg readers d' s"
  using assms by (cases s) auto

lemma slots_ok_bus [simp]: "slots_ok cfg readers (sys\<lparr>sy_bus := b\<rparr>) = slots_ok cfg readers sys"
  by (simp add: slots_ok_def)

lemma slots_ok_put:
  assumes "slots_ok cfg readers sys" and "slot_ok cfg readers (sy_db sys) s"
    and "\<forall>i org. \<not> holds_row i org s"
  shows "slots_ok cfg readers (put_slot n s sys)"
  using assms by (auto simp: slots_ok_def locks_apart_free dest!: set_put)

lemma slots_ok_db:
  assumes "slots_ok cfg readers sys"
    and "\<And>i org row. \<exists>s \<in> set (sy_slots sys). holds_row i org s \<Longrightarrow>
      find_task i org (sy_db sys) = Some row \<Longrightarrow> find_task i org d' = Some row"
  shows "slots_ok cfg readers (sys\<lparr>sy_db := d'\<rparr>)"
  using assms by (auto simp: slots_ok_def intro!: slot_ok_mono [of _ _ "sy_db sys" _ d'])

lemma slots_ok_lock:
  assumes "slots_ok cfg readers sys" and "\<exists>payload. ran_task cfg readers payload input"
    and "find_task (ci_taskId input) (ci_organizationId input) (sy_db sys) = Some row"
    and "unlocked (ci_taskId input) (ci_organizationId input) sys"
  shows "slots_ok cfg readers (put_slot n (Holding input row) sys)"
  using assms by (auto simp: slots_ok_def unlocked_def locks_apart_lock dest!: set_put)

section \<open>The row lock makes commits atomic\<close>

lemma commit_row_is_commitOutcome:
  assumes "find_task (ci_taskId input) (ci_organizationId input) d = Some row"
  shows "transaction (commit_row env tick add_job input row) d = commitOutcome env tick add_job input d"
  using assms by (simp add: commitOutcome_def transaction_def)

text \<open>A commit leaves every other row where it was.\<close>

lemma find_set_task_other:
  assumes "(i, org) \<noteq> (i', org')"
  shows "find_task i org (set_task i' org' s n d) = find_task i org d"
proof -
  have "find (task_at i org) (map (\<lambda>r. if task_at i' org' r then r\<lparr>kr_status := s, kr_retryCount := n\<rparr> else r) rows)
      = find (task_at i org) rows" for rows
    using assms by (induction rows) (auto simp: task_at_def)
  then show ?thesis by (simp add: find_task_def set_task_def)
qed

lemma commitOutcome_other_rows:
  assumes "commitOutcome env tick add_job input d = (r, d')"
    and "(i, org) \<noteq> (ci_taskId input, ci_organizationId input)"
  shows "find_task i org d' = find_task i org d"
  using assms(1)
proof (cases rule: commit_cases)
  case (applied row)
  with assms(2) show ?thesis
    by (simp add: commit_effect_def find_task_update find_set_task_other)
qed simp

lemma dispatch_keeps_rows:
  assumes "drizzle_dispatch add_job env tick input prin d = (r, d')" and "find_task i org d = Some row"
  shows "find_task i org d' = Some row"
proof (cases r)
  case (Inl e)
  with assms wp_Inl [OF drizzle_dispatch_wp] show ?thesis by blast
next
  case (Inr a)
  with wp_Inr [OF drizzle_dispatch_wp assms(1) [unfolded Inr]] assms(2) show ?thesis
    by (auto simp: dispatched_def Let_def find_task_def find_append split: prod.splits)
qed

lemma outbox_publish_effect:
  "outbox_publish event d = (Inr (), d') \<Longrightarrow>
     d' = d\<lparr>db_events := db_events d @ [eventEnvelopeToRow event]\<rparr> \<and> db_ok d'"
  by (auto simp: outbox_publish_def insert_events_def statement_def split: option.splits)

lemma locks_released:
  assumes "locks_apart (sy_slots sys)" and "in_slot n (Holding input row) sys" and "s \<in> set ((sy_slots sys)[n := Free])"
  shows "\<not> holds_row (ci_taskId input) (ci_organizationId input) s"
proof
  assume held: "holds_row (ci_taskId input) (ci_organizationId input) s"
  obtain m where m: "m < length (sy_slots sys)" and "s = (sy_slots sys)[n := Free] ! m"
    using assms(3) by (auto simp: in_set_conv_nth)
  with held have "m \<noteq> n" and "holds_row (ci_taskId input) (ci_organizationId input) (sy_slots sys ! m)"
    by (auto simp: nth_put split: if_splits)
  moreover have "holds_row (ci_taskId input) (ci_organizationId input) (sy_slots sys ! n)" "n < length (sy_slots sys)"
    using assms(2) by (auto simp: in_slot_def)
  ultimately show False using assms(1) m unfolding locks_apart_def by blast
qed

lemma slot_okD: "slots_ok cfg readers sys \<Longrightarrow> in_slot n s sys \<Longrightarrow> slot_ok cfg readers (sy_db sys) s"
  by (auto simp: slots_ok_def dest: in_slot_set)

lemma find_task_same: "db_tasks d' = db_tasks d \<Longrightarrow> find_task i org d' = find_task i org d"
  by (simp add: find_task_def)

lemma commit_simulated:
  assumes ok: "slots_ok cfg readers sys" and slot: "in_slot n (Holding input row) sys"
    and run: "transaction (commit_row (wk_env cfg) tick add_job input row) (sy_db sys) = (r, d')"
  shows "slots_ok cfg readers (put_slot n Free sys\<lparr>sy_db := d'\<rparr>)
    \<and> atomic_step cfg readers add_job (sy_db sys) d'"
proof
  from slot_okD [OF ok slot] obtain payload where input: "ran_task cfg readers payload input"
    and "find_task (ci_taskId input) (ci_organizationId input) (sy_db sys) = Some row" by auto
  with run have whole: "commitOutcome (wk_env cfg) tick add_job input (sy_db sys) = (r, d')"
    by (simp add: commit_row_is_commitOutcome)
  with input show "atomic_step cfg readers add_job (sy_db sys) d'"
    by (rule atomic_step.commits)
  have "slots_ok cfg readers (put_slot n Free sys)"
    using ok by (rule slots_ok_put) simp_all
  then show "slots_ok cfg readers (put_slot n Free sys\<lparr>sy_db := d'\<rparr>)"
  proof (rule slots_ok_db)
    fix i org row'
    assume "\<exists>s \<in> set (sy_slots (put_slot n Free sys)). holds_row i org s"
      and found: "find_task i org (sy_db (put_slot n Free sys)) = Some row'"
    then have "(i, org) \<noteq> (ci_taskId input, ci_organizationId input)"
      using locks_released [OF _ slot] ok by (auto simp: slots_ok_def)
    from commitOutcome_other_rows [OF whole this] found
    show "find_task i org d' = Some row'" by simp
  qed
qed

text \<open>A step of a slot is one whole operation on the database, or none.\<close>

lemma worker_step_simulated:
  assumes "worker_step cfg readers add_job sys sys'" and ok: "slots_ok cfg readers sys"
  shows "slots_ok cfg readers sys'
    \<and> (sy_db sys' = sy_db sys \<or> atomic_step cfg readers add_job (sy_db sys) (sy_db sys'))"
  using assms(1)
proof (cases rule: worker_step.cases)
  case (run_adhoc n payload trace)
  then have "slot_ok cfg readers (sy_db sys) (Tracing trace)" by auto
  with slots_ok_put [OF ok this] run_adhoc(1) show ?thesis by simp
next
  case (publish n event rest d')
  from slot_okD [OF ok publish(2)] obtain payload trace where
    ran: "ran_adhoc cfg readers payload trace" "event \<in> set trace" "set rest \<subseteq> set trace" by auto
  then have "slots_ok cfg readers (put_slot n (Tracing rest) sys)"
    by (intro slots_ok_put [OF ok]) auto
  then have "slots_ok cfg readers sys'"
    unfolding publish(1) using outbox_publish_effect [OF publish(3)]
    by (auto intro!: slots_ok_db simp: find_task_def)
  with ran publish show ?thesis by (auto intro: atomic_step.publishes)
next
  case (lock n input row)
  with slot_okD [OF ok lock(2)] show ?thesis by (auto intro: slots_ok_lock [OF ok])
next
  case (commit n input row tick r d')
  with commit_simulated [OF ok commit(2,3)] show ?thesis by simp
next
  case (mark n ids now)
  have "slots_ok cfg readers (put_slot n Free sys)"
    by (rule slots_ok_put [OF ok]) simp_all
  then have "slots_ok cfg readers sys'"
    unfolding mark(1) by (rule slots_ok_db) (simp add: find_task_def)
  with mark show ?thesis by (auto intro: atomic_step.marks)
next
  case (dispatch env tick input prin r d')
  have "slots_ok cfg readers sys'"
    unfolding dispatch(1) by (rule slots_ok_db [OF ok]) (rule dispatch_keeps_rows [OF dispatch(2)])
  with dispatch show ?thesis by (auto intro: atomic_step.dispatches)
next
  case (elsewhere d')
  have "slots_ok cfg readers sys'"
    unfolding elsewhere(1) using elsewhere(2)
    by (intro slots_ok_db [OF ok]) (simp add: find_task_def changes_elsewhere_def)
  with elsewhere show ?thesis by (auto intro: atomic_step.others)
qed (auto intro!: slots_ok_put [OF ok])

lemma slots_ok_started: "slots_ok cfg readers (started n d)"
  by (auto simp: slots_ok_def started_def locks_apart_def)

section \<open>What a run hands over\<close>

lemma published_member: "ev \<in> set (published tr) \<Longrightarrow> Published ev \<in> set tr"
  by (induction tr) (auto simp: published_def List.map_filter_simps split: observation.splits)

lemma run_buffered_attributed:
  assumes "run_buffered (worker_deps cfg) order s = (Inr (result, trace), s')" and "ev \<in> set trace"
  shows "attributed order ev"
proof -
  let ?rt = "\<lparr>rt_world = \<lparr>bw_buffer = [], bw_outer = ws_world s\<rparr>, rt_ledger = ws_ledger s,
             rt_tick = ws_tick s, rt_log = []\<rparr>"
  let ?run = "executeWorkOrder (with_buffer (worker_deps cfg)) order ?rt"
  from runs_asD [OF safe_executeWorkOrder [of "with_buffer (worker_deps cfg)" order], of ?rt]
  have safe: "\<forall>ob ev. ob \<in> set (rt_log (snd ?run)) \<and> event_of ob = Some ev \<longrightarrow> attributed order ev"
    by (auto simp: safe_def)
  have "in_step (snd ?run)"
    using keeps_executeWorkOrder [of "worker_deps cfg" order]
    by (simp add: keeps_def, elim allE [of _ ?rt]) (simp add: in_step_def)
  moreover from assms(1) have "trace = bw_buffer (rt_world (snd ?run))"
    by (auto simp: run_buffered_def Let_def split: prod.splits sum.splits)
  ultimately have "ev \<in> set (published (rt_log (snd ?run)))"
    using assms(2) by (simp add: in_step_def)
  then have "Published ev \<in> set (rt_log (snd ?run))"
    by (rule published_member)
  with safe [rule_format, of "Published ev" ev] show ?thesis by simp
qed

lemma ran_task_facts:
  assumes "ran_task cfg readers payload input" and "reliable_adapters cfg"
  shows "(\<exists>result a us. lifecycle result a (map ev_type (ci_events input)) us \<and> wx_status result = ci_status input)
    \<and> (\<forall>ev \<in> set (ci_events input). ev_taskId ev = Some (ci_taskId input))"
  using assms(1)
proof cases
  case (1 order i s result trace s')
  from run_buffered_reliable [OF assms(2), of "read_gates readers order" s] 1(4)
  have "\<exists>a us. lifecycle result a (map ev_type trace) us" by auto
  moreover have "\<forall>ev \<in> set trace. ev_taskId ev = Some i"
    using run_buffered_attributed [OF 1(4)] 1(3) by (auto simp: attributed_def read_gates_def)
  ultimately show ?thesis using 1(1) by auto
qed

lemma ran_adhoc_facts:
  assumes "ran_adhoc cfg readers payload trace" and "event \<in> set trace"
  shows "ev_taskId event = None"
  using assms(1)
proof cases
  case (1 order s result s')
  with run_buffered_attributed [OF 1(3) assms(2)] show ?thesis
    by (simp add: attributed_def read_gates_def)
qed

section \<open>The constraints stay\<close>

lemma map_filter_map: "List.map_filter g (map f xs) = List.map_filter (\<lambda>x. g (f x)) xs"
  by (induction xs) (simp_all split: option.split)

text \<open>Marking events does not touch a column that a constraint reads.\<close>

lemma db_ok_mark [simp]: "db_ok (d\<lparr>db_events := db_markPublished now ids (db_events d)\<rparr>) = db_ok d"
proof -
  let ?f = "\<lambda>r. if er_id r \<in> set ids then r\<lparr>er_dispatchedAt := Some now\<rparr> else r"
  have col: "er_id (?f r) = er_id r" "er_organizationId (?f r) = er_organizationId r"
    "er_objectiveId (?f r) = er_objectiveId r" "er_taskId (?f r) = er_taskId r" for r
    by simp_all
  have "db_ok (d\<lparr>db_events := map ?f (db_events d)\<rparr>) = db_ok d"
    by (simp add: db_ok_def tenancy_constraints_def donna_constraints org_ids_def org_users_def org_teams_def
        org_projects_def org_objectives_def org_tasks_def unique_on_def refers_def map_filter_map comp_def col
        del: if_image_distrib)
  then show ?thesis by (auto simp: db_markPublished_def)
qed

lemma keeps_of_result [intro!]: "keeps I (of_result r)"
  by (cases r) (simp_all add: keeps_def of_result_def ret_def throw_def)

lemma keeps_enqueue [intro!]: "keeps db_ok (enqueue_job add_job i p k)"
  by (simp add: keeps_def enqueue_job_def case_prod_beta)

lemma commitOutcome_keeps: "keeps db_ok (commitOutcome env tick add_job input)"
  unfolding commitOutcome_def commit_row_def requeue_def insert_events_def Let_def
  by (auto intro!: keeps_transaction keeps_bind keeps_seq keeps_statement keeps_option)

section \<open>Rows and their history\<close>

definition task_events :: "ident \<Rightarrow> event_row list \<Rightarrow> event_row list" where
  "task_events i rows = filter (\<lambda>e. er_taskId e = Some i) rows"

text \<open>
  The outcomes a row has been through: a failure and a retry for every retry it has spent, then the
  outcome its status stands for.
\<close>

definition history :: "task_row \<Rightarrow> event_type list" where
  "history row =
     concat (replicate (nat (kr_retryCount row)) (status_event TS_pending))
     @ (if kr_status row = TS_pending then [] else status_event (kr_status row))"

definition row_consistent :: "event_row list \<Rightarrow> task_row \<Rightarrow> bool" where
  "row_consistent rows row \<longleftrightarrow>
     outcomes_of (task_events (kr_id row) rows) = history row
     \<and> 0 \<le> kr_retryCount row \<and> kr_retryCount row \<le> kr_maxRetries row"

definition consistent :: "'j db \<Rightarrow> bool" where
  "consistent d \<longleftrightarrow> db_ok d \<and> (\<forall>row \<in> set (db_tasks d). row_consistent (db_events d) row)"

lemma task_events_append [simp]: "task_events i (xs @ ys) = task_events i xs @ task_events i ys"
  by (simp add: task_events_def)

lemma outcomes_append [simp]: "outcomes_of (xs @ ys) = outcomes_of xs @ outcomes_of ys"
  by (simp add: outcomes_of_def)

lemma task_events_other: "\<forall>e \<in> set es. er_taskId e \<noteq> Some i \<Longrightarrow> task_events i es = []"
  by (simp add: task_events_def filter_empty_conv)

lemma task_events_all: "\<forall>e \<in> set es. er_taskId e = Some i \<Longrightarrow> task_events i es = es"
  by (simp add: task_events_def filter_id_conv)

lemma task_row_unique:
  "db_ok d \<Longrightarrow> r \<in> set (db_tasks d) \<Longrightarrow> r' \<in> set (db_tasks d) \<Longrightarrow> kr_id r = kr_id r' \<Longrightarrow> r = r'"
  by (rule unique_onD [of "Some \<circ> kr_id" "db_tasks d" _ _ "kr_id r"])
    (simp_all add: db_ok_def donna_constraints)

lemma event_has_task:
  assumes "db_ok d" and "e \<in> set (db_events d)" and "er_taskId e = Some i"
  shows "i \<in> set (map kr_id (db_tasks d))"
proof -
  have "refers (\<lambda>r. map_option (Pair (er_organizationId r)) (er_taskId r)) (db_events d) (org_tasks d)"
    using assms(1) by (simp add: db_ok_def donna_constraints)
  from refersD [OF this assms(2)] assms(3) show ?thesis by (auto simp: org_tasks_def)
qed

lemma find_taskD: "find_task i org d = Some row \<Longrightarrow> row \<in> set (db_tasks d) \<and> task_at i org row"
  by (auto simp: find_task_def dest: find_SomeD)

lemma replicate_snoc: "concat (replicate (Suc n) xs) = concat (replicate n xs) @ xs"
  by (induction n) simp_all

lemma committed_history:
  assumes "kr_status row = TS_pending" and "0 \<le> kr_retryCount row" and "kr_retryCount row \<le> kr_maxRetries row"
  shows "history row @ status_event (kr_status (committed_row status row)) = history (committed_row status row)"
    and "0 \<le> kr_retryCount (committed_row status row)"
    and "kr_retryCount (committed_row status row) \<le> kr_maxRetries (committed_row status row)"
proof -
  have "nat (kr_retryCount row + 1) = Suc (nat (kr_retryCount row))"
    using assms(2) by simp
  then show "history row @ status_event (kr_status (committed_row status row)) = history (committed_row status row)"
    using assms(1)
    by (auto simp: history_def committed_row_def commit_path_def replicate_snoc simp del: replicate_Suc status_event.simps)
  show "0 \<le> kr_retryCount (committed_row status row)"
    "kr_retryCount (committed_row status row) \<le> kr_maxRetries (committed_row status row)"
    using assms(2,3) by (simp_all add: committed_row_def retries_def)
qed

lemma commit_events_of_task:
  assumes "\<forall>ev \<in> set (ci_events input). ev_taskId ev = Some (ci_taskId input)"
  shows "\<forall>e \<in> set (commit_events env tick input row). er_taskId e = Some (ci_taskId input)"
  using assms by (auto simp: commit_events_def retry_event_def createEvent_def)

lemma commit_consistent:
  assumes "ran_task cfg readers payload input" and rel: "reliable_adapters cfg"
    and run: "commitOutcome env tick add_job input d = (r, d')" and "consistent d"
  shows "consistent d'"
proof -
  from ran_task_facts [OF assms(1) rel] obtain result a us where
    life: "lifecycle result a (map ev_type (ci_events input)) us" "wx_status result = ci_status input"
    and own: "\<forall>ev \<in> set (ci_events input). ev_taskId ev = Some (ci_taskId input)" by blast
  have ok: "db_ok d" and rows: "\<And>row. row \<in> set (db_tasks d) \<Longrightarrow> row_consistent (db_events d) row"
    using \<open>consistent d\<close> by (auto simp: consistent_def)
  from commitOutcome_keeps ok run have ok': "db_ok d'"
    by (metis keeps_def snd_conv)
  from run show ?thesis
  proof (cases rule: commit_cases)
    case unchanged
    with \<open>consistent d\<close> show ?thesis by simp
  next
    case (applied row)
    let ?es = "commit_events env tick input row"
    let ?done = "committed_row (ci_status input) row"
    from find_taskD [OF applied(1)] have row: "row \<in> set (db_tasks d)" "kr_id row = ci_taskId input"
      "task_at (ci_taskId input) (ci_organizationId input) row" by (auto simp: task_at_def)
    note row_ok = rows [OF row(1), unfolded row_consistent_def]
    have "outcomes_of ?es = status_event (kr_status ?done)"
      using commit_events_outcome [OF life refl] by simp
    moreover have "task_events (kr_id row) ?es = ?es"
      using commit_events_of_task [OF own] by (simp add: row(2) task_events_all)
    ultimately have done_ok: "row_consistent (db_events d @ ?es) ?done"
      using row_ok committed_history [OF applied(2)] unfolding row_consistent_def by (simp add: committed_row_def)
    have "row_consistent (db_events d @ ?es) r" if "r \<in> set (db_tasks d)"
      and other: "\<not> task_at (ci_taskId input) (ci_organizationId input) r" for r
    proof -
      have "kr_id r \<noteq> ci_taskId input"
        using task_row_unique [OF ok that(1) row(1)] row other by auto
      then have "task_events (kr_id r) ?es = []"
        using commit_events_of_task [OF own] by (intro task_events_other) auto
      with rows [OF that(1)] show ?thesis
        by (simp add: row_consistent_def outcomes_of_def)
    qed
    moreover have "r\<lparr>kr_status := kr_status ?done, kr_retryCount := kr_retryCount ?done\<rparr> = ?done"
      if "r \<in> set (db_tasks d)" "task_at (ci_taskId input) (ci_organizationId input) r" for r
      using task_row_unique [OF ok that(1) row(1)] row(2) that(2) by (simp add: task_at_def committed_row_def)
    ultimately have "\<forall>r \<in> set (db_tasks d'). row_consistent (db_events d') r"
      using done_ok applied(3) by (auto simp: commit_effect_def set_task_def)
    with ok' show ?thesis by (simp add: consistent_def)
  qed
qed

lemma drizzle_dispatch_cases:
  assumes "drizzle_dispatch add_job env tick input prin d = (r, d')"
  obtains (refused) "d' = d"
  | (written) row event q where "db_ok d'" "d' = d\<lparr>db_tasks := db_tasks d @ [row], db_events := db_events d @ [event], db_queue := q\<rparr>"
      "kr_status row = TS_pending" "kr_retryCount row = 0" "kr_maxRetries row = 3"
      "er_type event = ET_task_created" "er_taskId event = Some (kr_id row)" "er_dispatchedAt event = None"
proof (cases r)
  case (Inl e)
  with assms wp_Inl [OF drizzle_dispatch_wp] show thesis by (intro refused) blast
next
  case (Inr a)
  let ?t = "newTask env tick input"
  from wp_Inr [OF drizzle_dispatch_wp assms [unfolded Inr]]
  have "db_ok d'" "d' = dispatched add_job env tick input prin d" by (auto split: prod.splits)
  then show thesis
    by (intro written [where row = "taskToRow ?t (pr_organizationId prin) (wh_requiredCapabilities (di_hints input))"
          and event = "eventEnvelopeToRow (task_created env (tick + 1) prin (di_objectiveId input) (tk_id ?t))"])
      (simp_all add: dispatched_def Let_def task_created_def createEvent_def)
qed

lemma dispatch_consistent:
  assumes "drizzle_dispatch add_job env tick input prin d = (r, d')" and "consistent d"
  shows "consistent d'"
  using assms(1)
proof (cases rule: drizzle_dispatch_cases)
  case refused
  with assms(2) show ?thesis by simp
next
  case (written row event q)
  have ok: "db_ok d" and rows: "\<And>r. r \<in> set (db_tasks d) \<Longrightarrow> row_consistent (db_events d) r"
    using assms(2) by (auto simp: consistent_def)
  have fresh: "kr_id row \<notin> set (map kr_id (db_tasks d))"
    using written(1,2) by (simp add: db_ok_def donna_constraints unique_on_def List.map_filter_def comp_def)
  then have none: "task_events (kr_id row) (db_events d) = []"
    using event_has_task [OF ok] by (intro task_events_other) auto
  have "outcomes_of (task_events i [event]) = []" for i
    using written(6) by (simp add: task_events_def outcomes_of_def outcome_events_def)
  then have "row_consistent (db_events d') r = row_consistent (db_events d) r" for r
    by (simp add: row_consistent_def written(2))
  moreover have "row_consistent (db_events d) row"
    by (simp add: row_consistent_def history_def none written(3-5)) (simp add: outcomes_of_def)
  ultimately have "\<forall>r \<in> set (db_tasks d'). row_consistent (db_events d') r"
    using rows by (auto simp: written(2))
  with written(1) show ?thesis by (simp add: consistent_def)
qed

lemma publish_consistent:
  assumes "outbox_publish event d = (Inr (), d')" and "ev_taskId event = None" and "consistent d"
  shows "consistent d'"
  using outbox_publish_effect [OF assms(1)] assms(2,3)
  by (auto simp: consistent_def row_consistent_def task_events_def)

lemma marked_events:
  "outcomes_of (task_events i (db_markPublished now ids rows)) = outcomes_of (task_events i rows)"
proof (cases "ids = []")
  case False
  let ?f = "\<lambda>r :: event_row. if er_id r \<in> set ids then r\<lparr>er_dispatchedAt := Some now\<rparr> else r"
  have "task_events i (map ?f rows) = map ?f (task_events i rows)"
    unfolding task_events_def filter_map by (rule arg_cong [where f = "map ?f"], rule filter_cong) auto
  moreover have "map er_type (map ?f rows') = map er_type rows'" for rows'
    by simp
  ultimately show ?thesis
    using False by (simp only: db_markPublished_def outcomes_of_def if_False)
qed (simp add: db_markPublished_def)

lemma mark_consistent:
  "consistent d \<Longrightarrow> consistent (d\<lparr>db_events := db_markPublished now ids (db_events d)\<rparr>)"
  by (simp add: consistent_def row_consistent_def marked_events)

lemma atomic_step_consistent:
  assumes "atomic_step cfg readers add_job d d'" and "reliable_adapters cfg" and "consistent d"
  shows "consistent d'"
  using assms(1)
proof cases
  case (commits payload input tick r)
  with assms(2,3) show ?thesis by (auto intro: commit_consistent)
next
  case (publishes payload trace event)
  with assms(3) show ?thesis by (auto intro: publish_consistent ran_adhoc_facts)
next
  case (marks ids now)
  with assms(3) show ?thesis by (simp add: mark_consistent)
next
  case (dispatches env tick input prin r)
  with assms(3) show ?thesis by (auto intro: dispatch_consistent)
next
  case others
  with assms(3) show ?thesis
    by (auto simp: consistent_def changes_elsewhere_def row_consistent_def task_events_other)
qed

lemma atomic_steps_consistent:
  "(atomic_step cfg readers add_job)\<^sup>*\<^sup>* d d' \<Longrightarrow> reliable_adapters cfg \<Longrightarrow> consistent d \<Longrightarrow> consistent d'"
  by (induction rule: rtranclp_induct) (auto intro: atomic_step_consistent)

lemma reachable_simulated:
  assumes "(worker_step cfg readers add_job)\<^sup>*\<^sup>* (started n d) sys"
  shows "slots_ok cfg readers sys \<and> (atomic_step cfg readers add_job)\<^sup>*\<^sup>* d (sy_db sys)"
  using assms
proof (induction rule: rtranclp_induct)
  case base
  show ?case using slots_ok_started by (auto simp: started_def)
next
  case (step sys sys')
  with worker_step_simulated [OF step(2)] show ?case
    by (auto intro: rtranclp.rtrancl_into_rtrancl)
qed

section \<open>What the outbox keeps\<close>

lemma atomic_step_db_ok:
  assumes "atomic_step cfg readers add_job d d'" and "db_ok d"
  shows "db_ok d'"
  using assms(1)
proof cases
  case (commits payload input tick r)
  with commitOutcome_keeps [of "wk_env cfg" tick add_job input] assms(2) show ?thesis
    by (metis keeps_def snd_conv)
next
  case (dispatches env tick input prin r)
  then show ?thesis
    by (cases rule: drizzle_dispatch_cases) (use assms(2) in simp_all)
qed (use assms(2) in \<open>auto simp: changes_elsewhere_def dest: outbox_publish_effect\<close>)

text \<open>The envelopes of the stored events, which marking does not change.\<close>

definition stored :: "'j db \<Rightarrow> event_envelope list" where
  "stored d = map rowToEnvelope (db_events d)"

lemma rowToEnvelope_mark [simp]: "rowToEnvelope (r\<lparr>er_dispatchedAt := t\<rparr>) = rowToEnvelope r"
  by (simp add: rowToEnvelope_def)

lemma stored_mark [simp]: "stored (d\<lparr>db_events := db_markPublished now ids (db_events d)\<rparr>) = stored d"
  by (simp add: stored_def db_markPublished_def)

text \<open>Events of an operation that writes some: they follow those there are and wait for the outbox.\<close>

definition appends :: "'j db \<Rightarrow> 'j db \<Rightarrow> bool" where
  "appends d d' \<longleftrightarrow> (\<exists>new. db_events d' = db_events d @ new \<and> (\<forall>r \<in> set new. er_dispatchedAt r = None))"

lemma elsewhere_appends: "changes_elsewhere d d' \<Longrightarrow> appends d d'"
  by (auto simp: appends_def changes_elsewhere_def)

lemma commitOutcome_appends: "commitOutcome env tick add_job input d = (r, d') \<Longrightarrow> appends d d'"
  by (erule commit_cases) (auto simp: appends_def commit_effect_def commit_events_def)

lemma dispatch_appends: "drizzle_dispatch add_job env tick input prin d = (r, d') \<Longrightarrow> appends d d'"
  by (erule drizzle_dispatch_cases) (auto simp: appends_def)

lemma publish_appends: "outbox_publish event d = (Inr (), d') \<Longrightarrow> appends d d'"
  by (auto simp: appends_def dest: outbox_publish_effect)

text \<open>
  A slot that delivers has fetched stored events, and has handed those to the bus whose ids it will mark.
\<close>

fun delivery_ok :: "event_envelope list \<Rightarrow> event_envelope list \<Rightarrow> slot \<Rightarrow> bool" where
  "delivery_ok es bus (Delivering rest ids) = (set rest \<subseteq> set es \<and> set ids \<subseteq> ev_id ` set bus)"
| "delivery_ok es bus _ = True"

definition outbox_ok :: "event_envelope set \<Rightarrow> 'j system \<Rightarrow> bool" where
  "outbox_ok old sys \<longleftrightarrow>
     set (sy_bus sys) \<subseteq> set (stored (sy_db sys))
     \<and> (\<forall>r \<in> set (db_events (sy_db sys)). er_dispatchedAt r \<noteq> None \<longrightarrow> rowToEnvelope r \<in> old \<union> set (sy_bus sys))
     \<and> (\<forall>s \<in> set (sy_slots sys). delivery_ok (stored (sy_db sys)) (sy_bus sys) s)"

lemma delivery_ok_mono:
  "delivery_ok es bus s \<Longrightarrow> set es \<subseteq> set es' \<Longrightarrow> set bus \<subseteq> set bus' \<Longrightarrow> delivery_ok es' bus' s"
  by (cases s) (simp_all, blast)

lemma outbox_put:
  "outbox_ok old sys \<Longrightarrow> delivery_ok (stored (sy_db sys)) (sy_bus sys) s \<Longrightarrow> outbox_ok old (put_slot n s sys)"
  by (auto simp: outbox_ok_def dest!: set_put)

lemma outbox_append:
  assumes "outbox_ok old sys" and "appends (sy_db sys) d'"
  shows "outbox_ok old (sys\<lparr>sy_db := d'\<rparr>)"
proof -
  from assms(2) obtain new where new: "db_events d' = db_events (sy_db sys) @ new" "\<forall>r \<in> set new. er_dispatchedAt r = None"
    by (auto simp: appends_def)
  then have "set (stored (sy_db sys)) \<subseteq> set (stored d')"
    by (auto simp: stored_def)
  with assms(1) new show ?thesis
    by (auto simp: outbox_ok_def intro: delivery_ok_mono [of "stored (sy_db sys)" "sy_bus sys"])
qed

lemma fetched_stored: "set (db_fetchUnpublished k rows) \<subseteq> set (map rowToEnvelope rows)"
proof -
  have "set (take k (undispatched rows)) \<subseteq> set rows"
    by (auto simp: undispatched_def dest: in_set_takeD)
  then show ?thesis by (auto simp: db_fetchUnpublished_def)
qed

lemma event_unique:
  "db_ok d \<Longrightarrow> r \<in> set (db_events d) \<Longrightarrow> r' \<in> set (db_events d) \<Longrightarrow> er_id r = er_id r' \<Longrightarrow> r = r'"
  by (rule unique_onD [of "Some \<circ> er_id" "db_events d" _ _ "er_id r"])
    (simp_all add: db_ok_def donna_constraints)

lemma outbox_mark:
  assumes ok: "outbox_ok old sys" and "db_ok (sy_db sys)" and ids: "set ids \<subseteq> ev_id ` set (sy_bus sys)"
  shows "outbox_ok old (sys\<lparr>sy_db := (sy_db sys)\<lparr>db_events := db_markPublished now ids (db_events (sy_db sys))\<rparr>\<rparr>)"
proof -
  have handed: "rowToEnvelope r \<in> set (sy_bus sys)" if r: "r \<in> set (db_events (sy_db sys))" "er_id r \<in> set ids" for r
  proof -
    from r ids obtain e where e: "e \<in> set (sy_bus sys)" "ev_id e = er_id r" by auto
    with ok obtain r' where "r' \<in> set (db_events (sy_db sys))" "e = rowToEnvelope r'"
      by (auto simp: outbox_ok_def stored_def)
    with e r(1) event_unique [OF assms(2), of r' r] show ?thesis by simp
  qed
  let ?d = "(sy_db sys)\<lparr>db_events := db_markPublished now ids (db_events (sy_db sys))\<rparr>"
  have "\<forall>r \<in> set (db_events ?d). er_dispatchedAt r \<noteq> None \<longrightarrow> rowToEnvelope r \<in> old \<union> set (sy_bus sys)"
    using ok handed by (auto simp: outbox_ok_def db_markPublished_def split: if_splits)
  with ok show ?thesis
    unfolding outbox_ok_def by simp
qed

lemma delivering_slot:
  assumes "outbox_ok old sys" and "in_slot n (Delivering rest ids) sys"
  shows "set rest \<subseteq> set (stored (sy_db sys))" and "set ids \<subseteq> ev_id ` set (sy_bus sys)"
proof -
  have "delivery_ok (stored (sy_db sys)) (sy_bus sys) (Delivering rest ids)"
    using assms(1) in_slot_set [OF assms(2)] unfolding outbox_ok_def by blast
  then show "set rest \<subseteq> set (stored (sy_db sys))" "set ids \<subseteq> ev_id ` set (sy_bus sys)"
    by simp_all
qed

lemma outbox_deliver:
  assumes "outbox_ok old sys" and "in_slot n (Delivering (event # rest) ids) sys"
  shows "outbox_ok old (put_slot n (Delivering rest (ids @ [ev_id event])) sys\<lparr>sy_bus := sy_bus sys @ [event]\<rparr>)"
proof -
  note slot = delivering_slot [OF assms]
  have others: "delivery_ok (stored (sy_db sys)) (sy_bus sys @ [event]) s" if "s \<in> set (sy_slots sys)" for s
  proof -
    from assms(1) that have "delivery_ok (stored (sy_db sys)) (sy_bus sys) s"
      by (simp add: outbox_ok_def)
    then show ?thesis by (rule delivery_ok_mono) auto
  qed
  have own: "delivery_ok (stored (sy_db sys)) (sy_bus sys @ [event]) (Delivering rest (ids @ [ev_id event]))"
    using slot by auto
  have "\<forall>s \<in> set ((sy_slots sys)[n := Delivering rest (ids @ [ev_id event])]).
      delivery_ok (stored (sy_db sys)) (sy_bus sys @ [event]) s"
    using others own by (auto dest!: set_put)
  with assms(1) slot(1) show ?thesis by (auto simp: outbox_ok_def)
qed

lemma outbox_step:
  assumes "worker_step cfg readers add_job sys sys'"
    and slots: "slots_ok cfg readers sys" and db: "db_ok (sy_db sys)" and ok: "outbox_ok old sys"
  shows "outbox_ok old sys'"
  using assms(1)
proof (cases rule: worker_step.cases)
  case (publish n event rest d')
  have "outbox_ok old (put_slot n (Tracing rest) sys)" by (rule outbox_put [OF ok]) simp
  with publish_appends [OF publish(3)] show ?thesis unfolding publish(1) by (intro outbox_append) simp_all
next
  case (commit n input row tick r d')
  from slot_okD [OF slots commit(2)] commit(3) have "appends (sy_db sys) d'"
    by (auto simp: commit_row_is_commitOutcome intro: commitOutcome_appends)
  moreover have "outbox_ok old (put_slot n Free sys)" by (rule outbox_put [OF ok]) simp
  ultimately show ?thesis unfolding commit(1) by (intro outbox_append) simp_all
next
  case (fetch n)
  have "delivery_ok (stored (sy_db sys)) (sy_bus sys)
      (Delivering (db_fetchUnpublished (batch_size cfg) (db_events (sy_db sys))) [])"
    using fetched_stored by (auto simp: stored_def)
  from outbox_put [OF ok this] fetch(1) show ?thesis by simp
next
  case (deliver n event rest ids)
  with outbox_deliver [OF ok] show ?thesis by simp
next
  case (mark n ids now)
  have "set ids \<subseteq> ev_id ` set (sy_bus sys)"
    by (rule delivering_slot [OF ok mark(2)])
  moreover have "outbox_ok old (put_slot n Free sys)" by (rule outbox_put [OF ok]) simp
  ultimately show ?thesis unfolding mark(1)
    using outbox_mark [of old "put_slot n Free sys" ids now] db by simp
next
  case (dispatch env tick input prin r d')
  with outbox_append [OF ok dispatch_appends [OF dispatch(2)]] show ?thesis by simp
next
  case (elsewhere d')
  with outbox_append [OF ok elsewhere_appends [OF elsewhere(2)]] show ?thesis by simp
qed (auto intro!: outbox_put [OF ok])

lemma appends_stored: "appends d d' \<Longrightarrow> prefix (stored d) (stored d')"
  by (auto simp: appends_def stored_def)

lemma atomic_step_stored: "atomic_step cfg readers add_job d d' \<Longrightarrow> prefix (stored d) (stored d')"
  by (erule atomic_step.cases)
    (auto intro: appends_stored commitOutcome_appends dispatch_appends publish_appends elsewhere_appends)

lemma atomic_steps_stored:
  "(atomic_step cfg readers add_job)\<^sup>*\<^sup>* d d' \<Longrightarrow> prefix (stored d) (stored d') \<and> (db_ok d \<longrightarrow> db_ok d')"
  by (induction rule: rtranclp_induct)
    (auto dest: atomic_step_db_ok atomic_step_stored intro: prefix_order.trans)

definition already_dispatched :: "'j db \<Rightarrow> event_envelope set" where
  "already_dispatched d = rowToEnvelope ` {r \<in> set (db_events d). er_dispatchedAt r \<noteq> None}"

lemma outbox_reachable:
  assumes "(worker_step cfg readers add_job)\<^sup>*\<^sup>* (started n d) sys" and "db_ok d"
  shows "outbox_ok (already_dispatched d) sys"
  using assms(1)
proof (induction rule: rtranclp_induct)
  case base
  show ?case by (auto simp: outbox_ok_def started_def already_dispatched_def)
next
  case (step sys sys')
  from reachable_simulated [OF step(1)] atomic_steps_stored assms(2)
  have "slots_ok cfg readers sys" "db_ok (sy_db sys)" by blast+
  from outbox_step [OF step(2) this step(3)] show ?case .
qed

section \<open>Deliveries that settle a task\<close>

text \<open>The job of a payload delivered again and again, whatever each delivery comes to.\<close>

fun deliveries ::
    "('w, 'e) worker_config \<Rightarrow> gate_readers \<Rightarrow> 'j add_job \<Rightarrow> js \<Rightarrow> nat \<Rightarrow> ('j, 'w) worker \<Rightarrow> ('j, 'w) worker" where
  "deliveries cfg readers add_job payload 0 s = s"
| "deliveries cfg readers add_job payload (Suc n) s =
     deliveries cfg readers add_job payload n
       (snd (execute_work_order_job cfg readers add_job payload s :: ('e job_error + _) \<times> _))"

definition settled :: "task_status \<Rightarrow> bool" where
  "settled status \<longleftrightarrow> status \<in> {TS_completed, TS_failed, TS_awaiting_approval, TS_blocked}"

lemma committed_settled:
  "kr_status (committed_row status row) = TS_pending \<or> settled (kr_status (committed_row status row))"
  by (cases status) (auto simp: committed_row_def commit_path_def settled_def)

lemma job_progress:
  assumes "reliable_adapters cfg" "parseWorkOrder payload = Inr order" "wo_taskId order = Some i"
    and found: "find_task i (wo_organizationId order) (ws_db s) = Some row"
    and returns: "execute_work_order_job cfg readers add_job payload s = (Inr outcome, s')"
  obtains (left) "find_task i (wo_organizationId order) (ws_db s') = Some row" "kr_status row \<noteq> TS_pending"
  | (moved) status where "kr_status row = TS_pending"
      "find_task i (wo_organizationId order) (ws_db s') = Some (committed_row status row)"
proof -
  obtain input r d' s1 where c: "commitOutcome (wk_env cfg) (ws_tick s1) add_job input (ws_db s) = (r, d')"
    and job: "execute_work_order_job cfg readers add_job payload s =
      ((case r of Inl e \<Rightarrow> Inl (JobThrew e) | Inr outcome \<Rightarrow> Inr (Some outcome)), s1\<lparr>ws_tick := ws_tick s1 + 1, ws_db := d'\<rparr>)"
    and input: "ci_taskId input = i" "ci_organizationId input = wo_organizationId order"
    by (rule job_commits [OF assms(1-3)])
  from job returns obtain o' where r: "r = Inr o'" and db: "ws_db s' = d'"
    by (cases r) auto
  from wp_Inr [OF commitOutcome_wp c [unfolded r]] found input
  have post: "if kr_status row = TS_pending then d' = commit_effect (wk_env cfg) (ws_tick s1) add_job input row (ws_db s)
      else d' = ws_db s" by (auto split: if_splits)
  show thesis
  proof (cases "kr_status row = TS_pending")
    case True
    with post find_commit_effect [of input "ws_db s" row "wk_env cfg" "ws_tick s1" add_job] found input db
    show ?thesis by (intro moved) auto
  next
    case False
    with post found db show ?thesis by (intro left) auto
  qed
qed

lemma deliveries_progress:
  assumes job: "reliable_adapters cfg" "parseWorkOrder payload = Inr order" "wo_taskId order = Some i"
    and "find_task i (wo_organizationId order) (ws_db s) = Some row"
    and "commits_left row \<le> int n"
    and "\<forall>k < n. \<exists>outcome. fst (execute_work_order_job cfg readers add_job payload
      (deliveries cfg readers add_job payload k s)) = Inr outcome"
  shows "\<exists>row'. find_task i (wo_organizationId order) (ws_db (deliveries cfg readers add_job payload n s)) = Some row'
    \<and> (if kr_status row = TS_pending then settled (kr_status row') else row' = row)"
  using assms(4-6)
proof (induction n arbitrary: s row)
  case 0
  then show ?case by (auto simp: commits_left_def split: if_splits)
next
  case (Suc n)
  let ?s = "snd (execute_work_order_job cfg readers add_job payload s)"
  have rest: "\<forall>k < n. \<exists>outcome. fst (execute_work_order_job cfg readers add_job payload
      (deliveries cfg readers add_job payload k ?s)) = Inr outcome"
    using Suc.prems(3) by (metis Suc_mono deliveries.simps(2))
  from Suc.prems(3) obtain outcome where "execute_work_order_job cfg readers add_job payload s = (Inr outcome, ?s)"
    by (metis deliveries.simps(1) prod.collapse zero_less_Suc)
  from job Suc.prems(1) this show ?case
  proof (cases rule: job_progress)
    case left
    then have "commits_left row \<le> int n" by (simp add: commits_left_def)
    from Suc.IH [OF left(1) this rest] left(2) show ?thesis by simp
  next
    case (moved status)
    let ?row = "committed_row status row"
    have "commits_left ?row \<le> int n"
      using commits_left_committed [OF moved(1), of status] Suc.prems(2) by simp
    from Suc.IH [OF moved(2) this rest] committed_settled [of status row] moved(1)
    show ?thesis by (auto split: if_splits)
  qed
qed

section \<open>Properties\<close>

text \<open>
  C7: The row lock makes the concurrent worker behave as one that commits whole outcomes. Whatever the
  interleaving of the slots, the deliveries of the queue, the places where jobs stop, dispatches and other
  services, the database of a reachable state is one that whole commits, inserts, marks and dispatches
  produce one after another, and a slot that holds a row would commit now exactly as if its transaction
  began now.
\<close>

theorem commits_serialized:
  assumes "(worker_step cfg readers add_job)\<^sup>*\<^sup>* (started n d) sys"
  shows "(atomic_step cfg readers add_job)\<^sup>*\<^sup>* d (sy_db sys)
    \<and> (\<forall>input row env tick. Holding input row \<in> set (sy_slots sys) \<longrightarrow>
         transaction (commit_row env tick add_job input row) (sy_db sys) = commitOutcome env tick add_job input (sy_db sys))"
proof -
  note sim = reachable_simulated [OF assms]
  have "find_task (ci_taskId input) (ci_organizationId input) (sy_db sys) = Some row"
    if "Holding input row \<in> set (sy_slots sys)" for input row
    using sim that by (fastforce simp: slots_ok_def)
  with sim show ?thesis by (simp add: commit_row_is_commitOutcome)
qed

text \<open>
  In every state the concurrent workers reach, the stored events of a task are the history of its row:
  a failure and a retry for every retry it has spent, then the event of its status once it is not pending.
  No redelivery, overlap or crash adds an outcome the row does not have or loses one it has, and no row
  spends more retries than it may.
\<close>

theorem history_always_consistent:
  assumes "reliable_adapters cfg" and "consistent d"
    and "(worker_step cfg readers add_job)\<^sup>*\<^sup>* (started n d) sys" and "row \<in> set (db_tasks (sy_db sys))"
  shows "outcomes_of (filter (\<lambda>e. er_taskId e = Some (kr_id row)) (db_events (sy_db sys))) =
      concat (replicate (nat (kr_retryCount row)) [ET_task_failed, ET_task_retried])
      @ (if kr_status row = TS_pending then [] else status_event (kr_status row))
    \<and> 0 \<le> kr_retryCount row \<and> kr_retryCount row \<le> kr_maxRetries row"
proof -
  from reachable_simulated [OF assms(3)] have "consistent (sy_db sys)"
    using atomic_steps_consistent [OF _ assms(1,2)] by blast
  with assms(4) have "row_consistent (db_events (sy_db sys)) row"
    by (simp add: consistent_def)
  then show ?thesis by (simp add: row_consistent_def history_def task_events_def)
qed

text \<open>
  C8: The outbox loses nothing and invents nothing, however its ticks overlap with each other, with the
  jobs and with crashes: no stored event is ever removed or changed, the bus is handed only stored events,
  and an event that is marked dispatched has been handed to the bus, or was marked at the start.
\<close>

theorem outbox_loses_nothing:
  assumes "db_ok d" and "(worker_step cfg readers add_job)\<^sup>*\<^sup>* (started n d) sys"
  shows "prefix (map rowToEnvelope (db_events d)) (map rowToEnvelope (db_events (sy_db sys)))
    \<and> set (sy_bus sys) \<subseteq> rowToEnvelope ` set (db_events (sy_db sys))
    \<and> (\<forall>r \<in> set (db_events (sy_db sys)). er_dispatchedAt r \<noteq> None \<longrightarrow>
         rowToEnvelope r \<in> set (sy_bus sys)
         \<or> (\<exists>r0 \<in> set (db_events d). er_dispatchedAt r0 \<noteq> None \<and> rowToEnvelope r0 = rowToEnvelope r))"
proof -
  from reachable_simulated [OF assms(2)] have "prefix (stored d) (stored (sy_db sys))"
    using atomic_steps_stored by blast
  moreover from outbox_reachable [OF assms(2,1)]
  have "set (sy_bus sys) \<subseteq> set (stored (sy_db sys))"
    and "\<forall>r \<in> set (db_events (sy_db sys)). er_dispatchedAt r \<noteq> None \<longrightarrow>
      rowToEnvelope r \<in> already_dispatched d \<union> set (sy_bus sys)"
    by (simp_all add: outbox_ok_def)
  ultimately show ?thesis by (force simp: stored_def already_dispatched_def)
qed


subsection \<open>Witnesses\<close>

definition no_add :: "unit add_job" where
  "no_add _ _ _ q = (''1'', q)"

definition empty_config :: "(unit, unit) worker_config" where
  "empty_config = sample_config\<lparr>wk_env := numbered_env, wk_capabilityCatalog := None\<rparr>"

lemma empty_reliable: "reliable_adapters empty_config"
  by (simp add: reliable_adapters_def empty_config_def sample_config_def)

definition last_chance :: "(unit, unit) worker" where
  "last_chance =
     sample_worker\<lparr>ws_db := sample_db\<lparr>db_tasks := [sample_row\<lparr>kr_retryCount := kr_maxRetries sample_row\<rparr>]\<rparr>\<rparr>"

lemma last_chance_job:
  "fst (execute_work_order_job empty_config sample_readers no_add sample_payload last_chance)
     = Inr (Some (Applied TS_blocked False))"
  by code_simp

lemma sample_order_parsed:
  "\<exists>order. parseWorkOrder sample_payload = Inr order \<and> wo_taskId order = Some ''t1'' \<and> wo_organizationId order = ''org''"
  by (simp add: parseWorkOrder_def sample_payload_def requireString_def stringArray_def
      optionalString_def optionalBoolean_def optionalNumber_def gate_field_def)


text \<open>A job of the task of a small database runs, locks the row and commits.\<close>

definition pending_db :: "unit db" where
  "pending_db = sample_db\<lparr>db_tasks := [sample_row\<lparr>kr_retryCount := 0\<rparr>]\<rparr>"

lemma pending_consistent: "consistent pending_db"
proof -
  have "db_ok pending_db" by code_simp
  moreover have "row_consistent (db_events pending_db) (sample_row\<lparr>kr_retryCount := 0\<rparr>)" by code_simp
  ultimately show ?thesis by (simp add: consistent_def) (simp add: pending_db_def)
qed

lemma in_slot_put: "n < length (sy_slots sys) \<Longrightarrow> in_slot n s (put_slot n s sys)"
  by (simp add: in_slot_def)

lemma sample_reachable:
  obtains input r sys where "(worker_step empty_config sample_readers no_add)\<^sup>*\<^sup>* (started 4 pending_db) sys"
    "commitOutcome (wk_env empty_config) 9 no_add input pending_db = (r, sy_db sys)"
    "ci_taskId input = ''t1''" "ci_organizationId input = ''org''"
proof -
  let ?step = "worker_step empty_config sample_readers no_add"
  let ?w = "\<lparr>ws_db = undefined, ws_world = (), ws_ledger = [], ws_tick = 0\<rparr> :: (unit, unit) worker"
  from sample_order_parsed obtain order where order: "parseWorkOrder sample_payload = Inr order"
    "wo_taskId order = Some ''t1''" "wo_organizationId order = ''org''" by blast
  from run_buffered_reliable [OF empty_reliable, of "read_gates sample_readers order" ?w]
  obtain result trace w' where
    "run_buffered (worker_deps empty_config) (read_gates sample_readers order) ?w = (Inr (result, trace) :: unit job_error + _, w')"
    by blast
  from ran_task.intros [OF order(1,2) this] obtain input where
    input: "ran_task empty_config sample_readers sample_payload input"
      "ci_taskId input = ''t1''" "ci_organizationId input = ''org''"
    using order(3) by fastforce
  let ?s0 = "started 4 pending_db"
  let ?s1 = "put_slot 0 (Received sample_payload) ?s0"
  let ?s2 = "put_slot 0 (Finished input) ?s1"
  let ?row = "sample_row\<lparr>kr_retryCount := 0\<rparr>"
  let ?s3 = "put_slot 0 (Holding input ?row) ?s2"
  have len: "length (sy_slots ?s0) = 4" by (simp add: started_def)
  have found: "find_task ''t1'' ''org'' pending_db = Some ?row"
    by (simp add: find_task_def task_at_def pending_db_def sample_row_def taskToRow_def sample_task_def)
  obtain r d' where c: "commitOutcome (wk_env empty_config) 9 no_add input pending_db = (r, d')" by fastforce
  have "?step ?s0 ?s1"
    by (rule worker_step.receive) (simp add: in_slot_def started_def)
  moreover have "?step ?s1 ?s2"
    by (rule worker_step.run_for_task [OF _ input(1)], rule in_slot_put) (simp add: len)
  moreover have "?step ?s2 ?s3"
    by (rule worker_step.lock, rule in_slot_put)
      (use found input in \<open>auto simp: len started_def unlocked_def dest!: set_put\<close>)
  moreover have "?step ?s3 (put_slot 0 Free ?s3\<lparr>sy_db := d'\<rparr>)"
    by (rule worker_step.commit [where tick = 9 and r = r], rule in_slot_put)
      (use found input c in \<open>simp_all add: len started_def commit_row_is_commitOutcome\<close>)
  ultimately have "?step\<^sup>*\<^sup>* ?s0 (put_slot 0 Free ?s3\<lparr>sy_db := d'\<rparr>)"
    by (meson converse_rtranclp_into_rtranclp rtranclp.rtrancl_refl)
  then show thesis by (rule that [of _ input r]) (use c input in simp_all)
qed

theorem commits_serialized_witness:
  "\<exists>sys. (worker_step empty_config sample_readers no_add)\<^sup>*\<^sup>* (started 4 pending_db) sys
     \<and> (atomic_step empty_config sample_readers no_add)\<^sup>*\<^sup>* pending_db (sy_db sys)"
proof -
  obtain input :: commit_input and r and sys where reach: "(worker_step empty_config sample_readers no_add)\<^sup>*\<^sup>* (started 4 pending_db) sys"
    by (rule sample_reachable)
  with commits_serialized [OF reach, THEN conjunct1] show ?thesis by (intro exI conjI)
qed

theorem history_always_consistent_witness:
  "\<exists>sys. (worker_step empty_config sample_readers no_add)\<^sup>*\<^sup>* (started 4 pending_db) sys
     \<and> (\<forall>row \<in> set (db_tasks (sy_db sys)). kr_retryCount row \<le> kr_maxRetries row)"
proof -
  obtain input :: commit_input and r and sys where reach: "(worker_step empty_config sample_readers no_add)\<^sup>*\<^sup>* (started 4 pending_db) sys"
    by (rule sample_reachable)
  have "\<forall>row \<in> set (db_tasks (sy_db sys)). kr_retryCount row \<le> kr_maxRetries row"
    by (rule ballI) (rule history_always_consistent [OF empty_reliable pending_consistent reach, THEN conjunct2, THEN conjunct2])
  with reach show ?thesis by (intro exI conjI)
qed

theorem outbox_loses_nothing_witness:
  "\<exists>sys. (worker_step empty_config sample_readers no_add)\<^sup>*\<^sup>* (started 4 pending_db) sys
     \<and> set (sy_bus sys) \<subseteq> rowToEnvelope ` set (db_events (sy_db sys))"
proof -
  obtain input :: commit_input and r and sys where reach: "(worker_step empty_config sample_readers no_add)\<^sup>*\<^sup>* (started 4 pending_db) sys"
    by (rule sample_reachable)
  have "db_ok pending_db" using pending_consistent by (simp add: consistent_def)
  from outbox_loses_nothing [OF this reach, THEN conjunct2, THEN conjunct1] reach
  show ?thesis by (intro exI conjI)
qed

end
