(* ===== verification/Authentication.thy ===== *)
theory Authentication
  imports Row_Mappers Policy_Engine
begin

text \<open>
  Who is calling (\<open>apps/control-plane/src\<close>: principal.ts, auth/token-verifier.ts, auth/principal-resolver.ts,
  auth/authenticate.ts): the development header shim, token verification over a parameter for
  \<open>jose.jwtVerify\<close>, the resolution of a verified subject to a principal from the stored memberships, and
  the two authenticators.
\<close>

section \<open>The development shim (principal.ts)\<close>

definition firstString :: "js \<Rightarrow> string option" where
  "firstString v =
     (case v of
        JStr s \<Rightarrow> Some s
      | JArr (JStr s # _) \<Rightarrow> Some s
      | _ \<Rightarrow> None)"

text \<open>\<open>raw.split(',')\<close>\<close>

fun split_comma :: "string \<Rightarrow> string list" where
  "split_comma [] = [[]]"
| "split_comma (c # s) =
     (if c = CHR '','' then [] # split_comma s
      else (case split_comma s of [] \<Rightarrow> [[c]] | w # ws \<Rightarrow> (c # w) # ws))"

definition csv :: "js \<Rightarrow> string list" where
  "csv v =
     (case firstString v of
        None \<Rightarrow> []
      | Some raw \<Rightarrow> if raw = [] then [] else filter (\<lambda>s. s \<noteq> []) (map js_trim (split_comma raw)))"

definition devPrincipalFromHeaders :: "(string \<times> js) list \<Rightarrow> principal_context option" where
  "devPrincipalFromHeaders headers =
     (case (firstString (js_get headers ''x-donna-user-id''), firstString (js_get headers ''x-donna-org-id''),
            firstString (js_get headers ''x-donna-role'')) of
        (Some userId, Some organizationId, Some roleRaw) \<Rightarrow>
          (case union_of_text role_text ROLES roleRaw of
             None \<Rightarrow> None
           | Some role \<Rightarrow>
               Some \<lparr>pr_userId = userId, pr_organizationId = organizationId, pr_role = role,
                     pr_actorKind =
                       (if firstString (js_get headers ''x-donna-actor-kind'') = Some ''human''
                        then KindHuman else KindAgent),
                     pr_teamIds = csv (js_get headers ''x-donna-teams''),
                     pr_projectIds = csv (js_get headers ''x-donna-projects'')\<rparr>)
      | _ \<Rightarrow> None)"

section \<open>Token verification (token-verifier.ts)\<close>

text \<open>
  \<open>jwtVerify(token, key, options)\<close> is code of jose: given the issuer and the audience of the options it
  gives the claims of a token it accepts, or the message of its error. Its key is part of the parameter.
\<close>

type_synonym claims = "(string \<times> js) list"
type_synonym jwt_verify = "string \<Rightarrow> string option \<Rightarrow> string option \<Rightarrow> string + claims"

record verifier_config =
  vf_issuer :: "string option"
  vf_audience :: "string option"
  vf_requireMfa :: "bool option"
  vf_mfaClaim :: "string option"
  vf_mfaValue :: "string option"

record verified_identity =
  vi_subject :: string
  vi_email :: "string option"
  vi_claims :: claims

definition mfaSatisfied :: "verifier_config \<Rightarrow> claims \<Rightarrow> bool" where
  "mfaSatisfied config claims =
     (let raw = js_get claims (coalesce (vf_mfaClaim config) ''mfa'') in
      case vf_mfaValue config of
        Some v \<Rightarrow> raw = JStr v
      | None \<Rightarrow> raw = JBool True \<or> raw = JStr ''true'' \<or> raw = JNum (Finite 1))"

definition verifyToken :: "jwt_verify \<Rightarrow> verifier_config \<Rightarrow> string \<Rightarrow> exn + verified_identity" where
  "verifyToken jwtVerify config token =
     (case jwtVerify token (vf_issuer config) (vf_audience config) of
        Inl message \<Rightarrow> Inl (TokenInvalid message)
      | Inr payload \<Rightarrow>
          (case js_get payload ''sub'' of
             JStr sub \<Rightarrow>
               if sub = [] then Inl (TokenInvalid ''token has no subject'')
               else if vf_requireMfa config = Some True \<and> \<not> mfaSatisfied config payload
               then Inl MfaRequired
               else Inr \<lparr>vi_subject = sub,
                         vi_email = (case js_get payload ''email'' of JStr e \<Rightarrow> Some e | _ \<Rightarrow> None),
                         vi_claims = payload\<rparr>
           | _ \<Rightarrow> Inl (TokenInvalid ''token has no subject'')))"

section \<open>Resolving the principal (principal-resolver.ts)\<close>

definition memberships_of :: "user_row \<Rightarrow> 'j db \<Rightarrow> membership_row list" where
  "memberships_of user d =
     filter (\<lambda>m. mw_userId m = uw_id user \<and> mw_organizationId m = uw_organizationId user) (db_memberships d)"

definition projects_of :: "user_row \<Rightarrow> 'j db \<Rightarrow> ident list" where
  "projects_of user d =
     map pw_projectId
       (filter (\<lambda>p. pw_userId p = uw_id user \<and> pw_organizationId p = uw_organizationId user)
          (db_projectMemberships d))"

definition primary_membership :: "membership_row list \<Rightarrow> membership_row option" where
  "primary_membership ms =
     (case find (\<lambda>m. mw_teamId m = None) ms of Some m \<Rightarrow> Some m | None \<Rightarrow> first_of ms)"

definition resolve_principal :: "verified_identity \<Rightarrow> ('j db, exn, principal_context option) act" where
  "resolve_principal identity =
     gets (\<lambda>d.
       case find (\<lambda>u. uw_externalAuthId u = Some (vi_subject identity)) (db_users d) of
         None \<Rightarrow> None
       | Some user \<Rightarrow>
           (let memberships = memberships_of user d in
            case primary_membership memberships of
              None \<Rightarrow> None
            | Some primary \<Rightarrow>
                Some \<lparr>pr_userId = uw_id user, pr_organizationId = uw_organizationId user,
                      pr_role = mw_role primary, pr_actorKind = KindHuman,
                      pr_teamIds = List.map_filter mw_teamId memberships,
                      pr_projectIds = projects_of user d\<rparr>))"

section \<open>Authenticators (authenticate.ts)\<close>

datatype auth_outcome = Authenticated principal_context | Refused nat string

type_synonym 's authenticator = "(string \<times> js) list \<Rightarrow> ('s, exn, auth_outcome) act"

text \<open>
  \<open>/^Bearer\s+(.+)$/i\<close>: the rest after the white space, or the last character of the white space when
  there is nothing else; a dot does not match a line end.
\<close>

definition line_end :: "char \<Rightarrow> bool" where
  "line_end c = (c = CHR 0x0A \<or> c = CHR 0x0D)"

definition bearer_match :: "string \<Rightarrow> string option" where
  "bearer_match s =
     (if js_lower (take 6 s) \<noteq> ''bearer'' then None
      else let spaces = takeWhile js_space (drop 6 s); rest = dropWhile js_space (drop 6 s) in
        if rest \<noteq> []
        then (if spaces = [] \<or> list_ex line_end rest then None else Some rest)
        else (if length spaces < 2 \<or> line_end (last spaces) then None else Some [last spaces]))"

definition bearerToken :: "(string \<times> js) list \<Rightarrow> string option" where
  "bearerToken headers =
     (case firstString (js_get headers ''authorization'') of None \<Rightarrow> None | Some s \<Rightarrow> bearer_match s)"

definition devAuthenticator :: "'s authenticator" where
  "devAuthenticator headers =
     ret (case devPrincipalFromHeaders headers of
            None \<Rightarrow> Refused 401 ''unauthenticated''
          | Some prin \<Rightarrow> Authenticated prin)"

definition jwtAuthenticator ::
    "(string \<Rightarrow> exn + verified_identity) \<Rightarrow> (verified_identity \<Rightarrow> ('s, exn, principal_context option) act) \<Rightarrow>
     's authenticator" where
  "jwtAuthenticator verify resolve headers =
     (case bearerToken headers of
        None \<Rightarrow> ret (Refused 401 ''missing_bearer_token'')
      | Some token \<Rightarrow>
          (case verify token of
             Inl error \<Rightarrow> ret (if error = MfaRequired then Refused 403 ''mfa_required'' else Refused 401 ''invalid_token'')
           | Inr identity \<Rightarrow>
               bind_act (resolve identity) (\<lambda>found.
               ret (case found of None \<Rightarrow> Refused 403 ''no_account'' | Some prin \<Rightarrow> Authenticated prin))))"

section \<open>Facts\<close>

lemma devPrincipal_role: "devPrincipalFromHeaders headers = Some p \<Longrightarrow>
    isRole (role_text (pr_role p)) \<and> firstString (js_get headers ''x-donna-role'') = Some (role_text (pr_role p))"
  by (auto simp: devPrincipalFromHeaders_def isRole_def roles.is_text_iff roles.of_text_iff
      split: option.splits)

text \<open>A principal as the stored rows give it, and only them.\<close>

definition stored_principal :: "'j db \<Rightarrow> ident \<Rightarrow> principal_context \<Rightarrow> bool" where
  "stored_principal d subject p \<longleftrightarrow>
     (\<exists>user \<in> set (db_users d).
        uw_externalAuthId user = Some subject \<and> pr_userId p = uw_id user
        \<and> pr_organizationId p = uw_organizationId user \<and> pr_actorKind p = KindHuman
        \<and> (\<exists>m \<in> set (memberships_of user d). pr_role p = mw_role m
             \<and> ((\<exists>m' \<in> set (memberships_of user d). mw_teamId m' = None) \<longrightarrow> mw_teamId m = None))
        \<and> (\<forall>t. t \<in> set (pr_teamIds p) \<longleftrightarrow> (\<exists>m \<in> set (memberships_of user d). mw_teamId m = Some t))
        \<and> set (pr_projectIds p) = set (projects_of user d))"

lemma primary_membership_Some:
  "primary_membership ms = Some m \<Longrightarrow> m \<in> set ms \<and> ((\<exists>m' \<in> set ms. mw_teamId m' = None) \<longrightarrow> mw_teamId m = None)"
  by (auto simp: primary_membership_def find_None_conv first_of_def dest: find_SomeD split: option.splits list.splits)

lemma primary_membership_None: "primary_membership ms = None \<longleftrightarrow> ms = []"
  by (auto simp: primary_membership_def find_None_conv first_of_def split: option.splits list.splits)

lemma resolve_principal_cases:
  obtains (unknown) "resolve_principal identity d = (Inr None, d)"
      "\<forall>u \<in> set (db_users d). uw_externalAuthId u \<noteq> Some (vi_subject identity)"
  | (stranger) user where "resolve_principal identity d = (Inr None, d)" "user \<in> set (db_users d)"
      "uw_externalAuthId user = Some (vi_subject identity)" "memberships_of user d = []"
  | (member) user m where "resolve_principal identity d = (Inr (Some
        \<lparr>pr_userId = uw_id user, pr_organizationId = uw_organizationId user, pr_role = mw_role m,
         pr_actorKind = KindHuman, pr_teamIds = List.map_filter mw_teamId (memberships_of user d),
         pr_projectIds = projects_of user d\<rparr>), d)"
      "user \<in> set (db_users d)" "uw_externalAuthId user = Some (vi_subject identity)"
      "m \<in> set (memberships_of user d)"
      "(\<exists>m' \<in> set (memberships_of user d). mw_teamId m' = None) \<longrightarrow> mw_teamId m = None"
proof (cases "find (\<lambda>u. uw_externalAuthId u = Some (vi_subject identity)) (db_users d)")
  case None
  show ?thesis
  proof (rule unknown)
    show "resolve_principal identity d = (Inr None, d)"
      using None by (simp add: resolve_principal_def gets_def)
    show "\<forall>u \<in> set (db_users d). uw_externalAuthId u \<noteq> Some (vi_subject identity)"
      using None by (simp add: find_None_conv)
  qed
next
  case (Some user)
  then have user: "user \<in> set (db_users d)" "uw_externalAuthId user = Some (vi_subject identity)"
    by (auto dest: find_SomeD)
  show ?thesis
  proof (cases "primary_membership (memberships_of user d)")
    case None
    with Some user show ?thesis
      by (intro stranger [of user]) (simp_all add: resolve_principal_def gets_def Let_def flip: primary_membership_None)
  next
    case primary: (Some m)
    from primary_membership_Some [OF primary] show ?thesis
      using Some user primary by (intro member [of user m]) (simp_all add: resolve_principal_def gets_def Let_def)
  qed
qed

lemma resolve_principal_stored:
  assumes "resolve_principal identity d = (Inr (Some p), d')"
  shows "stored_principal d (vi_subject identity) p \<and> d' = d"
  by (cases rule: resolve_principal_cases [of identity d])
    (use assms in \<open>auto simp: stored_principal_def set_map_filter_Some\<close>)

lemma resolve_principal_None:
  assumes "unique_on uw_externalAuthId (db_users d)"
  shows "fst (resolve_principal identity d) = Inr None \<longleftrightarrow>
    (\<forall>user \<in> set (db_users d). uw_externalAuthId user = Some (vi_subject identity) \<longrightarrow> memberships_of user d = [])"
proof (cases rule: resolve_principal_cases [of identity d])
  case unknown
  then show ?thesis by simp
next
  case (stranger user)
  have uniq: "u = user" if "u \<in> set (db_users d)" "uw_externalAuthId u = Some (vi_subject identity)" for u
    using unique_onD [OF assms that(1) stranger(2) that(2) stranger(3)] .
  have "\<forall>u \<in> set (db_users d). uw_externalAuthId u = Some (vi_subject identity) \<longrightarrow> memberships_of u d = []"
    using uniq stranger(4) by blast
  moreover from stranger(1) have "fst (resolve_principal identity d) = Inr None" by simp
  ultimately show ?thesis by blast
next
  case (member user m)
  from member(4) have "memberships_of user d \<noteq> []" by auto
  with member(2,3) have "\<not> (\<forall>user \<in> set (db_users d). uw_externalAuthId user = Some (vi_subject identity) \<longrightarrow>
      memberships_of user d = [])" by blast
  moreover from member(1) have "fst (resolve_principal identity d) \<noteq> Inr None" by simp
  ultimately show ?thesis by blast
qed

text \<open>The bearer token of a well-formed header, and the shape of the lists of the shim.\<close>

lemma bearer_match_plain:
  assumes "t \<noteq> []" and "\<not> js_space (hd t)" and "\<not> list_ex line_end t"
  shows "bearer_match (''Bearer '' @ t) = Some t"
proof -
  obtain c u where t: "t = c # u" using assms(1) by (cases t) auto
  have "js_space CHR '' ''" by (simp add: js_space_def)
  moreover have "js_lower ''Bearer'' = ''bearer''" by code_simp
  ultimately show ?thesis using assms t by (simp add: bearer_match_def Let_def)
qed

lemma js_trim_idem [simp]: "js_trim (js_trim s) = js_trim s"
proof -
  have hd_kept: "dropWhile js_space (rev (dropWhile js_space (rev xs))) = rev (dropWhile js_space (rev xs))"
    if "dropWhile js_space xs = xs" for xs
  proof (cases "rev (dropWhile js_space (rev xs))")
    case (Cons y ys)
    have "xs = rev (dropWhile js_space (rev xs)) @ rev (takeWhile js_space (rev xs))"
      by (metis rev_append rev_rev_ident takeWhile_dropWhile_id)
    with Cons have "xs = y # (ys @ rev (takeWhile js_space (rev xs)))" by simp
    with that have "\<not> js_space y" by (metis dropWhile_eq_Cons_conv)
    with Cons show ?thesis by simp
  next
    case Nil
    show ?thesis unfolding Nil by simp
  qed
  show ?thesis
    unfolding js_trim_def by (subst hd_kept) simp_all
qed

lemma split_comma_no_comma: "w \<in> set (split_comma s) \<Longrightarrow> CHR '','' \<notin> set w"
  by (induction s arbitrary: w) (auto split: if_splits list.splits)

lemma set_js_trim: "set (js_trim s) \<subseteq> set s"
proof -
  have "set (js_trim s) \<subseteq> set (dropWhile js_space s)"
    by (auto simp: js_trim_def dest: set_dropWhileD)
  then show ?thesis by (auto dest: set_dropWhileD)
qed

lemma csv_items: "w \<in> set (csv v) \<Longrightarrow> w \<noteq> [] \<and> js_trim w = w \<and> CHR '','' \<notin> set w"
  using split_comma_no_comma set_js_trim by (fastforce simp: csv_def split: option.splits if_splits)

section \<open>Properties\<close>

text \<open>
  C25: With the token authenticator a caller is authenticated only with a bearer token that the verifier
  accepts for the configured issuer and audience, that names a subject and, where required, has satisfied
  the MFA claim; and the principal is the one our own rows give for that subject: its organisation, role,
  teams and projects never come from the token. It never throws, never changes the database, and every
  refusal is a 401 or 403 with its reason.
\<close>

theorem jwt_authentication_sound:
  "case jwtAuthenticator (verifyToken jwtVerify config) resolve_principal headers d of
     (Inl e, d') \<Rightarrow> False
   | (Inr (Refused code reason), d') \<Rightarrow> d' = d
       \<and> (code, reason) \<in> {(401, ''missing_bearer_token''), (401, ''invalid_token''), (403, ''mfa_required''), (403, ''no_account'')}
   | (Inr (Authenticated p), d') \<Rightarrow> d' = d
       \<and> (\<exists>token payload sub. bearerToken headers = Some token
            \<and> jwtVerify token (vf_issuer config) (vf_audience config) = Inr payload
            \<and> js_get payload ''sub'' = JStr sub \<and> sub \<noteq> []
            \<and> (vf_requireMfa config = Some True \<longrightarrow> mfaSatisfied config payload)
            \<and> stored_principal d sub p)"
proof (cases "bearerToken headers")
  case None
  then show ?thesis by (simp add: jwtAuthenticator_def ret_def)
next
  case token: (Some token)
  show ?thesis
  proof (cases "verifyToken jwtVerify config token")
    case (Inl e)
    with token show ?thesis by (simp add: jwtAuthenticator_def ret_def)
  next
    case (Inr identity)
    then obtain payload where payload: "jwtVerify token (vf_issuer config) (vf_audience config) = Inr payload"
      "js_get payload ''sub'' = JStr (vi_subject identity)" "vi_subject identity \<noteq> []"
      "vf_requireMfa config = Some True \<longrightarrow> mfaSatisfied config payload"
      by (auto simp: verifyToken_def split: sum.splits jsval.splits if_splits)
    obtain found where found: "resolve_principal identity d = (Inr found, d)"
      by (cases rule: resolve_principal_cases [of identity d]) auto
    show ?thesis
    proof (cases found)
      case None
      with token Inr found show ?thesis by (simp add: jwtAuthenticator_def bind_act_def ret_def)
    next
      case (Some p)
      from resolve_principal_stored [OF found [unfolded Some]] payload token Inr found Some
      show ?thesis by (auto simp: jwtAuthenticator_def bind_act_def ret_def)
    qed
  qed
qed

definition sample_headers :: "(string \<times> js) list" where
  "sample_headers =
     [(''authorization'', JStr ''Bearer token''), (''x-donna-user-id'', JStr ''u1''),
      (''x-donna-org-id'', JStr ''org''), (''x-donna-role'', JStr ''owner''),
      (''x-donna-teams'', JStr ''t1, t2,,'')]"

definition sample_verify :: jwt_verify where
  "sample_verify token issuer audience = Inr [(''sub'', JStr ''clerk-u1''), (''mfa'', JBool True)]"

definition sample_verifier :: verifier_config where
  "sample_verifier = \<lparr>vf_issuer = None, vf_audience = None, vf_requireMfa = Some True, vf_mfaClaim = None,
     vf_mfaValue = None\<rparr>"

theorem jwt_authentication_sound_witness:
  "\<exists>p. jwtAuthenticator (verifyToken sample_verify sample_verifier) resolve_principal sample_headers sample_db
     = (Inr (Authenticated p), sample_db) \<and> stored_principal sample_db ''clerk-u1'' p"
proof -
  have token: "bearerToken sample_headers = Some ''token''"
    using bearer_match_plain [of "''token''"]
    by (simp add: bearerToken_def sample_headers_def firstString_def js_space_def line_end_def)
  have "\<exists>p. fst (jwtAuthenticator (verifyToken sample_verify sample_verifier) resolve_principal sample_headers sample_db)
      = Inr (Authenticated p)"
    by (simp add: jwtAuthenticator_def token verifyToken_def sample_verify_def sample_verifier_def mfaSatisfied_def
        bind_act_def ret_def resolve_principal_def gets_def sample_db_def memberships_of_def primary_membership_def)
  with jwt_authentication_sound [where jwtVerify = sample_verify and config = sample_verifier
      and headers = sample_headers and d = sample_db] show ?thesis
    by (auto simp: sample_verify_def split: prod.splits)
qed

text \<open>
  C26: The development shim yields a principal only for the three identity headers and a known role, never
  a human unless the header says so, and its teams and projects are non-empty, trimmed and without commas.
\<close>

theorem dev_principal_well_formed:
  assumes "devPrincipalFromHeaders headers = Some p"
  shows "firstString (js_get headers ''x-donna-role'') = Some (role_text (pr_role p))
    \<and> (pr_actorKind p = KindHuman \<longleftrightarrow> firstString (js_get headers ''x-donna-actor-kind'') = Some ''human'')
    \<and> (\<forall>w. w \<in> set (pr_teamIds p) \<union> set (pr_projectIds p) \<longrightarrow> w \<noteq> [] \<and> js_trim w = w \<and> CHR '','' \<notin> set w)"
proof -
  have "pr_teamIds p = csv (js_get headers ''x-donna-teams'')"
    "pr_projectIds p = csv (js_get headers ''x-donna-projects'')"
    "pr_actorKind p = (if firstString (js_get headers ''x-donna-actor-kind'') = Some ''human'' then KindHuman else KindAgent)"
    using assms by (auto simp: devPrincipalFromHeaders_def split: option.splits)
  with devPrincipal_role [OF assms] show ?thesis by (auto dest: csv_items)
qed

theorem dev_principal_well_formed_witness:
  "\<exists>p. devPrincipalFromHeaders sample_headers = Some p \<and> pr_actorKind p \<noteq> KindHuman"
proof -
  obtain p where p: "devPrincipalFromHeaders sample_headers = Some p"
    by (simp add: devPrincipalFromHeaders_def sample_headers_def firstString_def union_of_text_def ROLES_def)
  from dev_principal_well_formed [OF this] have "pr_actorKind p \<noteq> KindHuman"
    by (simp add: sample_headers_def firstString_def)
  with p show ?thesis by blast
qed

end
