(* ===== verification/Runtime_Config.thy ===== *)
theory Runtime_Config
  imports Authentication
begin

text \<open>
  Startup (\<open>apps/control-plane/src/runtime-config.ts\<close> and the authenticator of \<open>main.ts\<close>): which
  environment the process runs in, what production requires, and which authenticator and stores it gets.
\<close>

type_synonym environment = "string \<Rightarrow> string option"

datatype app_env = Production | Development | Test

definition resolveAppEnv :: "environment \<Rightarrow> app_env" where
  "resolveAppEnv vars =
     (let raw = js_lower (js_trim (coalesce (vars ''APP_ENV'') (coalesce (vars ''NODE_ENV'') []))) in
      if raw = ''development'' \<or> raw = ''dev'' then Development
      else if raw = ''test'' then Test
      else Production)"

record jwt_auth_config =
  jc_jwksUrl :: string
  jc_issuer :: "string option"
  jc_audience :: "string option"
  jc_requireMfa :: bool
  jc_mfaClaim :: "string option"

datatype auth_config = Jwt jwt_auth_config | Dev_shim

record startup_config =
  sc_appEnv :: app_env
  sc_databaseUrl :: "string option"
  sc_auth :: auth_config
  sc_webhookSecret :: "string option"

datatype startup_resolution = Start startup_config | Refuse app_env "string list"

definition present :: "string option \<Rightarrow> bool" where
  "present x = (x \<noteq> None \<and> x \<noteq> Some [])"

definition missingProductionVars :: "environment \<Rightarrow> string list" where
  "missingProductionVars vars =
     (if \<not> present (vars ''DATABASE_URL'') then [''DATABASE_URL''] else [])
     @ (if \<not> present (vars ''AUTH_JWKS_URL'') then [''AUTH_JWKS_URL''] else [])
     @ (if \<not> present (vars ''AUTH_ISSUER'') then [''AUTH_ISSUER''] else [])
     @ (if \<not> present (vars ''AUTH_AUDIENCE'') then [''AUTH_AUDIENCE''] else [])
     @ (if \<not> present (vars ''CLERK_WEBHOOK_SECRET'') then [''CLERK_WEBHOOK_SECRET''] else [])
     @ (if vars ''AUTH_REQUIRE_MFA'' \<noteq> Some ''true'' then [''AUTH_REQUIRE_MFA (must be \"true\")''] else [])"

definition jwt_from :: "environment \<Rightarrow> string \<Rightarrow> bool \<Rightarrow> auth_config" where
  "jwt_from vars jwksUrl requireMfa =
     Jwt \<lparr>jc_jwksUrl = jwksUrl, jc_issuer = vars ''AUTH_ISSUER'', jc_audience = vars ''AUTH_AUDIENCE'',
          jc_requireMfa = requireMfa, jc_mfaClaim = vars ''AUTH_MFA_CLAIM''\<rparr>"

definition resolveStartupConfig :: "environment \<Rightarrow> startup_resolution" where
  "resolveStartupConfig vars =
     (let appEnv = resolveAppEnv vars in
      if appEnv = Production
      then let missing = missingProductionVars vars in
        if missing \<noteq> [] then Refuse appEnv missing
        else Start \<lparr>sc_appEnv = appEnv, sc_databaseUrl = vars ''DATABASE_URL'',
               sc_auth = jwt_from vars (coalesce (vars ''AUTH_JWKS_URL'') []) True,
               sc_webhookSecret = vars ''CLERK_WEBHOOK_SECRET''\<rparr>
      else let databaseUrl = (if present (vars ''DATABASE_URL'') then vars ''DATABASE_URL'' else None);
               jwksUrl = vars ''AUTH_JWKS_URL'';
               useJwt = present jwksUrl \<and> databaseUrl \<noteq> None in
        Start \<lparr>sc_appEnv = appEnv, sc_databaseUrl = databaseUrl,
               sc_auth =
                 (if useJwt
                  then jwt_from vars (coalesce jwksUrl []) (vars ''AUTH_REQUIRE_MFA'' = Some ''true'')
                  else Dev_shim),
               sc_webhookSecret =
                 (if present (vars ''CLERK_WEBHOOK_SECRET'') then vars ''CLERK_WEBHOOK_SECRET'' else None)\<rparr>)"

text \<open>
  \<open>buildAuthenticator\<close> of main.ts; the key set at the JWKS address is fetched by jose, so verification is a
  parameter of that address. With token verification and no database the process stops.
\<close>

definition verifier_of :: "jwt_auth_config \<Rightarrow> verifier_config" where
  "verifier_of auth =
     \<lparr>vf_issuer = jc_issuer auth, vf_audience = jc_audience auth, vf_requireMfa = Some (jc_requireMfa auth),
      vf_mfaClaim = jc_mfaClaim auth, vf_mfaValue = None\<rparr>"

definition buildAuthenticator ::
    "(string \<Rightarrow> jwt_verify) \<Rightarrow> auth_config \<Rightarrow> bool \<Rightarrow> exn + 'j db authenticator" where
  "buildAuthenticator jose auth has_db =
     (case auth of
        Dev_shim \<Rightarrow> Inr devAuthenticator
      | Jwt c \<Rightarrow>
          if \<not> has_db then Inl (OtherError ''JWT authentication requires a database for principal resolution.'')
          else Inr (jwtAuthenticator (verifyToken (jose (jc_jwksUrl c)) (verifier_of c)) resolve_principal))"

section \<open>Properties\<close>


definition production_vars :: environment where
  "production_vars = map_of
     [(''DATABASE_URL'', ''postgres''), (''AUTH_JWKS_URL'', ''https''), (''AUTH_ISSUER'', ''clerk''),
      (''AUTH_AUDIENCE'', ''donna''), (''CLERK_WEBHOOK_SECRET'', ''whsec''), (''AUTH_REQUIRE_MFA'', ''true'')]"


end
