(* ===== verification/Provisioning.thy ===== *)
theory Provisioning
  imports Authentication Task_Dispatch
begin

text \<open>
  Provisioning from Clerk's webhooks (\<open>apps/control-plane/src/webhooks\<close>: clerk-events.ts and
  provisioning.ts): reading a verified event, and applying it to the organisations, users and memberships.
  The lemmas show what a sync makes of a verified identity, that redelivery changes nothing, that no
  webhook grants ownership, and where the constraints of the schema make an event fail.
\<close>

section \<open>Reading events (clerk-events.ts)\<close>

type_synonym js_fields = "(string \<times> js) list"

record clerk_event =
  ck_type :: string
  ck_data :: js_fields

record membership_sync =
  ms_clerkOrgId :: string
  ms_orgName :: string
  ms_orgSlug :: string
  ms_clerkUserId :: string
  ms_email :: string
  ms_displayName :: string
  ms_role :: role

record user_update =
  us_clerkUserId :: string
  us_email :: string
  us_displayName :: string

record org_update =
  ou_clerkOrgId :: string
  ou_name :: string
  ou_slug :: string

definition bad_payload :: "string \<Rightarrow> exn + 'a" where
  "bad_payload message = Inl (ClerkPayload (''Invalid Clerk payload: '' @ message))"

definition str :: "js_fields \<Rightarrow> string \<Rightarrow> exn + string" where
  "str rec key =
     (case js_get rec key of
        JStr s \<Rightarrow> if s = [] then bad_payload (''\"'' @ key @ ''\" must be a non-empty string'') else Inr s
      | _ \<Rightarrow> bad_payload (''\"'' @ key @ ''\" must be a non-empty string''))"

definition field_record :: "js_fields \<Rightarrow> string \<Rightarrow> exn + js_fields" where
  "field_record rec key =
     (case js_get rec key of JObj kvs \<Rightarrow> Inr kvs | _ \<Rightarrow> bad_payload (''missing '' @ key))"

definition parseClerkEvent :: "js \<Rightarrow> exn + clerk_event" where
  "parseClerkEvent payload =
     (case payload of
        JObj rec \<Rightarrow>
          (case js_get rec ''type'' of
             JStr t \<Rightarrow>
               (case js_get rec ''data'' of
                  JObj data \<Rightarrow> Inr \<lparr>ck_type = t, ck_data = data\<rparr>
                | _ \<Rightarrow> bad_payload ''missing event data'')
           | _ \<Rightarrow> bad_payload ''missing event type'')
      | _ \<Rightarrow> bad_payload ''event must be an object'')"

definition mapClerkRole :: "string \<Rightarrow> role" where
  "mapClerkRole clerkRole = (if clerkRole = ''org:admin'' \<or> clerkRole = ''admin'' then Admin else Team_member)"

definition text_or_empty :: "js_fields \<Rightarrow> string \<Rightarrow> string" where
  "text_or_empty rec key = (case js_get rec key of JStr s \<Rightarrow> s | _ \<Rightarrow> [])"

definition displayNameFrom :: "js_fields \<Rightarrow> string \<Rightarrow> string" where
  "displayNameFrom rec fallback =
     (let name = js_trim (text_or_empty rec ''first_name'' @ '' '' @ text_or_empty rec ''last_name'')
      in if name = [] then fallback else name)"

definition parseMembershipSync :: "js_fields \<Rightarrow> exn + membership_sync" where
  "parseMembershipSync data =
     and_then (field_record data ''organization'') (\<lambda>org.
     and_then (field_record data ''public_user_data'') (\<lambda>userData.
     and_then (str userData ''identifier'') (\<lambda>email.
     and_then (str org ''id'') (\<lambda>clerkOrgId.
     and_then (str org ''name'') (\<lambda>orgName.
     and_then (str org ''slug'') (\<lambda>orgSlug.
     and_then (str userData ''user_id'') (\<lambda>clerkUserId.
     Inr \<lparr>ms_clerkOrgId = clerkOrgId, ms_orgName = orgName, ms_orgSlug = orgSlug,
          ms_clerkUserId = clerkUserId, ms_email = email, ms_displayName = displayNameFrom userData email,
          ms_role = mapClerkRole (text_or_empty data ''role'')\<rparr>)))))))"

text \<open>\<open>===\<close>: two objects of a parsed body are never the same object.\<close>

definition strict_equal :: "js \<Rightarrow> js \<Rightarrow> bool" where
  "strict_equal a b =
     (case a of
        JArr _ \<Rightarrow> False
      | JObj _ \<Rightarrow> False
      | JNum n \<Rightarrow> a = b \<and> n \<noteq> NotANumber
      | _ \<Rightarrow> a = b)"

fun is_record :: "js \<Rightarrow> bool" where
  "is_record (JObj kvs) = True"
| "is_record _ = False"

definition address_record :: "js \<Rightarrow> js \<Rightarrow> bool" where
  "address_record primaryId e = (case e of JObj kvs \<Rightarrow> strict_equal (js_get kvs ''id'') primaryId | _ \<Rightarrow> False)"

definition primaryEmail :: "js_fields \<Rightarrow> exn + string" where
  "primaryEmail data =
     (let none = bad_payload ''no email address on user'' in
      case js_get data ''email_addresses'' of
        JArr es \<Rightarrow>
          (let chosen = (case find (address_record (js_get data ''primary_email_address_id'')) es of
                           Some e \<Rightarrow> Some e
                         | None \<Rightarrow> find is_record es)
           in case chosen of
                Some (JObj kvs) \<Rightarrow> (case js_get kvs ''email_address'' of JStr s \<Rightarrow> Inr s | _ \<Rightarrow> none)
              | _ \<Rightarrow> none)
      | _ \<Rightarrow> none)"

definition parseUserUpdate :: "js_fields \<Rightarrow> exn + user_update" where
  "parseUserUpdate data =
     and_then (str data ''id'') (\<lambda>clerkUserId.
     and_then (primaryEmail data) (\<lambda>email.
     Inr \<lparr>us_clerkUserId = clerkUserId, us_email = email, us_displayName = displayNameFrom data email\<rparr>))"

definition parseOrgUpdate :: "js_fields \<Rightarrow> exn + org_update" where
  "parseOrgUpdate data =
     and_then (str data ''id'') (\<lambda>i.
     and_then (str data ''name'') (\<lambda>n.
     and_then (str data ''slug'') (\<lambda>s.
     Inr \<lparr>ou_clerkOrgId = i, ou_name = n, ou_slug = s\<rparr>)))"

definition parseDeletedId :: "js_fields \<Rightarrow> exn + string" where
  "parseDeletedId data = str data ''id''"

definition parseMembershipRef :: "js_fields \<Rightarrow> exn + (string \<times> string)" where
  "parseMembershipRef data =
     and_then (field_record data ''organization'') (\<lambda>org.
     and_then (field_record data ''public_user_data'') (\<lambda>userData.
     and_then (str org ''id'') (\<lambda>clerkOrgId.
     and_then (str userData ''user_id'') (\<lambda>clerkUserId.
     Inr (clerkOrgId, clerkUserId)))))"

section \<open>Applying events (provisioning.ts)\<close>

definition orgIdByExternal :: "string \<Rightarrow> 'j db \<Rightarrow> ident option" where
  "orgIdByExternal ext d = map_option og_id (find (\<lambda>r. og_externalAuthId r = Some ext) (db_orgs d))"

definition userIdByExternal :: "string \<Rightarrow> 'j db \<Rightarrow> ident option" where
  "userIdByExternal ext d = map_option uw_id (find (\<lambda>r. uw_externalAuthId r = Some ext) (db_users d))"

definition update_orgs :: "ident \<Rightarrow> string \<Rightarrow> string \<Rightarrow> 'j db \<Rightarrow> 'j db" where
  "update_orgs i name slug d =
     d\<lparr>db_orgs := map (\<lambda>r. if og_id r = i then r\<lparr>og_name := name, og_slug := slug\<rparr> else r) (db_orgs d)\<rparr>"

definition upsertOrg :: "env \<Rightarrow> nat \<Rightarrow> string \<Rightarrow> string \<Rightarrow> string \<Rightarrow> ('j db, exn, ident) act" where
  "upsertOrg env tick ext name slug =
     bind_act (gets (orgIdByExternal ext)) (\<lambda>existing.
     case existing of
       Some i \<Rightarrow> seq_act (statement (update_orgs i name slug)) (ret i)
     | None \<Rightarrow>
         seq_act
           (statement (\<lambda>d. d\<lparr>db_orgs := db_orgs d @
              [\<lparr>og_id = fresh_id env tick, og_name = name, og_slug = slug, og_externalAuthId = Some ext\<rparr>]\<rparr>))
           (ret (fresh_id env tick)))"

definition update_users :: "ident \<Rightarrow> ident \<Rightarrow> string \<Rightarrow> string \<Rightarrow> 'j db \<Rightarrow> 'j db" where
  "update_users i org email displayName d =
     d\<lparr>db_users := map (\<lambda>r. if uw_id r = i
          then r\<lparr>uw_organizationId := org, uw_email := email, uw_displayName := displayName\<rparr> else r) (db_users d)\<rparr>"

definition upsertUser ::
    "env \<Rightarrow> nat \<Rightarrow> string \<Rightarrow> ident \<Rightarrow> string \<Rightarrow> string \<Rightarrow> ('j db, exn, ident) act" where
  "upsertUser env tick ext org email displayName =
     bind_act (gets (userIdByExternal ext)) (\<lambda>existing.
     case existing of
       Some i \<Rightarrow> seq_act (statement (update_users i org email displayName)) (ret i)
     | None \<Rightarrow>
         seq_act
           (statement (\<lambda>d. d\<lparr>db_users := db_users d @
              [\<lparr>uw_id = fresh_id env tick, uw_organizationId = org, uw_email = email,
                uw_displayName = displayName, uw_externalAuthId = Some ext\<rparr>]\<rparr>))
           (ret (fresh_id env tick)))"

text \<open>The organisation-level membership: the one without a team.\<close>

definition org_membership :: "ident \<Rightarrow> ident \<Rightarrow> membership_row \<Rightarrow> bool" where
  "org_membership org user m = (mw_userId m = user \<and> mw_organizationId m = org \<and> mw_teamId m = None)"

definition update_memberships :: "ident \<Rightarrow> role \<Rightarrow> 'j db \<Rightarrow> 'j db" where
  "update_memberships i role d =
     d\<lparr>db_memberships := map (\<lambda>m. if mw_id m = i then m\<lparr>mw_role := role\<rparr> else m) (db_memberships d)\<rparr>"

definition upsertMembership :: "env \<Rightarrow> nat \<Rightarrow> ident \<Rightarrow> ident \<Rightarrow> role \<Rightarrow> ('j db, exn, unit) act" where
  "upsertMembership env tick org user role =
     bind_act (gets (\<lambda>d. find (org_membership org user) (db_memberships d))) (\<lambda>found.
     case found of
       Some m \<Rightarrow> statement (update_memberships (mw_id m) role)
     | None \<Rightarrow>
         statement (\<lambda>d. d\<lparr>db_memberships := db_memberships d @
           [\<lparr>mw_id = fresh_id env tick, mw_organizationId = org, mw_userId = user, mw_teamId = None,
             mw_role = role\<rparr>]\<rparr>))"

definition syncMembership :: "env \<Rightarrow> nat \<Rightarrow> membership_sync \<Rightarrow> ('j db, exn, unit) act" where
  "syncMembership env tick m =
     transaction
       (bind_act (upsertOrg env tick (ms_clerkOrgId m) (ms_orgName m) (ms_orgSlug m)) (\<lambda>org.
        bind_act (upsertUser env (tick + 1) (ms_clerkUserId m) org (ms_email m) (ms_displayName m)) (\<lambda>user.
        upsertMembership env (tick + 2) org user (ms_role m))))"

definition updateUser :: "user_update \<Rightarrow> ('j db, exn, unit) act" where
  "updateUser u =
     statement (\<lambda>d. d\<lparr>db_users := map (\<lambda>r. if uw_externalAuthId r = Some (us_clerkUserId u)
        then r\<lparr>uw_email := us_email u, uw_displayName := us_displayName u\<rparr> else r) (db_users d)\<rparr>)"

definition upsertOrganization :: "env \<Rightarrow> nat \<Rightarrow> org_update \<Rightarrow> ('j db, exn, unit) act" where
  "upsertOrganization env tick u =
     bind_act (upsertOrg env tick (ou_clerkOrgId u) (ou_name u) (ou_slug u)) (\<lambda>_. ret ())"

definition removeMembership :: "string \<Rightarrow> string \<Rightarrow> ('j db, exn, unit) act" where
  "removeMembership clerkOrgId clerkUserId =
     bind_act (gets (orgIdByExternal clerkOrgId)) (\<lambda>org.
     bind_act (gets (userIdByExternal clerkUserId)) (\<lambda>user.
     case (org, user) of
       (Some i, Some u) \<Rightarrow>
         statement (\<lambda>d. d\<lparr>db_memberships := filter (\<lambda>m. \<not> org_membership i u m) (db_memberships d)\<rparr>)
     | _ \<Rightarrow> ret ()))"

definition revokeUser :: "string \<Rightarrow> ('j db, exn, unit) act" where
  "revokeUser clerkUserId =
     statement (\<lambda>d. d\<lparr>db_users := map (\<lambda>r. if uw_externalAuthId r = Some clerkUserId
        then r\<lparr>uw_externalAuthId := None\<rparr> else r) (db_users d)\<rparr>)"

definition handle :: "env \<Rightarrow> nat \<Rightarrow> clerk_event \<Rightarrow> ('j db, exn, bool) act" where
  "handle env tick event =
     (let t = ck_type event; data = ck_data event in
      if t = ''organizationMembership.created'' \<or> t = ''organizationMembership.updated''
      then bind_act (of_result (parseMembershipSync data)) (\<lambda>m. seq_act (syncMembership env tick m) (ret True))
      else if t = ''organizationMembership.deleted''
      then bind_act (of_result (parseMembershipRef data)) (\<lambda>(org, user). seq_act (removeMembership org user) (ret True))
      else if t = ''user.created'' \<or> t = ''user.updated''
      then bind_act (of_result (parseUserUpdate data)) (\<lambda>u. seq_act (updateUser u) (ret True))
      else if t = ''user.deleted''
      then bind_act (of_result (parseDeletedId data)) (\<lambda>i. seq_act (revokeUser i) (ret True))
      else if t = ''organization.created'' \<or> t = ''organization.updated''
      then bind_act (of_result (parseOrgUpdate data)) (\<lambda>u. seq_act (upsertOrganization env tick u) (ret True))
      else ret False)"

section \<open>What a sync leaves behind\<close>

definition synced :: "membership_sync \<Rightarrow> ident \<Rightarrow> ident \<Rightarrow> 'j db \<Rightarrow> bool" where
  "synced m org user d \<longleftrightarrow>
     db_ok d
     \<and> orgIdByExternal (ms_clerkOrgId m) d = Some org
     \<and> (\<forall>r \<in> set (db_orgs d). og_id r = org \<longrightarrow> og_name r = ms_orgName m \<and> og_slug r = ms_orgSlug m)
     \<and> userIdByExternal (ms_clerkUserId m) d = Some user
     \<and> (\<forall>r \<in> set (db_users d). uw_id r = user \<longrightarrow>
          uw_organizationId r = org \<and> uw_email r = ms_email m \<and> uw_displayName r = ms_displayName m)
     \<and> (\<exists>k. find (org_membership org user) (db_memberships d) = Some k \<and> mw_role k = ms_role m)"

lemma db_ok_keys:
  assumes "db_ok d"
  shows "unique_on (Some \<circ> og_id) (db_orgs d)" "unique_on (Some \<circ> uw_id) (db_users d)"
    "unique_on (Some \<circ> mw_id) (db_memberships d)" "unique_on uw_externalAuthId (db_users d)"
    "refers (\<lambda>m. Some (mw_organizationId m, mw_userId m)) (db_memberships d) (org_users d)"
  using assms by (simp_all add: db_ok_def tenancy_constraints_def)

lemma unique_key: "unique_on (Some \<circ> f) rows \<Longrightarrow> x \<in> set rows \<Longrightarrow> y \<in> set rows \<Longrightarrow> f x = f y \<Longrightarrow> x = y"
  by (rule unique_onD [of "Some \<circ> f" rows x y "f y"]) simp_all

lemma find_map_same: "(\<And>x. p (f x) = p x) \<Longrightarrow> find p (map f xs) = map_option f (find p xs)"
  by (induction xs) simp_all

lemma map_update_cases:
  "y \<in> set (map (\<lambda>x. if p x then f x else x) xs) \<Longrightarrow> \<exists>x \<in> set xs. y = (if p x then f x else x)"
  by auto

lemma updated_lists:
  "db_orgs (update_orgs i name slug d) =
     map (\<lambda>r. if og_id r = i then r\<lparr>og_name := name, og_slug := slug\<rparr> else r) (db_orgs d)"
  "db_users (update_users i org email displayName d) =
     map (\<lambda>r. if uw_id r = i
          then r\<lparr>uw_organizationId := org, uw_email := email, uw_displayName := displayName\<rparr> else r) (db_users d)"
  "db_memberships (update_memberships i role d) =
     map (\<lambda>m. if mw_id m = i then m\<lparr>mw_role := role\<rparr> else m) (db_memberships d)"
  by (simp_all add: update_orgs_def update_users_def update_memberships_def)

lemma updated_rows:
  "r \<in> set (db_orgs (update_orgs i name slug d)) \<Longrightarrow> og_id r = i \<Longrightarrow> og_name r = name \<and> og_slug r = slug"
  "u \<in> set (db_users (update_users i org email displayName d)) \<Longrightarrow> uw_id u = i \<Longrightarrow>
     uw_organizationId u = org \<and> uw_email u = email \<and> uw_displayName u = displayName"
  "k \<in> set (db_memberships (update_memberships i role d)) \<Longrightarrow> k \<in> set (db_memberships d) \<or> mw_role k = role"
  unfolding updated_lists by (drule map_update_cases, elim bexE, simp split: if_splits)+

lemma updated_frame [simp]:
  "d\<lparr>db_orgs := db_orgs (update_orgs i name slug d)\<rparr> = update_orgs i name slug d"
  "d\<lparr>db_users := db_users (update_users i org email displayName d)\<rparr> = update_users i org email displayName d"
  "d\<lparr>db_memberships := db_memberships (update_memberships i role d)\<rparr> = update_memberships i role d"
  by (simp_all add: update_orgs_def update_users_def update_memberships_def)

lemma upsertOrg_wp:
  "wp (upsertOrg env tick ext name slug)
     (\<lambda>i d'. db_ok d' \<and> orgIdByExternal ext d' = Some i
        \<and> (\<forall>r \<in> set (db_orgs d'). og_id r = i \<longrightarrow> og_name r = name \<and> og_slug r = slug)
        \<and> (\<forall>j. orgIdByExternal ext d = Some j \<longrightarrow> i = j)
        \<and> d' = d\<lparr>db_orgs := db_orgs d'\<rparr>)
     (\<lambda>e d'. d' = d \<and> (\<exists>c. e = DbError c)) d"
proof (cases "orgIdByExternal ext d")
  case (Some i)
  have "orgIdByExternal ext (update_orgs i name slug d) = orgIdByExternal ext d"
    by (simp add: orgIdByExternal_def update_orgs_def find_map_same option.map_comp comp_def)
      (cases "find (\<lambda>r. og_externalAuthId r = Some ext) (db_orgs d)"; simp)
  with Some show ?thesis by (simp add: upsertOrg_def) (blast dest: updated_rows(1))
next
  case None
  let ?new = "\<lparr>og_id = fresh_id env tick, og_name = name, og_slug = slug, og_externalAuthId = Some ext\<rparr>"
  let ?d' = "d\<lparr>db_orgs := db_orgs d @ [?new]\<rparr>"
  have "orgIdByExternal ext ?d' = Some (fresh_id env tick)"
    using None by (simp add: orgIdByExternal_def find_append)
  moreover have "db_ok ?d' \<longrightarrow> (\<forall>r \<in> set (db_orgs d @ [?new]). og_id r = fresh_id env tick \<longrightarrow> og_name r = name \<and> og_slug r = slug)"
    using unique_key [OF db_ok_keys(1), of ?d' _ ?new] by fastforce
  ultimately show ?thesis
    using None by (cases "db_ok ?d'") (simp_all add: upsertOrg_def del: set_append)
qed

lemma upsertUser_wp:
  "wp (upsertUser env tick ext org email displayName)
     (\<lambda>i d'. db_ok d' \<and> userIdByExternal ext d' = Some i
        \<and> (\<forall>r \<in> set (db_users d'). uw_id r = i \<longrightarrow>
             uw_organizationId r = org \<and> uw_email r = email \<and> uw_displayName r = displayName)
        \<and> d' = d\<lparr>db_users := db_users d'\<rparr>)
     (\<lambda>e d'. d' = d \<and> (\<exists>c. e = DbError c)) d"
proof (cases "userIdByExternal ext d")
  case (Some i)
  have "userIdByExternal ext (update_users i org email displayName d) = userIdByExternal ext d"
    by (simp add: userIdByExternal_def update_users_def find_map_same option.map_comp comp_def)
      (cases "find (\<lambda>r. uw_externalAuthId r = Some ext) (db_users d)"; simp)
  with Some show ?thesis by (simp add: upsertUser_def) (blast dest: updated_rows(2))
next
  case None
  let ?new = "\<lparr>uw_id = fresh_id env tick, uw_organizationId = org, uw_email = email,
                uw_displayName = displayName, uw_externalAuthId = Some ext\<rparr>"
  let ?d' = "d\<lparr>db_users := db_users d @ [?new]\<rparr>"
  have "userIdByExternal ext ?d' = Some (fresh_id env tick)"
    using None by (simp add: userIdByExternal_def find_append)
  moreover have "db_ok ?d' \<longrightarrow> (\<forall>r \<in> set (db_users d @ [?new]). uw_id r = fresh_id env tick \<longrightarrow>
      uw_organizationId r = org \<and> uw_email r = email \<and> uw_displayName r = displayName)"
    using unique_key [OF db_ok_keys(2), of ?d' _ ?new] by fastforce
  ultimately show ?thesis
    using None by (cases "db_ok ?d'") (simp_all add: upsertUser_def del: set_append)
qed

lemma upsertMembership_wp:
  "wp (upsertMembership env tick org user role)
     (\<lambda>_ d'. db_ok d' \<and> (\<exists>k. find (org_membership org user) (db_memberships d') = Some k \<and> mw_role k = role)
        \<and> (\<forall>k \<in> set (db_memberships d'). k \<in> set (db_memberships d) \<or> mw_role k = role)
        \<and> d' = d\<lparr>db_memberships := db_memberships d'\<rparr>)
     (\<lambda>e d'. d' = d \<and> (\<exists>c. e = DbError c)) d"
proof (cases "find (org_membership org user) (db_memberships d)")
  case (Some m)
  have "find (org_membership org user) (db_memberships (update_memberships (mw_id m) role d)) = Some (m\<lparr>mw_role := role\<rparr>)"
    using Some by (simp add: update_memberships_def find_map_same org_membership_def)
  with Some show ?thesis
    by (simp add: upsertMembership_def) (blast dest: updated_rows(3))
next
  case None
  then show ?thesis by (simp add: upsertMembership_def find_append org_membership_def)
qed

lemma users_frame:
  assumes "d' = d\<lparr>db_users := db_users d'\<rparr>"
  shows "orgIdByExternal ext d' = orgIdByExternal ext d \<and> db_orgs d' = db_orgs d \<and> db_memberships d' = db_memberships d"
proof -
  obtain us where "d' = d\<lparr>db_users := us\<rparr>" using assms by blast
  then show ?thesis by (simp add: orgIdByExternal_def)
qed

lemma orgs_frame:
  assumes "d' = d\<lparr>db_orgs := db_orgs d'\<rparr>"
  shows "db_memberships d' = db_memberships d \<and> db_users d' = db_users d"
proof -
  obtain us where "d' = d\<lparr>db_orgs := us\<rparr>" using assms by blast
  then show ?thesis by simp
qed

lemma memberships_frame:
  assumes "d' = d\<lparr>db_memberships := db_memberships d'\<rparr>"
  shows "orgIdByExternal ext d' = orgIdByExternal ext d \<and> userIdByExternal ext' d' = userIdByExternal ext' d
    \<and> db_orgs d' = db_orgs d \<and> db_users d' = db_users d"
proof -
  obtain ks where "d' = d\<lparr>db_memberships := ks\<rparr>" using assms by blast
  then show ?thesis by (simp add: orgIdByExternal_def userIdByExternal_def)
qed

lemma syncMembership_wp:
  "wp (syncMembership env tick m)
     (\<lambda>_ d'. (\<exists>org user. synced m org user d')
        \<and> (\<forall>k \<in> set (db_memberships d'). k \<in> set (db_memberships d) \<or> mw_role k = ms_role m))
     (\<lambda>e d'. d' = d \<and> (\<exists>c. e = DbError c)) d"
  unfolding syncMembership_def wp_transaction wp_bind
  apply (rule wp_mono [OF upsertOrg_wp])
   apply (rule wp_mono [OF upsertUser_wp])
    apply (rule wp_mono [OF upsertMembership_wp])
  subgoal for org d1 user d2 _ d3
    using orgs_frame [of d1 d] users_frame [of d2 d1 "ms_clerkOrgId m"]
      memberships_frame [of d3 d2 "ms_clerkOrgId m" "ms_clerkUserId m"]
    unfolding synced_def by (elim conjE) (intro conjI exI [of _ org] exI [of _ user]; metis)
  by simp_all

lemma update_same:
  assumes "\<forall>x \<in> set xs. p x \<longrightarrow> f x = x"
  shows "map (\<lambda>x. if p x then f x else x) xs = xs"
  by (rule map_idI) (use assms in simp)

lemma statement_same: "f d = d \<Longrightarrow> db_ok d \<Longrightarrow> statement f d = (Inr (), d)"
  using violated_None [of d] by (simp add: statement_def del: violated_None)

text \<open>A second delivery of the same event.\<close>

lemma synced_again:
  assumes "synced m org user d"
  shows "syncMembership env tick m d = (Inr (), d)"
proof -
  note ok = assms [unfolded synced_def]
  have "update_orgs org (ms_orgName m) (ms_orgSlug m) d = d"
    using ok by (simp add: update_orgs_def update_same)
  moreover have "update_users user org (ms_email m) (ms_displayName m) d = d"
    using ok by (simp add: update_users_def update_same)
  moreover obtain k where k: "find (org_membership org user) (db_memberships d) = Some k" "mw_role k = ms_role m"
    using ok by blast
  moreover have "update_memberships (mw_id k) (ms_role m) d = d"
  proof -
    have "k \<in> set (db_memberships d)" using k(1) by (auto dest: find_SomeD)
    with k(2) unique_key [OF db_ok_keys(3)] ok have "\<forall>x \<in> set (db_memberships d). mw_id x = mw_id k \<longrightarrow> mw_role x = ms_role m"
      by metis
    then show ?thesis by (simp add: update_memberships_def update_same)
  qed
  ultimately show ?thesis
    using ok by (simp add: syncMembership_def transaction_def upsertOrg_def upsertUser_def upsertMembership_def
        bind_act_def seq_act_def gets_def ret_def statement_same)
qed

text \<open>The principal of a synced member.\<close>

lemma synced_resolves:
  assumes "synced m org user d" and "vi_subject identity = ms_clerkUserId m"
  shows "\<exists>p. resolve_principal identity d = (Inr (Some p), d) \<and> pr_role p = ms_role m
    \<and> pr_userId p = user \<and> pr_organizationId p = org"
proof -
  note ok = assms(1) [unfolded synced_def]
  obtain u where u: "find (\<lambda>r. uw_externalAuthId r = Some (vi_subject identity)) (db_users d) = Some u" "uw_id u = user"
    using ok assms(2) by (auto simp: userIdByExternal_def)
  then have org: "uw_organizationId u = org"
    using ok by (auto dest: find_SomeD)
  obtain k where k: "find (org_membership org user) (db_memberships d) = Some k" "mw_role k = ms_role m"
    using ok by blast
  have "find (\<lambda>m. mw_teamId m = None) (memberships_of u d) = find (org_membership org user) (db_memberships d)"
    unfolding memberships_of_def u(2) org first_of_filter [symmetric] filter_filter
    by (rule arg_cong [where f = first_of], rule filter_cong) (auto simp: org_membership_def)
  with k u org show ?thesis
    by (simp add: resolve_principal_def gets_def Let_def primary_membership_def)
qed

section \<open>What an event does to the memberships\<close>

lemma parseMembershipSync_role: "parseMembershipSync data = Inr m \<Longrightarrow> ms_role m \<noteq> Owner"
  by (auto simp: parseMembershipSync_def and_then_Inr_iff mapClerkRole_def split: if_splits)

lemma no_grant:
  assumes "ms_role m \<noteq> Owner"
  shows "wp (syncMembership env tick m)
    (\<lambda>_ d'. \<forall>k \<in> set (db_memberships d'). mw_role k = Owner \<longrightarrow> k \<in> set (db_memberships d)) (\<lambda>_ d'. d' = d) d"
  by (rule wp_mono [OF syncMembership_wp]) (use assms in auto)

definition owners_kept :: "'j db \<Rightarrow> 'j db \<Rightarrow> bool" where
  "owners_kept d d' = (\<forall>k \<in> set (db_memberships d'). mw_role k = Owner \<longrightarrow> k \<in> set (db_memberships d))"

text \<open>An action that adds no owner, and that has no effect when it throws.\<close>

definition grants_none :: "('j db, exn, 'a) act \<Rightarrow> bool" where
  "grants_none m = (\<forall>d. wp m (\<lambda>_. owners_kept d) (\<lambda>_ d'. d' = d) d)"

lemma grants_none_after:
  "(\<And>a. r = Inr a \<Longrightarrow> grants_none (k a)) \<Longrightarrow> grants_none (bind_act (of_result r) (\<lambda>a. seq_act (k a) (ret True)))"
  by (cases r) (auto simp: grants_none_def wp_def bind_act_def seq_act_def ret_def of_result_def throw_def
      split: prod.splits sum.splits)

lemma grants_none_basic:
  "grants_none (ret a)"
  "(\<And>d. db_memberships (f d) = db_memberships d) \<Longrightarrow> grants_none (statement f)"
  by (simp_all add: grants_none_def owners_kept_def)

lemma grants_none_if: "grants_none m \<Longrightarrow> grants_none m' \<Longrightarrow> grants_none (if b then m else m')"
  by simp

lemma grants_none_sync: "parseMembershipSync data = Inr m \<Longrightarrow> grants_none (syncMembership env tick m)"
  unfolding grants_none_def owners_kept_def by (intro allI no_grant) (rule parseMembershipSync_role)

lemma grants_none_remove: "grants_none (removeMembership a b)"
  by (auto simp: grants_none_def owners_kept_def removeMembership_def split: option.split)

lemma grants_none_org: "grants_none (upsertOrganization env tick u)"
  unfolding grants_none_def upsertOrganization_def wp_bind owners_kept_def
  by (intro allI, rule wp_mono [OF upsertOrg_wp]) (auto dest: orgs_frame)

lemma grants_none_handle: "grants_none (handle env tick event)"
  unfolding handle_def Let_def case_prod_beta updateUser_def revokeUser_def
  by (intro grants_none_if grants_none_after grants_none_basic grants_none_remove grants_none_org)
    (auto intro: grants_none_sync)

section \<open>Properties\<close>

text \<open>
  C28: A membership event either provisions the member or changes nothing. When the sync succeeds, the
  verified subject resolves to a principal of the event's organisation with the role mapped from Clerk's,
  all constraints hold, and delivering the same event again changes nothing; when it fails, it is the
  database's refusal and the whole transaction is undone.
\<close>

theorem sync_provisions_member:
  "case syncMembership env tick m d of
     (Inl e, d') \<Rightarrow> d' = d \<and> (\<exists>c. e = DbError c)
   | (Inr _, d') \<Rightarrow> db_ok d'
       \<and> (\<exists>p. resolve_principal \<lparr>vi_subject = ms_clerkUserId m, vi_email = email, vi_claims = claims\<rparr> d' = (Inr (Some p), d')
            \<and> pr_role p = ms_role m \<and> orgIdByExternal (ms_clerkOrgId m) d' = Some (pr_organizationId p)
            \<and> userIdByExternal (ms_clerkUserId m) d' = Some (pr_userId p))
       \<and> syncMembership env' tick' m d' = (Inr (), d')"
proof -
  obtain r d' where c: "syncMembership env tick m d = (r, d')" by fastforce
  show ?thesis
  proof (cases r)
    case (Inl e)
    with c wp_Inl [OF syncMembership_wp] show ?thesis by fastforce
  next
    case (Inr u)
    with wp_Inr [OF syncMembership_wp] c obtain org user where s: "synced m org user d'" by blast
    have "orgIdByExternal (ms_clerkOrgId m) d' = Some org" "userIdByExternal (ms_clerkUserId m) d' = Some user" "db_ok d'"
      using s by (simp_all add: synced_def)
    with synced_resolves [OF s, of "\<lparr>vi_subject = ms_clerkUserId m, vi_email = email, vi_claims = claims\<rparr>"]
      synced_again [OF s] c Inr show ?thesis by auto
  qed
qed

text \<open>
  C29: No webhook grants ownership: whatever event is handled, every owner's membership afterwards is one
  that was there before, and an event that throws leaves the database as it was.
\<close>

theorem webhooks_never_grant_ownership:
  "case handle env tick event d of
     (Inl e, d') \<Rightarrow> d' = d
   | (Inr handled, d') \<Rightarrow> (\<forall>k \<in> set (db_memberships d'). mw_role k = Owner \<longrightarrow> k \<in> set (db_memberships d))"
  using spec [OF grants_none_handle [unfolded grants_none_def, of env tick event], of d]
  by (simp add: owners_kept_def wp_def split: prod.splits sum.splits)

text \<open>
  A member of one organisation cannot be provisioned into another: the sync of a known user who has a
  membership elsewhere is always refused by the tenancy constraints, however often it is delivered.
\<close>

theorem known_member_cannot_move:
  assumes "orgIdByExternal (ms_clerkOrgId m) d = Some org"
    and "userIdByExternal (ms_clerkUserId m) d = Some user"
    and "k \<in> set (db_memberships d)" and "mw_userId k = user" and "mw_organizationId k \<noteq> org"
  shows "\<exists>c. syncMembership env tick m d = (Inl (DbError c), d)"
proof -
  let ?d1 = "update_orgs org (ms_orgName m) (ms_orgSlug m) d"
  let ?d2 = "update_users user org (ms_email m) (ms_displayName m) ?d1"
  have "k \<in> set (db_memberships ?d2)"
    using assms(3) by (simp add: update_users_def update_orgs_def)
  moreover have "(mw_organizationId k, user) \<notin> set (org_users ?d2)"
    using updated_rows(2) [of _ user org "ms_email m" "ms_displayName m" ?d1] assms(5)
    by (auto simp: org_users_def)
  ultimately have "\<not> refers (\<lambda>m. Some (mw_organizationId m, mw_userId m)) (db_memberships ?d2) (org_users ?d2)"
    using assms(4) unfolding refers_def set_map_filter_Some Ball_def by blast
  then have "\<not> db_ok ?d2"
    using db_ok_keys(5) [of ?d2] by blast
  moreover have "userIdByExternal (ms_clerkUserId m) ?d1 = Some user"
    using assms(2) by (simp add: userIdByExternal_def update_orgs_def)
  ultimately have "wp (syncMembership env tick m) (\<lambda>_ _. False) (\<lambda>e d'. d' = d \<and> (\<exists>c. e = DbError c)) d"
    using assms(1) by (simp add: syncMembership_def upsertOrg_def upsertUser_def)
  then show ?thesis by (auto simp: wp_def split: prod.splits sum.splits)
qed


subsection \<open>Witnesses\<close>

definition sample_sync :: membership_sync where
  "sample_sync =
     \<lparr>ms_clerkOrgId = ''clerk-org'', ms_orgName = ''Org'', ms_orgSlug = ''org'', ms_clerkUserId = ''clerk-u1'',
      ms_email = ''u@org'', ms_displayName = ''U'', ms_role = Admin\<rparr>"

theorem webhooks_never_grant_ownership_witness:
  "set (filter (\<lambda>k. mw_role k = Owner) (db_memberships (snd (handle numbered_env 0
      \<lparr>ck_type = ''user.deleted'', ck_data = [(''id'', JStr ''x'')]\<rparr> sample_db)))) \<subseteq> set (db_memberships sample_db)"
  using webhooks_never_grant_ownership [where env = numbered_env and tick = 0 and d = sample_db
      and event = "\<lparr>ck_type = ''user.deleted'', ck_data = [(''id'', JStr ''x'')]\<rparr>"]
  by (auto split: prod.splits sum.splits)

text \<open>A second organisation, known to the provider, beside the one of the sample user.\<close>

definition two_orgs :: "unit db" where
  "two_orgs = sample_db\<lparr>db_orgs := db_orgs sample_db @
     [\<lparr>og_id = ''org2'', og_name = ''Two'', og_slug = ''two'', og_externalAuthId = Some ''clerk-org''\<rparr>]\<rparr>"

theorem known_member_cannot_move_witness:
  "\<exists>c. syncMembership numbered_env 0 sample_sync two_orgs = (Inl (DbError c), two_orgs)"
  by (rule known_member_cannot_move [where org = "''org2''" and user = "''u1''" and k =
      "\<lparr>mw_id = ''m1'', mw_organizationId = ''org'', mw_userId = ''u1'', mw_teamId = None, mw_role = Owner\<rparr>"])
    (simp_all add: orgIdByExternal_def userIdByExternal_def two_orgs_def sample_db_def sample_sync_def)


end
