(* ===== verification/Server.thy ===== *)
theory Server
  imports Task_Dispatch Provisioning
begin

text \<open>
  The HTTP interface of the control plane (\<open>apps/control-plane/src/server.ts\<close> and \<open>actions.ts\<close>): one
  function per route, over the services it is given, with the replies of every branch. An exception that a
  handler does not catch stays an exception: the framework answers it. Parsing JSON and checking the
  signature of a webhook are parameters. The locale \<open>control_plane\<close> is what the routes rely on.
\<close>

section \<open>Actions (actions.ts)\<close>

definition OBJECTIVE_CREATE_ACTION :: action_descriptor where
  "OBJECTIVE_CREATE_ACTION =
     \<lparr>ac_name = ''objective.create'', ac_authorityLevel = PREPARE, ac_sideEffecting = False, ac_capability = None\<rparr>"

definition OBJECTIVE_READ_ACTION :: action_descriptor where
  "OBJECTIVE_READ_ACTION =
     \<lparr>ac_name = ''objective.read'', ac_authorityLevel = OBSERVE, ac_sideEffecting = False, ac_capability = None\<rparr>"

definition TASK_DISPATCH_ACTION :: action_descriptor where
  "TASK_DISPATCH_ACTION =
     \<lparr>ac_name = ''task.dispatch'', ac_authorityLevel = PREPARE, ac_sideEffecting = False, ac_capability = None\<rparr>"

section \<open>Requests and replies\<close>

record request =
  rq_headers :: js_fields
  rq_id :: string
  rq_body :: js
  rq_rawBody :: string

datatype reply_body =
    Health_ok
  | Failed string
  | Denied_for policy_reason string
  | Approval_needed policy_reason
  | Objective_found objective
  | Task_queued task string
  | Webhook_handled bool

record reply =
  rp_status :: nat
  rp_body :: reply_body

definition reply_with :: "nat \<Rightarrow> reply_body \<Rightarrow> ('s, exn, reply) act" where
  "reply_with code body = ret \<lparr>rp_status = code, rp_body = body\<rparr>"

text \<open>\<open>request.body ?? {}\<close>: a body that is not an object has none of the fields that are read.\<close>

definition body_fields :: "js \<Rightarrow> js_fields" where
  "body_fields body = (case body of JObj kvs \<Rightarrow> kvs | _ \<Rightarrow> [])"

text \<open>
  A scope or risk level of the body is not checked by the route. One that is not a text matches no case of
  any \<open>switch\<close>, and is printed by \<open>text_of\<close>. An identifier that is not a text is in no list of identifiers; it
  is dropped here, where the code hands it on to the service.
\<close>

definition scope_field :: "(js \<Rightarrow> string) \<Rightarrow> js \<Rightarrow> scope" where
  "scope_field text_of v =
     (case v of
        JUndefined \<Rightarrow> ORGANIZATION
      | JNull \<Rightarrow> ORGANIZATION
      | JStr s \<Rightarrow> scope_of_text s
      | _ \<Rightarrow> Other_scope (text_of v))"

definition risk_field :: "(js \<Rightarrow> string) \<Rightarrow> js \<Rightarrow> risk_level" where
  "risk_field text_of v =
     (case v of
        JUndefined \<Rightarrow> RiskLow
      | JNull \<Rightarrow> RiskLow
      | JStr s \<Rightarrow> risk_level_of_text s
      | _ \<Rightarrow> Other_risk (text_of v))"

definition id_field :: "js \<Rightarrow> ident option" where
  "id_field v = (case v of JStr s \<Rightarrow> Some s | _ \<Rightarrow> None)"

definition asStringArray :: "js \<Rightarrow> string list option" where
  "asStringArray v =
     (case v of
        JUndefined \<Rightarrow> Some []
      | JArr vs \<Rightarrow>
          (if list_all (\<lambda>x. case x of JStr _ \<Rightarrow> True | _ \<Rightarrow> False) vs
           then Some (map (\<lambda>x. case x of JStr s \<Rightarrow> s | _ \<Rightarrow> []) vs)
           else None)
      | _ \<Rightarrow> None)"

definition pick_header :: "js_fields \<Rightarrow> string \<Rightarrow> js" where
  "pick_header headers key =
     (case js_get headers key of
        JStr s \<Rightarrow> JStr s
      | JArr (v # _) \<Rightarrow> (if v = JUndefined \<or> v = JNull then JStr [] else v)
      | _ \<Rightarrow> JStr [])"

definition svixHeaders :: "js_fields \<Rightarrow> js_fields" where
  "svixHeaders headers =
     [(''svix-id'', pick_header headers ''svix-id''),
      (''svix-timestamp'', pick_header headers ''svix-timestamp''),
      (''svix-signature'', pick_header headers ''svix-signature'')]"

text \<open>The parser that keeps the raw body beside the parsed one; \<open>JSON.parse\<close> is a parameter.\<close>

definition parse_body :: "(string \<Rightarrow> exn + js) \<Rightarrow> request \<Rightarrow> string \<Rightarrow> exn + request" where
  "parse_body json_parse req body =
     (let req' = req\<lparr>rq_rawBody := body\<rparr> in
      if body = [] then Inr (req'\<lparr>rq_body := JUndefined\<rparr>)
      else and_then (json_parse body) (\<lambda>v. Inr (req'\<lparr>rq_body := v\<rparr>)))"

section \<open>The services\<close>

type_synonym webhook_verify = "string \<Rightarrow> js_fields \<Rightarrow> exn + js"

record 's server_deps =
  sd_create :: "env \<Rightarrow> nat \<Rightarrow> create_objective_input \<Rightarrow> principal_context \<Rightarrow> ('s, exn, objective) act"
  sd_get :: "ident \<Rightarrow> ident \<Rightarrow> ('s, exn, objective option) act"
  sd_dispatch :: "env \<Rightarrow> nat \<Rightarrow> dispatch_input \<Rightarrow> principal_context \<Rightarrow> ('s, exn, task \<times> string) act"
  sd_authenticate :: "'s authenticator"
  sd_clerkWebhook :: "(webhook_verify \<times> (env \<Rightarrow> nat \<Rightarrow> clerk_event \<Rightarrow> ('s, exn, bool) act)) option"

definition authenticated ::
    "'s authenticator \<Rightarrow> js_fields \<Rightarrow> (principal_context \<Rightarrow> ('s, exn, reply) act) \<Rightarrow> ('s, exn, reply) act" where
  "authenticated authenticate headers k =
     bind_act (authenticate headers) (\<lambda>auth.
     case auth of
       Refused code error \<Rightarrow> reply_with code (Failed error)
     | Authenticated prin \<Rightarrow> k prin)"

definition gate :: "principal_context \<Rightarrow> action_descriptor \<Rightarrow> resource_descriptor \<Rightarrow> policy_decision" where
  "gate prin action resource =
     evaluate \<lparr>pi_principal = prin, pi_action = action, pi_resource = resource, pi_killSwitches = None,
       pi_roleCeilings = None\<rparr>"

text \<open>The replies of a mutating route to a decision that does not allow the action.\<close>

definition gated :: "policy_decision \<Rightarrow> ('s, exn, reply) act \<Rightarrow> ('s, exn, reply) act" where
  "gated decision k =
     (if pd_effect decision = Deny then reply_with 403 (Denied_for (pd_reason decision) (pd_message decision))
      else if pd_effect decision = Requires_approval then reply_with 202 (Approval_needed (pd_reason decision))
      else k)"

section \<open>POST /objectives\<close>

definition create_resource :: "principal_context \<Rightarrow> scope \<Rightarrow> js_fields \<Rightarrow> resource_descriptor" where
  "create_resource prin sc body =
     \<lparr>rs_organizationId = pr_organizationId prin, rs_scope = sc, rs_ownerUserId = Some (pr_userId prin),
      rs_teamId = id_field (js_get body ''teamId''), rs_projectId = id_field (js_get body ''projectId'')\<rparr>"

definition create_input :: "(js \<Rightarrow> string) \<Rightarrow> string \<Rightarrow> string \<Rightarrow> scope \<Rightarrow> js_fields \<Rightarrow> create_objective_input" where
  "create_input text_of outcome dod sc body =
     \<lparr>co_requestedOutcome = outcome, co_definitionOfDone = dod, co_scope = sc,
      co_riskLevel = risk_field text_of (js_get body ''riskLevel''),
      co_projectId = id_field (js_get body ''projectId''), co_teamId = id_field (js_get body ''teamId'')\<rparr>"

definition post_objectives ::
    "(js \<Rightarrow> string) \<Rightarrow> 's server_deps \<Rightarrow> env \<Rightarrow> nat \<Rightarrow> request \<Rightarrow> ('s, exn, reply) act" where
  "post_objectives text_of deps env tick req =
     authenticated (sd_authenticate deps) (rq_headers req) (\<lambda>prin.
     let body = body_fields (rq_body req) in
     case (js_get body ''requestedOutcome'', js_get body ''definitionOfDone'') of
       (JStr outcome, JStr dod) \<Rightarrow>
         (let sc = scope_field text_of (js_get body ''scope'') in
          gated (gate prin OBJECTIVE_CREATE_ACTION (create_resource prin sc body))
            (bind_act (sd_create deps env tick (create_input text_of outcome dod sc body) prin) (\<lambda>obj.
             reply_with 201 (Objective_found obj))))
     | _ \<Rightarrow> reply_with 400 (Failed ''requestedOutcome and definitionOfDone are required''))"

section \<open>GET /objectives/:id\<close>

definition read_resource :: "principal_context \<Rightarrow> objective \<Rightarrow> resource_descriptor" where
  "read_resource prin obj =
     \<lparr>rs_organizationId = pr_organizationId prin, rs_scope = ob_scope obj, rs_ownerUserId = Some (ob_ownerId obj),
      rs_teamId = ob_teamId obj, rs_projectId = ob_projectId obj\<rparr>"

definition get_objective :: "'s server_deps \<Rightarrow> request \<Rightarrow> ('s, exn, reply) act" where
  "get_objective deps req =
     authenticated (sd_authenticate deps) (rq_headers req) (\<lambda>prin.
     bind_act (sd_get deps (rq_id req) (pr_organizationId prin)) (\<lambda>found.
     case found of
       None \<Rightarrow> reply_with 404 (Failed ''not_found'')
     | Some obj \<Rightarrow>
         (if pd_effect (gate prin OBJECTIVE_READ_ACTION (read_resource prin obj)) \<noteq> Allow
          then reply_with 404 (Failed ''not_found'')
          else reply_with 200 (Objective_found obj))))"

section \<open>POST /objectives/:id/tasks\<close>

text \<open>The resource of a dispatch has no team.\<close>

definition dispatch_resource :: "principal_context \<Rightarrow> objective \<Rightarrow> resource_descriptor" where
  "dispatch_resource prin obj =
     \<lparr>rs_organizationId = pr_organizationId prin, rs_scope = ob_scope obj, rs_ownerUserId = Some (ob_ownerId obj),
      rs_teamId = None, rs_projectId = ob_projectId obj\<rparr>"

definition dispatch_hints :: "js_fields \<Rightarrow> string list \<Rightarrow> work_order_hints" where
  "dispatch_hints body caps =
     \<lparr>wh_requiredCapabilities = caps, wh_prefersHuman = js_get body ''prefersHuman'',
      wh_needsReasoning = js_get body ''needsReasoning'', wh_reasoningTier = js_get body ''reasoningTier'',
      wh_needsTools = js_get body ''needsTools'', wh_needsVision = js_get body ''needsVision'',
      wh_requireLocal = js_get body ''requireLocal'', wh_minContextTokens = js_get body ''minContextTokens'',
      wh_modelRequest = js_get body ''modelRequest''\<rparr>"

definition body_dispatch :: "ident \<Rightarrow> string \<Rightarrow> string \<Rightarrow> js_fields \<Rightarrow> string list \<Rightarrow> dispatch_input" where
  "body_dispatch objectiveId goal dod body caps =
     \<lparr>di_objectiveId = objectiveId, di_goal = goal, di_definitionOfDone = dod, di_requiredAuthority = None,
      di_hints = dispatch_hints body caps\<rparr>"

definition post_tasks :: "'s server_deps \<Rightarrow> env \<Rightarrow> nat \<Rightarrow> request \<Rightarrow> ('s, exn, reply) act" where
  "post_tasks deps env tick req =
     authenticated (sd_authenticate deps) (rq_headers req) (\<lambda>prin.
     bind_act (sd_get deps (rq_id req) (pr_organizationId prin)) (\<lambda>found.
     case found of
       None \<Rightarrow> reply_with 404 (Failed ''objective_not_found'')
     | Some obj \<Rightarrow>
         (let body = body_fields (rq_body req) in
          case (js_get body ''goal'', js_get body ''definitionOfDone'') of
            (JStr goal, JStr dod) \<Rightarrow>
              (case asStringArray (js_get body ''requiredCapabilities'') of
                 None \<Rightarrow> reply_with 400 (Failed ''requiredCapabilities must be an array of strings'')
               | Some caps \<Rightarrow>
                   gated (gate prin TASK_DISPATCH_ACTION (dispatch_resource prin obj))
                     (bind_act (sd_dispatch deps env tick (body_dispatch (rq_id req) goal dod body caps) prin)
                       (\<lambda>(t, jobId). reply_with 202 (Task_queued t jobId))))
          | _ \<Rightarrow> reply_with 400 (Failed ''goal and definitionOfDone are required''))))"

section \<open>POST /webhooks/clerk\<close>

definition payload_error :: "exn \<Rightarrow> ('s, exn, reply) act" where
  "payload_error e = (case e of ClerkPayload message \<Rightarrow> reply_with 400 (Failed message) | _ \<Rightarrow> throw e)"

definition post_clerk ::
    "webhook_verify \<Rightarrow> (env \<Rightarrow> nat \<Rightarrow> clerk_event \<Rightarrow> ('s, exn, bool) act) \<Rightarrow> env \<Rightarrow> nat \<Rightarrow> request \<Rightarrow>
     ('s, exn, reply) act" where
  "post_clerk verify provision env tick req =
     (case verify (rq_rawBody req) (svixHeaders (rq_headers req)) of
        Inl WebhookVerification \<Rightarrow> reply_with 401 (Failed ''invalid_signature'')
      | Inl error \<Rightarrow> throw error
      | Inr verified \<Rightarrow>
          try_act
            (bind_act (of_result (parseClerkEvent verified)) (\<lambda>event.
             bind_act (provision env tick event) (\<lambda>handled.
             reply_with 200 (Webhook_handled handled))))
            payload_error)"

section \<open>The server\<close>

datatype route = Health | Create_objective | Read_objective | Dispatch_task | Clerk_webhook

text \<open>A route that is not registered is the framework's 404.\<close>

definition buildServer ::
    "(js \<Rightarrow> string) \<Rightarrow> 's server_deps \<Rightarrow> env \<Rightarrow> nat \<Rightarrow> route \<Rightarrow> request \<Rightarrow> ('s, exn, reply) act" where
  "buildServer text_of deps env tick route req =
     (case route of
        Health \<Rightarrow> reply_with 200 Health_ok
      | Create_objective \<Rightarrow> post_objectives text_of deps env tick req
      | Read_objective \<Rightarrow> get_objective deps req
      | Dispatch_task \<Rightarrow> post_tasks deps env tick req
      | Clerk_webhook \<Rightarrow>
          (case sd_clerkWebhook deps of
             None \<Rightarrow> reply_with 404 (Failed ''Not Found'')
           | Some (verify, provision) \<Rightarrow> post_clerk verify provision env tick req))"

end
