(* ===== verification/Control_Plane.thy ===== *)
theory Control_Plane
  imports Server Runtime_Config
begin

text \<open>
  The control plane as a whole (\<open>apps/control-plane/src/main.ts\<close> over \<open>server.ts\<close>): which services the
  process is started with, what the routes rely on (the locale \<open>control_plane\<close>: the objective service's
  contract, and authentication that only reads), and what a caller can observe and change through them.
\<close>

section \<open>The services in memory, over one state\<close>

record 'b memory_server =
  sv_objectives :: "(ident \<times> objective \<times> ident) list"
  sv_tasks :: "(ident \<times> task) list"
  sv_enqueued :: "js list"
  sv_bus :: 'b

definition on_objectives :: "('b memory_objectives, exn, 'a) act \<Rightarrow> ('b memory_server, exn, 'a) act" where
  "on_objectives m s =
     (case m \<lparr>om_store = sv_objectives s, om_bus = sv_bus s\<rparr> of
        (r, o') \<Rightarrow> (r, s\<lparr>sv_objectives := om_store o', sv_bus := om_bus o'\<rparr>))"

definition on_tasks :: "('b memory_tasks, exn, 'a) act \<Rightarrow> ('b memory_server, exn, 'a) act" where
  "on_tasks m s =
     (case m \<lparr>tm_store = sv_tasks s, tm_enqueued = sv_enqueued s, tm_bus = sv_bus s\<rparr> of
        (r, t) \<Rightarrow> (r, s\<lparr>sv_tasks := tm_store t, sv_enqueued := tm_enqueued t, sv_bus := tm_bus t\<rparr>))"

section \<open>Starting the process (main.ts)\<close>

text \<open>
  The services of a process with a database, and without one. The verifiers of tokens and webhooks are
  made from the configured address and secret by their libraries; \<open>publish\<close> is the in-memory bus.
\<close>

definition durable_deps ::
    "'j add_job \<Rightarrow> 'j db authenticator \<Rightarrow> webhook_verify option \<Rightarrow> 'j db server_deps" where
  "durable_deps add_job authenticate webhook =
     \<lparr>sd_create = drizzle_create, sd_get = drizzle_get, sd_dispatch = drizzle_dispatch add_job,
      sd_authenticate = authenticate, sd_clerkWebhook = map_option (\<lambda>verify. (verify, handle)) webhook\<rparr>"

definition memory_deps ::
    "(event_envelope \<Rightarrow> ('b, exn, unit) act) \<Rightarrow> 'b memory_server authenticator \<Rightarrow> 'b memory_server server_deps" where
  "memory_deps publish authenticate =
     \<lparr>sd_create = (\<lambda>env tick input prin. on_objectives (memory_create publish env tick input prin)),
      sd_get = (\<lambda>i org. on_objectives (memory_get i org)),
      sd_dispatch = (\<lambda>env tick input prin. on_tasks (memory_dispatch publish env tick input prin)),
      sd_authenticate = authenticate, sd_clerkWebhook = None\<rparr>"

datatype ('j, 'b) process =
    Exit_with "string list"
  | Crashed exn
  | Durable "'j db server_deps"
  | In_memory "'b memory_server server_deps"

definition start_process ::
    "(string \<Rightarrow> jwt_verify) \<Rightarrow> (string \<Rightarrow> webhook_verify) \<Rightarrow> 'j add_job \<Rightarrow>
     (event_envelope \<Rightarrow> ('b, exn, unit) act) \<Rightarrow> environment \<Rightarrow> ('j, 'b) process" where
  "start_process jose svix add_job publish vars =
     (case resolveStartupConfig vars of
        Refuse _ missing \<Rightarrow> Exit_with missing
      | Start config \<Rightarrow>
          (case sc_databaseUrl config of
             Some _ \<Rightarrow>
               (case buildAuthenticator jose (sc_auth config) True of
                  Inl error \<Rightarrow> Crashed error
                | Inr authenticate \<Rightarrow>
                    Durable (durable_deps add_job authenticate (map_option svix (sc_webhookSecret config))))
           | None \<Rightarrow>
               (case sc_auth config of
                  Dev_shim \<Rightarrow> In_memory (memory_deps publish devAuthenticator)
                | Jwt _ \<Rightarrow>
                    Crashed (OtherError ''JWT authentication requires a database for principal resolution.''))))"

section \<open>The decisions of the routes\<close>

lemma gate_route:
  assumes "action \<in> {OBJECTIVE_CREATE_ACTION, OBJECTIVE_READ_ACTION, TASK_DISPATCH_ACTION}"
  shows "pd_effect (gate prin action r) =
    (if rs_organizationId r = pr_organizationId prin \<and> hasScopeAccess prin r then Allow else Deny)"
proof -
  have level: "ac_authorityLevel action \<le> PREPARE" "ac_authorityLevel action \<noteq> NEVER_AUTONOMOUS"
      "ac_authorityLevel action \<noteq> APPROVAL_REQUIRED" "\<not> ac_sideEffecting action"
    using assms by (auto simp: OBJECTIVE_CREATE_ACTION_def OBJECTIVE_READ_ACTION_def TASK_DISPATCH_ACTION_def authority_le)
  have "PREPARE \<le> DEFAULT_ROLE_CEILINGS (pr_role prin)"
    by (cases "pr_role prin") (simp_all add: authority_le)
  with level(1) have "ac_authorityLevel action \<le> DEFAULT_ROLE_CEILINGS (pr_role prin)"
    by (rule order_trans)
  with level show ?thesis
    by (cases "ac_authorityLevel action") (auto simp: gate_def evaluate_effect policy_conditions)
qed

lemmas route_gates =
  gate_route [of OBJECTIVE_CREATE_ACTION, simplified] gate_route [of OBJECTIVE_READ_ACTION, simplified]
  gate_route [of TASK_DISPATCH_ACTION, simplified]

lemma created_readable:
  assumes "hasScopeAccess prin
      \<lparr>rs_organizationId = pr_organizationId prin, rs_scope = co_scope input, rs_ownerUserId = Some (pr_userId prin),
       rs_teamId = co_teamId input, rs_projectId = co_projectId input\<rparr>"
    and "as_read (new_objective i input prin) obj'"
  shows "hasScopeAccess prin (read_resource prin obj')"
  using assms by (auto simp: as_read_def new_objective_def read_resource_def hasScopeAccess_cases)

text \<open>Without a team a resource of scope TEAM is nobody's.\<close>

lemma team_dispatch_denied: "ob_scope obj = TEAM \<Longrightarrow> \<not> hasScopeAccess prin (dispatch_resource prin obj)"
  by (simp add: hasScopeAccess_cases dispatch_resource_def)

section \<open>What the routes rely on\<close>

locale control_plane = objective_service create get
  for create :: "env \<Rightarrow> nat \<Rightarrow> create_objective_input \<Rightarrow> principal_context \<Rightarrow> ('s, exn, objective) act"
    and get :: "ident \<Rightarrow> ident \<Rightarrow> ('s, exn, objective option) act" +
  fixes authenticate :: "'s authenticator"
  assumes auth_reads: "\<exists>outcome. authenticate headers s = (Inr outcome, s)"
    and auth_frame: "create env tick input prin s = (r, s') \<Longrightarrow> fst (authenticate headers s') = fst (authenticate headers s)"
begin

lemma authenticated_eq:
  "authenticated authenticate headers k s =
     (case fst (authenticate headers s) of
        Inr (Refused code error) \<Rightarrow> reply_with code (Failed error) s
      | Inr (Authenticated prin) \<Rightarrow> k prin s
      | Inl e \<Rightarrow> (Inl e, s))"
  using auth_reads [of headers s]
  by (auto simp: authenticated_def bind_act_def split: auth_outcome.split)

lemma get_eq: "get i org s = (Inr (case fst (get i org s) of Inr found \<Rightarrow> found | Inl _ \<Rightarrow> None), s)"
  using get_reads [of i org s] by auto

text \<open>What a caller reads.\<close>

lemma read_reply:
  assumes "sd_get deps = get" and "sd_authenticate deps = authenticate"
    and "fst (authenticate (rq_headers req) s) = Inr (Authenticated prin)"
  shows "get_objective deps req s =
    (case fst (get (rq_id req) (pr_organizationId prin) s) of
       Inr (Some obj) \<Rightarrow>
         (if pd_effect (gate prin OBJECTIVE_READ_ACTION (read_resource prin obj)) = Allow
          then reply_with 200 (Objective_found obj) s else reply_with 404 (Failed ''not_found'') s)
     | _ \<Rightarrow> reply_with 404 (Failed ''not_found'') s)"
proof -
  from assms have "get_objective deps req s =
      bind_act (get (rq_id req) (pr_organizationId prin)) (\<lambda>found.
       case found of
         None \<Rightarrow> reply_with 404 (Failed ''not_found'')
       | Some obj \<Rightarrow>
           (if pd_effect (gate prin OBJECTIVE_READ_ACTION (read_resource prin obj)) \<noteq> Allow
            then reply_with 404 (Failed ''not_found'')
            else reply_with 200 (Objective_found obj))) s"
    by (simp add: get_objective_def authenticated_eq)
  also obtain found where "get (rq_id req) (pr_organizationId prin) s = (Inr found, s)"
    using get_reads by blast
  ultimately show ?thesis by (simp add: bind_act_def split: option.split)
qed

text \<open>What a create does: a refusal that changes nothing, or one call of the service that the policy allows.\<close>

lemma create_cases:
  assumes "sd_create deps = create" and "sd_authenticate deps = authenticate"
    and "post_objectives text_of deps env tick req s = (r, s')"
  obtains (refused) code body where "r = Inr \<lparr>rp_status = code, rp_body = body\<rparr>" "s' = s" "code \<in> {202, 400, 401, 403} \<or> (\<exists>error. fst (authenticate (rq_headers req) s) = Inr (Refused code error))"
  | (created) prin outcome dod sc where "fst (authenticate (rq_headers req) s) = Inr (Authenticated prin)"
      "js_get (body_fields (rq_body req)) ''requestedOutcome'' = JStr outcome"
      "js_get (body_fields (rq_body req)) ''definitionOfDone'' = JStr dod"
      "sc = scope_field text_of (js_get (body_fields (rq_body req)) ''scope'')"
      "pd_effect (gate prin OBJECTIVE_CREATE_ACTION (create_resource prin sc (body_fields (rq_body req)))) = Allow"
      "(r, s') = bind_act (create env tick (create_input text_of outcome dod sc (body_fields (rq_body req))) prin)
         (\<lambda>obj. reply_with 201 (Objective_found obj)) s"
proof (cases "fst (authenticate (rq_headers req) s)")
  case (Inl e)
  with auth_reads [of "rq_headers req" s] show thesis by auto
next
  case (Inr outcome)
  show thesis
  proof (cases outcome)
    case (Refused code error)
    with Inr assms show thesis
      by (intro refused [of code "Failed error"]) (auto simp: post_objectives_def authenticated_eq reply_with_def ret_def)
  next
    case (Authenticated prin)
    let ?b = "body_fields (rq_body req)"
    let ?sc = "scope_field text_of (js_get ?b ''scope'')"
    let ?d = "gate prin OBJECTIVE_CREATE_ACTION (create_resource prin ?sc ?b)"
    show thesis
    proof (cases "(\<exists>x. js_get ?b ''requestedOutcome'' = JStr x) \<and> (\<exists>x. js_get ?b ''definitionOfDone'' = JStr x)")
      case False
      with Inr Authenticated assms show thesis
        by (intro refused [of 400 "Failed ''requestedOutcome and definitionOfDone are required''"])
          (auto simp: post_objectives_def authenticated_eq Let_def reply_with_def ret_def split: jsval.splits)
    next
      case True
      then obtain x y where body: "js_get ?b ''requestedOutcome'' = JStr x" "js_get ?b ''definitionOfDone'' = JStr y"
        by blast
      have run: "(r, s') = gated ?d (bind_act (create env tick (create_input text_of x y ?sc ?b) prin)
          (\<lambda>obj. reply_with 201 (Objective_found obj))) s"
        using assms Inr Authenticated body by (simp add: post_objectives_def authenticated_eq Let_def)
      show thesis
      proof (cases "pd_effect ?d")
        case Allow
        with run Inr Authenticated body show thesis by (intro created) (simp_all add: gated_def)
      next
        case Deny
        with run show thesis by (intro refused) (auto simp: gated_def reply_with_def ret_def)
      next
        case Requires_approval
        with run show thesis by (intro refused) (auto simp: gated_def reply_with_def ret_def)
      qed
    qed
  qed
qed

lemma created_reply:
  assumes "sd_create deps = create" and "sd_authenticate deps = authenticate"
    and "post_objectives text_of deps env tick req s = (Inr reply, s')" and "rp_status reply = 201"
    and "\<And>code error. fst (authenticate (rq_headers req) s) = Inr (Refused code error) \<Longrightarrow> code \<noteq> 201"
  obtains prin input obj where "fst (authenticate (rq_headers req) s) = Inr (Authenticated prin)"
      "create env tick input prin s = (Inr obj, s')" "rp_body reply = Objective_found obj"
      "obj = new_objective (fresh_id env tick) input prin"
      "pd_effect (gate prin OBJECTIVE_CREATE_ACTION
         \<lparr>rs_organizationId = pr_organizationId prin, rs_scope = co_scope input, rs_ownerUserId = Some (pr_userId prin),
          rs_teamId = co_teamId input, rs_projectId = co_projectId input\<rparr>) = Allow"
proof (cases rule: create_cases [OF assms(1-3)])
  case (1 code body)
  with assms(4,5) show thesis by auto
next
  case (2 prin outcome dod sc)
  let ?input = "create_input text_of outcome dod sc (body_fields (rq_body req))"
  obtain obj where c: "create env tick ?input prin s = (Inr obj, s')" "rp_body reply = Objective_found obj"
    using 2(6) by (auto simp: bind_act_def reply_with_def ret_def split: prod.splits sum.splits)
  show thesis
  proof (rule that [OF 2(1) c(1,2) create_new [OF c(1)]])
    show "pd_effect (gate prin OBJECTIVE_CREATE_ACTION
         \<lparr>rs_organizationId = pr_organizationId prin, rs_scope = co_scope ?input, rs_ownerUserId = Some (pr_userId prin),
          rs_teamId = co_teamId ?input, rs_projectId = co_projectId ?input\<rparr>) = Allow"
      using 2(5) by (simp add: create_input_def create_resource_def)
  qed
qed

text \<open>An objective that was created is read by its creator, and by no caller of another organisation.\<close>

lemma created_is_read:
  assumes deps: "sd_create deps = create" "sd_get deps = get" "sd_authenticate deps = authenticate"
    and run: "post_objectives text_of deps env tick req s = (Inr reply, s')" "rp_status reply = 201"
    and codes: "\<And>code error. fst (authenticate (rq_headers req) s) = Inr (Refused code error) \<Longrightarrow> code \<noteq> 201"
  shows "\<exists>obj. rp_body reply = Objective_found obj
    \<and> (\<forall>req'. rq_headers req' = rq_headers req \<and> rq_id req' = ob_id obj \<longrightarrow>
         (\<exists>obj'. as_read obj obj' \<and> get_objective deps req' s' = reply_with 200 (Objective_found obj') s'))
    \<and> (\<forall>req' prin prin'. fst (authenticate (rq_headers req) s) = Inr (Authenticated prin) \<and> rq_id req' = ob_id obj
         \<and> fst (authenticate (rq_headers req') s') = Inr (Authenticated prin')
         \<and> pr_organizationId prin' \<noteq> pr_organizationId prin \<longrightarrow>
         get_objective deps req' s' = reply_with 404 (Failed ''not_found'') s')"
proof (cases rule: created_reply [OF deps(1,3) run codes])
  case (2 prin input obj)
  obtain obj' where found: "fst (get (ob_id obj) (pr_organizationId prin) s') = Inr (Some obj')" "as_read obj obj'"
    using create_get [OF 2(2)] by blast
  have own: "get_objective deps req' s' = reply_with 200 (Objective_found obj') s'"
    if "rq_headers req' = rq_headers req" "rq_id req' = ob_id obj" for req'
  proof -
    have "fst (authenticate (rq_headers req') s') = Inr (Authenticated prin)"
      using auth_frame [OF 2(2)] 2(1) that(1) by simp
    from read_reply [OF deps(2,3) this] found that(2)
      created_readable [of prin input "fresh_id env tick" obj'] 2(4,5)
    show ?thesis by (simp add: route_gates read_resource_def split: if_splits)
  qed
  have "get_objective deps req' s' = reply_with 404 (Failed ''not_found'') s'"
    if "rq_id req' = ob_id obj" "fst (authenticate (rq_headers req') s') = Inr (Authenticated prin')"
      "pr_organizationId prin' \<noteq> pr_organizationId prin" for req' prin'
    using read_reply [OF deps(2,3) that(2)] create_isolated [OF 2(2) that(3)] that(1) by simp
  with 2(1,3) own found(2) show ?thesis by auto
qed blast

end

section \<open>Both kinds of process\<close>

lemma jwtAuthenticator_reads:
  "\<exists>outcome. jwtAuthenticator verify resolve_principal headers d = (Inr outcome, d)"
proof (cases "bearerToken headers")
  case (Some token)
  show ?thesis
  proof (cases "verify token")
    case (Inr identity)
    obtain found where "resolve_principal identity d = (Inr found, d)"
      by (cases rule: resolve_principal_cases [of identity d]) blast+
    with Some Inr show ?thesis by (simp add: jwtAuthenticator_def bind_act_def ret_def)
  qed (simp add: Some jwtAuthenticator_def ret_def)
qed (simp add: jwtAuthenticator_def ret_def)

text \<open>The tables authentication reads.\<close>

definition same_accounts :: "'j db \<Rightarrow> 'k db \<Rightarrow> bool" where
  "same_accounts d d' \<longleftrightarrow> db_users d = db_users d' \<and> db_memberships d = db_memberships d'
     \<and> db_projectMemberships d = db_projectMemberships d'"

lemma resolve_principal_frame:
  "same_accounts d d' \<Longrightarrow> fst (resolve_principal identity d) = fst (resolve_principal identity d')"
  by (simp add: same_accounts_def resolve_principal_def gets_def memberships_of_def projects_of_def Let_def
      cong: option.case_cong)

lemma jwtAuthenticator_frame:
  assumes "same_accounts d d'"
  shows "fst (jwtAuthenticator verify resolve_principal headers d) = fst (jwtAuthenticator verify resolve_principal headers d')"
proof (cases "bearerToken headers")
  case (Some token)
  then show ?thesis
    using resolve_principal_frame [OF assms, of "projr (verify token)"]
    by (auto simp: jwtAuthenticator_def ret_def bind_act_def case_prod_beta split: sum.split)
qed (simp add: jwtAuthenticator_def ret_def)

lemma drizzle_create_accounts: "drizzle_create env tick input prin d = (r, d') \<Longrightarrow> same_accounts d' d"
  using drizzle_create_wp [of env tick input prin d]
  by (auto simp: wp_def same_accounts_def split: sum.splits)

interpretation durable_jwt: control_plane drizzle_create
    "drizzle_get :: ident \<Rightarrow> ident \<Rightarrow> ('j db, exn, objective option) act"
    "jwtAuthenticator verify resolve_principal"
  for verify :: "string \<Rightarrow> exn + verified_identity"
  by unfold_locales (auto intro: jwtAuthenticator_reads jwtAuthenticator_frame dest: drizzle_create_accounts)

interpretation durable_dev: control_plane drizzle_create
    "drizzle_get :: ident \<Rightarrow> ident \<Rightarrow> ('j db, exn, objective option) act" devAuthenticator
  by unfold_locales (simp_all add: devAuthenticator_def ret_def)

lemma on_objectives_eq:
  "fst (on_objectives m s) = fst (m \<lparr>om_store = sv_objectives s, om_bus = sv_bus s\<rparr>)"
  "\<lparr>om_store = sv_objectives (snd (on_objectives m s)), om_bus = sv_bus (snd (on_objectives m s))\<rparr>
     = snd (m \<lparr>om_store = sv_objectives s, om_bus = sv_bus s\<rparr>)"
  "snd (m \<lparr>om_store = sv_objectives s, om_bus = sv_bus s\<rparr>) = \<lparr>om_store = sv_objectives s, om_bus = sv_bus s\<rparr> \<Longrightarrow>
     snd (on_objectives m s) = s"
  by (simp_all add: on_objectives_def case_prod_beta)

interpretation memory_process: control_plane
    "\<lambda>env tick input prin. on_objectives (memory_create publish env tick input prin)"
    "\<lambda>i org. on_objectives (memory_get i org)" devAuthenticator
  for publish :: "event_envelope \<Rightarrow> ('b, exn, unit) act"
proof
  fix env tick input prin org r i obj headers
  fix s s' :: "'b memory_server"
  let ?v = "\<lambda>s. \<lparr>om_store = sv_objectives s, om_bus = sv_bus s\<rparr>"
  let ?create = "\<lambda>s. on_objectives (memory_create publish env tick input prin) s"
  show "\<exists>found. on_objectives (memory_get i org) s = (Inr found, s)"
    using memory_objectives.get_reads [of i org "?v s"] on_objectives_eq [of "memory_get i org" s]
    by (auto simp: prod_eq_iff)
  have run: "memory_create publish env tick input prin (?v s) = (q, ?v s')" if "?create s = (q, s')" for q
    using that on_objectives_eq(1,2) [of "memory_create publish env tick input prin" s] by (simp add: prod_eq_iff)
  show "?create s = (Inr obj, s') \<Longrightarrow> obj = new_objective (fresh_id env tick) input prin"
    using memory_objectives.create_new [OF run] .
  show "?create s = (Inr obj, s') \<Longrightarrow>
      \<exists>obj'. fst (on_objectives (memory_get (ob_id obj) (pr_organizationId prin)) s') = Inr (Some obj') \<and> as_read obj obj'"
    using memory_objectives.create_get [OF run] by (simp add: on_objectives_eq)
  show "?create s = (Inr obj, s') \<Longrightarrow> org \<noteq> pr_organizationId prin \<Longrightarrow>
      fst (on_objectives (memory_get (ob_id obj) org) s') = Inr None"
    using memory_objectives.create_isolated [OF run] by (simp add: on_objectives_eq)
  show "?create s = (r, s') \<Longrightarrow> i \<noteq> fresh_id env tick \<Longrightarrow>
      fst (on_objectives (memory_get i org) s') = fst (on_objectives (memory_get i org) s)"
    using memory_objectives.create_frame [OF run] by (simp add: on_objectives_eq)
  show "\<exists>outcome. devAuthenticator headers s = (Inr outcome, s)"
    by (simp add: devAuthenticator_def ret_def)
  show "?create s = (r, s') \<Longrightarrow> fst (devAuthenticator headers s') = fst (devAuthenticator headers s)"
    by (simp add: devAuthenticator_def ret_def)
qed

text \<open>The authenticators of a process with a database.\<close>

lemma built_control_plane:
  "buildAuthenticator jose auth True = Inr a \<Longrightarrow> control_plane drizzle_create drizzle_get a"
  using durable_jwt.control_plane_axioms durable_dev.control_plane_axioms
  by (auto simp: buildAuthenticator_def split: auth_config.splits)

lemma built_refusals:
  assumes "buildAuthenticator jose auth True = Inr a" and "fst (a headers d) = Inr (Refused code error)"
  shows "code = 401 \<or> code = 403"
  using assms
  by (auto simp: buildAuthenticator_def devAuthenticator_def jwtAuthenticator_def ret_def bind_act_def
      split: auth_config.splits option.splits sum.splits prod.splits if_splits)

lemma built_frame:
  "buildAuthenticator jose auth True = Inr a \<Longrightarrow> same_accounts d d' \<Longrightarrow> fst (a headers d) = fst (a headers d')"
  using jwtAuthenticator_frame [of d d']
  by (auto simp: buildAuthenticator_def devAuthenticator_def ret_def split: auth_config.splits)

section \<open>What a caller can observe\<close>

definition readable :: "principal_context \<Rightarrow> objective_row \<Rightarrow> bool" where
  "readable prin row \<longleftrightarrow> or_organizationId row = pr_organizationId prin
     \<and> pd_effect (gate prin OBJECTIVE_READ_ACTION (read_resource prin (rowToObjective row))) = Allow"

lemma find_by_key:
  assumes "unique_on (Some \<circ> f) rows" and "\<And>x. P x \<Longrightarrow> f x = k"
  shows "find P rows = Some r \<longleftrightarrow> r \<in> set rows \<and> P r"
proof
  assume r: "r \<in> set rows \<and> P r"
  then obtain r' where r': "find P rows = Some r'"
    by (cases "find P rows") (auto simp: find_None_conv)
  then have "r' \<in> set rows" "P r'" by (auto dest: find_SomeD)
  with r have "r' = r"
    using unique_onD [OF assms(1), of r' r k] assms(2) by simp
  with r' show "find P rows = Some r" by simp
qed (auto dest: find_SomeD)

lemma objective_found:
  assumes "db_ok d"
  shows "find (objective_at i org) (db_objectives d) = Some row \<longleftrightarrow>
    row \<in> set (db_objectives d) \<and> or_id row = i \<and> or_organizationId row = org"
proof -
  have "unique_on (Some \<circ> or_id) (db_objectives d)"
    using assms by (simp add: db_ok_def donna_constraints)
  from find_by_key [OF this, of "objective_at i org" i] show ?thesis
    by (auto simp: objective_at_def)
qed

lemma read_reply_rows:
  assumes "db_ok d" and "control_plane drizzle_create drizzle_get a"
    and "fst (a (rq_headers req) d) = Inr (Authenticated prin)"
  shows "fst (get_objective (durable_deps add_job a webhook) req d) =
    (if \<exists>row \<in> set (db_objectives d). or_id row = rq_id req \<and> readable prin row
     then Inr \<lparr>rp_status = 200, rp_body = Objective_found (rowToObjective
       (THE row. row \<in> set (db_objectives d) \<and> or_id row = rq_id req \<and> readable prin row))\<rparr>
     else Inr \<lparr>rp_status = 404, rp_body = Failed ''not_found''\<rparr>)"
proof -
  let ?found = "find (objective_at (rq_id req) (pr_organizationId prin)) (db_objectives d)"
  have reply: "get_objective (durable_deps add_job a webhook) req d =
    (case fst (drizzle_get (rq_id req) (pr_organizationId prin) d) of
       Inr (Some obj) \<Rightarrow>
         (if pd_effect (gate prin OBJECTIVE_READ_ACTION (read_resource prin obj)) = Allow
          then reply_with 200 (Objective_found obj) d else reply_with 404 (Failed ''not_found'') d)
     | _ \<Rightarrow> reply_with 404 (Failed ''not_found'') d)"
    by (rule control_plane.read_reply [OF assms(2) _ _ assms(3)]) (simp_all add: durable_deps_def)
  show ?thesis
  proof (cases ?found)
    case None
    then have "\<not> (\<exists>row \<in> set (db_objectives d). or_id row = rq_id req \<and> readable prin row)"
      by (auto simp: find_None_conv objective_at_def readable_def)
    with None reply show ?thesis by (simp add: drizzle_get_def gets_def reply_with_def ret_def)
  next
    case (Some row)
    have uniq: "r = row" if "r \<in> set (db_objectives d)" "or_id r = rq_id req" "readable prin r" for r
      using Some objective_found [OF assms(1), of "rq_id req" "pr_organizationId prin" r] that
      by (simp add: readable_def)
    have row: "row \<in> set (db_objectives d)" "or_id row = rq_id req" "or_organizationId row = pr_organizationId prin"
      using Some objective_found [OF assms(1), of "rq_id req" "pr_organizationId prin" row] by auto
    show ?thesis
    proof (cases "readable prin row")
      case True
      with row uniq have "(THE r. r \<in> set (db_objectives d) \<and> or_id r = rq_id req \<and> readable prin r) = row"
        by blast
      with True row Some reply show ?thesis
        by (auto simp: drizzle_get_def gets_def readable_def reply_with_def ret_def)
    next
      case False
      with uniq have "\<not> (\<exists>r \<in> set (db_objectives d). or_id r = rq_id req \<and> readable prin r)" by blast
      moreover from False row
      have "pd_effect (gate prin OBJECTIVE_READ_ACTION (read_resource prin (rowToObjective row))) \<noteq> Allow"
        by (simp add: readable_def)
      ultimately show ?thesis
        using Some reply by (simp add: drizzle_get_def gets_def reply_with_def ret_def)
    qed
  qed
qed

section \<open>Properties\<close>

text \<open>
  C31: Objectives a caller may not see cannot be observed. Two databases with the same accounts and the same
  objectives readable for the caller, whatever else they hold, answer every read of the caller in the same
  way: the reply to a hidden objective is the reply to a missing one.
\<close>

theorem hidden_objectives_unobservable:
  assumes "buildAuthenticator jose auth True = Inr a" and "db_ok d" and "db_ok d'" and "same_accounts d d'"
    and "\<And>prin. fst (a (rq_headers req) d) = Inr (Authenticated prin) \<Longrightarrow>
      set (filter (readable prin) (db_objectives d)) = set (filter (readable prin) (db_objectives d'))"
  shows "fst (get_objective (durable_deps add_job a webhook) req d) = fst (get_objective (durable_deps add_job a webhook) req d')"
proof -
  note cp = built_control_plane [OF assms(1)]
  have auth: "fst (a (rq_headers req) d') = fst (a (rq_headers req) d)"
    by (simp add: built_frame [OF assms(1,4)])
  show ?thesis
  proof (cases "\<exists>prin. fst (a (rq_headers req) d) = Inr (Authenticated prin)")
    case True
    then obtain prin where p: "fst (a (rq_headers req) d) = Inr (Authenticated prin)" by blast
    from assms(5) [OF p] have rows: "row \<in> set (db_objectives d) \<and> or_id row = rq_id req \<and> readable prin row \<longleftrightarrow>
        row \<in> set (db_objectives d') \<and> or_id row = rq_id req \<and> readable prin row" for row
      by auto
    show ?thesis
      unfolding read_reply_rows [OF assms(2) cp p] read_reply_rows [OF assms(3) cp p [folded auth]] Bex_def rows ..
  next
    case False
    obtain q where "fst (a (rq_headers req) d) = Inr q"
      using control_plane.auth_reads [OF cp, of "rq_headers req" d] by auto
    with False obtain code error where "fst (a (rq_headers req) d) = Inr (Refused code error)"
      by (cases q) auto
    with auth show ?thesis
      by (simp add: get_objective_def durable_deps_def control_plane.authenticated_eq [OF cp] reply_with_def ret_def)
  qed
qed

text \<open>
  C32: A caller reads what they create. After a 201 the same caller's read of the new objective is a 200 with
  the objective as created (its team only where its scope is TEAM), and the read of it by any caller of
  another organisation is a 404.
\<close>

theorem objective_read_your_writes:
  assumes "buildAuthenticator jose auth True = Inr a"
    and "post_objectives text_of (durable_deps add_job a webhook) env tick req d = (Inr reply, d')"
    and "rp_status reply = 201"
  shows "\<exists>obj. rp_body reply = Objective_found obj
    \<and> (\<forall>req'. rq_headers req' = rq_headers req \<and> rq_id req' = ob_id obj \<longrightarrow>
         (\<exists>obj'. as_read obj obj'
            \<and> get_objective (durable_deps add_job a webhook) req' d' = reply_with 200 (Objective_found obj') d'))
    \<and> (\<forall>req' prin prin'. fst (a (rq_headers req) d) = Inr (Authenticated prin) \<and> rq_id req' = ob_id obj
         \<and> fst (a (rq_headers req') d') = Inr (Authenticated prin')
         \<and> pr_organizationId prin' \<noteq> pr_organizationId prin \<longrightarrow>
         get_objective (durable_deps add_job a webhook) req' d' = reply_with 404 (Failed ''not_found'') d')"
  by (rule control_plane.created_is_read [OF built_control_plane [OF assms(1)] _ _ _ assms(2,3)])
    (auto simp: durable_deps_def dest: built_refusals [OF assms(1)])

lemma dispatch_reply:
  assumes "control_plane drizzle_create drizzle_get a" and "fst (a (rq_headers req) d) = Inr (Authenticated prin)"
  shows "post_tasks (durable_deps add_job a webhook) env tick req d =
    (case map_option rowToObjective (find (objective_at (rq_id req) (pr_organizationId prin)) (db_objectives d)) of
       None \<Rightarrow> reply_with 404 (Failed ''objective_not_found'')
     | Some obj \<Rightarrow>
         (let body = body_fields (rq_body req) in
          case (js_get body ''goal'', js_get body ''definitionOfDone'') of
            (JStr goal, JStr dod) \<Rightarrow>
              (case asStringArray (js_get body ''requiredCapabilities'') of
                 None \<Rightarrow> reply_with 400 (Failed ''requiredCapabilities must be an array of strings'')
               | Some caps \<Rightarrow>
                   gated (gate prin TASK_DISPATCH_ACTION (dispatch_resource prin obj))
                     (bind_act (drizzle_dispatch add_job env tick (body_dispatch (rq_id req) goal dod body caps) prin)
                       (\<lambda>(t, jobId). reply_with 202 (Task_queued t jobId))))
          | _ \<Rightarrow> reply_with 400 (Failed ''goal and definitionOfDone are required''))) d"
  unfolding post_tasks_def durable_deps_def server_deps.simps control_plane.authenticated_eq [OF assms(1)] assms(2)
    drizzle_get_def by (simp only: sum.case auth_outcome.case bind_gets)

text \<open>A dispatch of an authenticated caller: a refusal, or one call of the dispatcher within the scope.\<close>

lemma dispatch_cases:
  assumes "control_plane drizzle_create drizzle_get a" and "fst (a (rq_headers req) d) = Inr (Authenticated prin)"
  obtains (refused) code body where "post_tasks (durable_deps add_job a webhook) env tick req d = reply_with code body d"
      "code \<in> {400, 403, 404}"
  | (allowed) row input where
      "post_tasks (durable_deps add_job a webhook) env tick req d =
         bind_act (drizzle_dispatch add_job env tick input prin) (\<lambda>(t, jobId). reply_with 202 (Task_queued t jobId)) d"
      "row \<in> set (db_objectives d)" "or_id row = rq_id req" "or_organizationId row = pr_organizationId prin"
      "or_scope row \<noteq> TEAM" "hasScopeAccess prin (dispatch_resource prin (rowToObjective row))"
      "di_objectiveId input = rq_id req" "js_get (body_fields (rq_body req)) ''goal'' = JStr (di_goal input)"
      "js_get (body_fields (rq_body req)) ''definitionOfDone'' = JStr (di_definitionOfDone input)"
proof -
  let ?b = "body_fields (rq_body req)"
  note run = dispatch_reply [OF assms, of add_job webhook env tick, unfolded Let_def]
  show thesis
  proof (cases "find (objective_at (rq_id req) (pr_organizationId prin)) (db_objectives d)")
    case None
    with run show thesis by (intro refused [of 404 "Failed ''objective_not_found''"]) simp_all
  next
    case (Some row)
    then have row: "row \<in> set (db_objectives d)" "or_id row = rq_id req" "or_organizationId row = pr_organizationId prin"
      by (auto dest!: find_SomeD simp: objective_at_def)
    show thesis
    proof (cases "\<exists>goal dod caps. js_get ?b ''goal'' = JStr goal \<and> js_get ?b ''definitionOfDone'' = JStr dod
        \<and> asStringArray (js_get ?b ''requiredCapabilities'') = Some caps")
      case False
      with Some run have "\<exists>body. post_tasks (durable_deps add_job a webhook) env tick req d = reply_with 400 body d"
        by (auto split: jsval.splits option.splits)
      with refused show thesis by blast
    next
      case True
      then obtain goal dod caps where body: "js_get ?b ''goal'' = JStr goal" "js_get ?b ''definitionOfDone'' = JStr dod"
        "asStringArray (js_get ?b ''requiredCapabilities'') = Some caps" by blast
      note here = Some run body gated_def route_gates dispatch_resource_def
      show thesis
      proof (cases "hasScopeAccess prin (dispatch_resource prin (rowToObjective row))")
        case False
        with refused show thesis by (simp add: here)
      next
        case True
        then have "or_scope row \<noteq> TEAM"
          using team_dispatch_denied [of "rowToObjective row" prin] by (auto simp: rowToObjective_def)
        with True row body show thesis
          by (intro allowed [of "body_dispatch (rq_id req) goal dod ?b caps" row]) (simp_all add: here body_dispatch_def)
      qed
    qed
  qed
qed

text \<open>
  C33: Tasks are dispatched only within an objective's boundary. A dispatch that changes the database was
  answered 202 with the new task, for an objective stored in the caller's organisation whose scope admits
  the caller, and wrote exactly the task, its event and its job; every other reply, and every exception,
  leaves the database as it was. No task is ever dispatched under an objective of scope TEAM.
\<close>

theorem dispatch_within_scope:
  assumes "buildAuthenticator jose auth True = Inr a"
  shows "case post_tasks (durable_deps add_job a webhook) env tick req d of
      (Inl e, d') \<Rightarrow> d' = d \<and> (\<exists>c. e = DbError c)
    | (Inr reply, d') \<Rightarrow>
        (rp_status reply \<in> {400, 401, 403, 404} \<and> d' = d)
        \<or> (\<exists>prin row input t jobId. fst (a (rq_headers req) d) = Inr (Authenticated prin)
             \<and> row \<in> set (db_objectives d) \<and> or_id row = rq_id req
             \<and> or_organizationId row = pr_organizationId prin \<and> or_scope row \<noteq> TEAM
             \<and> hasScopeAccess prin (dispatch_resource prin (rowToObjective row))
             \<and> reply = \<lparr>rp_status = 202, rp_body = Task_queued t jobId\<rparr>
             \<and> di_objectiveId input = rq_id req \<and> t = newTask env tick input
             \<and> js_get (body_fields (rq_body req)) ''goal'' = JStr (di_goal input)
             \<and> js_get (body_fields (rq_body req)) ''definitionOfDone'' = JStr (di_definitionOfDone input)
             \<and> db_ok d' \<and> d' = dispatched add_job env tick input prin d)"
proof -
  note cp = built_control_plane [OF assms]
  obtain outcome where auth: "fst (a (rq_headers req) d) = Inr outcome"
    using control_plane.auth_reads [OF cp, of "rq_headers req" d] by auto
  show ?thesis
  proof (cases outcome)
    case (Refused code error)
    with auth built_refusals [OF assms, of "rq_headers req" d code error] show ?thesis
      by (auto simp: post_tasks_def durable_deps_def control_plane.authenticated_eq [OF cp] reply_with_def ret_def)
  next
    case (Authenticated prin)
    show ?thesis
    proof (cases rule: dispatch_cases [OF cp auth [unfolded Authenticated], of add_job webhook env tick])
      case (1 code body)
      then show ?thesis by (auto simp: reply_with_def ret_def)
    next
      case (2 row input)
      with drizzle_dispatch_wp [of add_job env tick input prin d] auth Authenticated show ?thesis
        by (auto simp: wp_def bind_act_def reply_with_def ret_def split: prod.splits sum.splits)
    qed
  qed
qed


subsection \<open>Witnesses\<close>

definition dev_headers :: "string \<Rightarrow> js_fields" where
  "dev_headers user =
     [(''x-donna-user-id'', JStr user), (''x-donna-org-id'', JStr ''org''), (''x-donna-role'', JStr ''owner''),
      (''x-donna-actor-kind'', JStr ''human'')]"

definition dev_principal :: "string \<Rightarrow> principal_context" where
  "dev_principal user = sample_principal\<lparr>pr_userId := user\<rparr>"

definition sample_request :: "string \<Rightarrow> string \<Rightarrow> js_fields \<Rightarrow> request" where
  "sample_request user i body =
     \<lparr>rq_headers = dev_headers user, rq_id = i, rq_body = JObj body, rq_rawBody = []\<rparr>"

definition no_jose :: "string \<Rightarrow> jwt_verify" where
  "no_jose url token issuer audience = Inl ''no key''"

definition plain_queue :: "unit add_job" where
  "plain_queue identifier payload key q = (''1'', q)"

lemma dev_built: "buildAuthenticator no_jose Dev_shim True = Inr devAuthenticator"
  by (simp add: buildAuthenticator_def)

lemma dev_authenticated: "fst (devAuthenticator (rq_headers (sample_request user i body)) d) = Inr (Authenticated (dev_principal user))"
  by (simp add: devAuthenticator_def ret_def devPrincipalFromHeaders_def sample_request_def dev_headers_def firstString_def
      union_of_text_def ROLES_def csv_def dev_principal_def sample_principal_def)

text \<open>The sample database with a private objective of its user.\<close>

definition with_private :: "unit db" where
  "with_private = sample_db\<lparr>db_objectives := db_objectives sample_db @
     [sample_objective_row\<lparr>or_id := ''o2'', or_scope := PRIVATE\<rparr>]\<rparr>"

lemma with_private_ok: "db_ok with_private"
  by code_simp

theorem hidden_objectives_unobservable_witness:
  "fst (get_objective (durable_deps plain_queue devAuthenticator None) (sample_request ''u2'' ''o2'' []) sample_db)
     = fst (get_objective (durable_deps plain_queue devAuthenticator None) (sample_request ''u2'' ''o2'' []) with_private)"
proof (rule hidden_objectives_unobservable [OF dev_built sample_db_ok with_private_ok])
  show "same_accounts sample_db with_private"
    by (simp add: same_accounts_def with_private_def)
  fix prin
  assume "fst (devAuthenticator (rq_headers (sample_request ''u2'' ''o2'' [])) sample_db) = Inr (Authenticated prin)"
  then have "prin = dev_principal ''u2''"
    by (simp only: dev_authenticated sum.inject auth_outcome.inject)
  then show "set (filter (readable prin) (db_objectives sample_db)) = set (filter (readable prin) (db_objectives with_private))"
    by (simp add: with_private_def readable_def route_gates hasScopeAccess_cases read_resource_def rowToObjective_def
        sample_objective_row_def dev_principal_def sample_principal_def)
qed

definition private_input :: create_objective_input where
  "private_input = \<lparr>co_requestedOutcome = ''a'', co_definitionOfDone = ''b'', co_scope = PRIVATE,
     co_riskLevel = RiskLow, co_projectId = None, co_teamId = None\<rparr>"

definition private_body :: js_fields where
  "private_body = [(''requestedOutcome'', JStr ''a''), (''definitionOfDone'', JStr ''b''), (''scope'', JStr ''PRIVATE'')]"

lemma sample_created_ok:
  "let obj = new_objective (fresh_id numbered_env 0) private_input (dev_principal ''u1'');
       d = sample_db\<lparr>db_objectives := db_objectives sample_db @ [objectiveToRow obj ''org'']\<rparr>
   in db_ok d \<and> db_ok (d\<lparr>db_events := db_events sample_db @
        [eventEnvelopeToRow (objective_created numbered_env 1 (dev_principal ''u1'') (fresh_id numbered_env 0))]\<rparr>)"
  by code_simp

lemma sample_created:
  "\<exists>obj d'. post_objectives (\<lambda>_. []) (durable_deps plain_queue devAuthenticator None) numbered_env 0
       (sample_request ''u1'' [] private_body) sample_db = (Inr \<lparr>rp_status = 201, rp_body = Objective_found obj\<rparr>, d')"
proof -
  let ?create = "drizzle_create numbered_env 0 private_input (dev_principal ''u1'') :: (unit db, exn, objective) act"
  have "wp ?create (\<lambda>_ _. True) (\<lambda>_ _. False) sample_db"
    using sample_created_ok by (simp add: drizzle_create_def Let_def dev_principal_def sample_principal_def)
  then obtain obj d' where "?create sample_db = (Inr obj, d')"
    by (auto simp: wp_def split: prod.splits sum.splits)
  moreover have "create_input (\<lambda>_. []) ''a'' ''b'' PRIVATE private_body = private_input"
    by (simp add: create_input_def private_input_def private_body_def risk_field_def id_field_def)
  moreover have "hasScopeAccess (dev_principal ''u1'') (create_resource (dev_principal ''u1'') PRIVATE private_body)"
    by (simp add: hasScopeAccess_cases create_resource_def)
  ultimately show ?thesis
    unfolding post_objectives_def durable_deps_def server_deps.simps durable_dev.authenticated_eq dev_authenticated
    by (simp add: sample_request_def body_fields_def private_body_def scope_field_def gated_def route_gates
        create_resource_def bind_act_def reply_with_def ret_def)
qed

theorem objective_read_your_writes_witness:
  "\<exists>obj obj' d'. post_objectives (\<lambda>_. []) (durable_deps plain_queue devAuthenticator None) numbered_env 0
       (sample_request ''u1'' [] private_body) sample_db = (Inr \<lparr>rp_status = 201, rp_body = Objective_found obj\<rparr>, d')
     \<and> as_read obj obj'
     \<and> get_objective (durable_deps plain_queue devAuthenticator None) (sample_request ''u1'' (ob_id obj) []) d'
         = reply_with 200 (Objective_found obj') d'"
proof -
  from sample_created obtain obj d' where run: "post_objectives (\<lambda>_. []) (durable_deps plain_queue devAuthenticator None)
      numbered_env 0 (sample_request ''u1'' [] private_body) sample_db = (Inr \<lparr>rp_status = 201, rp_body = Objective_found obj\<rparr>, d')"
    by blast
  from objective_read_your_writes [OF dev_built run]
  have "\<forall>req'. rq_headers req' = rq_headers (sample_request ''u1'' [] private_body) \<and> rq_id req' = ob_id obj \<longrightarrow>
      (\<exists>obj'. as_read obj obj' \<and> get_objective (durable_deps plain_queue devAuthenticator None) req' d'
         = reply_with 200 (Objective_found obj') d')"
    by simp
  from this [rule_format, of "sample_request ''u1'' (ob_id obj) []"] run show ?thesis
    by (auto simp: sample_request_def)
qed

lemma sample_queued_ok:
  "db_ok (dispatched plain_queue numbered_env 0 sample_dispatch (dev_principal ''u1'') sample_db)"
  "db_ok (sample_db\<lparr>db_tasks := db_tasks sample_db @ [taskToRow (newTask numbered_env 0 sample_dispatch)
     (pr_organizationId (dev_principal ''u1'')) (wh_requiredCapabilities (di_hints sample_dispatch))]\<rparr>)"
  by code_simp+

definition task_body :: js_fields where
  "task_body = [(''goal'', JStr ''goal''), (''definitionOfDone'', JStr ''done'')]"

theorem dispatch_within_scope_witness:
  "\<exists>t jobId d'. post_tasks (durable_deps plain_queue devAuthenticator None) numbered_env 0
       (sample_request ''u1'' ''o1'' task_body) sample_db = (Inr \<lparr>rp_status = 202, rp_body = Task_queued t jobId\<rparr>, d')
     \<and> tk_objectiveId t = ''o1'' \<and> db_ok d'"
proof -
  let ?run = "post_tasks (durable_deps plain_queue devAuthenticator None) numbered_env 0
      (sample_request ''u1'' ''o1'' task_body) sample_db"
  have cp: "control_plane drizzle_create drizzle_get (devAuthenticator :: unit db authenticator)"
    by (rule durable_dev.control_plane_axioms)
  have input: "body_dispatch ''o1'' ''goal'' ''done'' task_body [] = sample_dispatch"
    by (simp add: body_dispatch_def dispatch_hints_def task_body_def sample_dispatch_def no_hints_def)
  have found: "find (objective_at ''o1'' (pr_organizationId (dev_principal ''u1''))) (db_objectives sample_db) = Some sample_objective_row"
    by (simp add: sample_db_def sample_objective_row_def objective_at_def dev_principal_def sample_principal_def)
  have access: "hasScopeAccess (dev_principal ''u1'') (dispatch_resource (dev_principal ''u1'') (rowToObjective sample_objective_row))"
    by (simp add: hasScopeAccess_cases dispatch_resource_def rowToObjective_def sample_objective_row_def)
  have body: "rq_id (sample_request ''u1'' ''o1'' task_body) = ''o1''"
    "body_fields (rq_body (sample_request ''u1'' ''o1'' task_body)) = task_body"
    "js_get task_body ''goal'' = JStr ''goal''" "js_get task_body ''definitionOfDone'' = JStr ''done''"
    "asStringArray (js_get task_body ''requiredCapabilities'') = Some []"
    by (simp_all add: sample_request_def body_fields_def task_body_def asStringArray_def)
  have "wp (drizzle_dispatch plain_queue numbered_env 0 sample_dispatch (dev_principal ''u1'')) (\<lambda>_ _. True) (\<lambda>_ _. False) sample_db"
    using sample_queued_ok by (simp add: drizzle_dispatch_def Let_def dispatched_def plain_queue_def)
  then obtain t jobId d' where "drizzle_dispatch plain_queue numbered_env 0 sample_dispatch (dev_principal ''u1'') sample_db = (Inr (t, jobId), d')"
    by (auto simp: wp_def split: prod.splits sum.splits)
  then have run: "?run = (Inr \<lparr>rp_status = 202, rp_body = Task_queued t jobId\<rparr>, d')"
    using found access input body unfolding dispatch_reply [OF cp dev_authenticated]
    by (simp add: gated_def route_gates dispatch_resource_def bind_act_def reply_with_def ret_def)
  with dispatch_within_scope [OF dev_built, where add_job = plain_queue and webhook = None and env = numbered_env
      and tick = 0 and req = "sample_request ''u1'' ''o1'' task_body" and d = sample_db]
  show ?thesis
    by (auto simp: body newTask_def fresh_task_def task_input_def)
qed

end
