(* ===== verification/Constitution.thy ===== *)
theory Constitution
  imports Row_Mappers
begin

text \<open>
  The business constitution (\<open>packages/db/src/schema/business-constitution.ts\<close> and
  \<open>apps/control-plane/src/services/drizzle-business-constitution-service.ts\<close>): versions are proposed with
  their rules, a human approves one and supersedes the one before. The operations are transactions over
  their two tables; the states they reach are an inductive set; and the last section runs two approvals
  statement by statement, as the database interleaves them.
\<close>

section \<open>Tables\<close>

datatype constitution_status = Proposed | Approved | Superseded | Rejected

datatype constitution_rule_kind =
    goal_priority | definition_of_done | role_authority | customer_promise | communication_brand
  | financial_threshold | operational_threshold | escalation | ai_boundary | risk_tolerance
  | never_autonomous

record constitution_row =
  cr_id :: ident
  cr_organizationId :: ident
  cr_version :: int
  cr_status :: constitution_status
  cr_title :: string
  cr_proposedByUserId :: "ident option"
  cr_approvedByUserId :: "ident option"
  cr_approvedAt :: "time option"
  cr_createdAt :: time
  cr_updatedAt :: time

record constitution_rule_row =
  cu_id :: ident
  cu_organizationId :: ident
  cu_constitutionId :: ident
  cu_kind :: constitution_rule_kind
  cu_key :: string
  cu_statement :: string
  cu_action :: "string option"
  cu_thresholdMinor :: "int option"
  cu_currency :: "string option"
  cu_requiresApproval :: bool
  cu_neverAutonomous :: bool
  cu_structuredValue :: "js option"
  cu_createdAt :: time

text \<open>The two tables, and the keys of the organizations and users they refer to.\<close>

record constitution_store =
  cs_orgs :: "ident list"
  cs_users :: "(ident \<times> ident) list"
  cs_constitutions :: "constitution_row list"
  cs_rules :: "constitution_rule_row list"

text \<open>A column of type \<open>integer\<close> holds 32 bits.\<close>

definition pg_integer :: "int \<Rightarrow> bool" where
  "pg_integer n \<longleftrightarrow> - 2147483648 \<le> n \<and> n \<le> 2147483647"

definition org_constitutions :: "constitution_store \<Rightarrow> (ident \<times> ident) list" where
  "org_constitutions s = map (\<lambda>r. (cr_organizationId r, cr_id r)) (cs_constitutions s)"

definition constitution_constraints :: "(string \<times> (constitution_store \<Rightarrow> bool)) list" where
  "constitution_constraints =
    [(''integer version'', \<lambda>s. list_all (pg_integer \<circ> cr_version) (cs_constitutions s)),
     (''business_constitutions_pkey'', \<lambda>s. unique_on (Some \<circ> cr_id) (cs_constitutions s)),
     (''business_constitutions_organization_id_organizations_id_fk'',
        \<lambda>s. refers (Some \<circ> cr_organizationId) (cs_constitutions s) (cs_orgs s)),
     (''business_constitutions_org_version_unique'',
        \<lambda>s. unique_on (\<lambda>r. Some (cr_organizationId r, cr_version r)) (cs_constitutions s)),
     (''business_constitutions_org_proposer_fk'',
        \<lambda>s. refers (\<lambda>r. map_option (Pair (cr_organizationId r)) (cr_proposedByUserId r)) (cs_constitutions s)
          (cs_users s)),
     (''business_constitutions_org_approver_fk'',
        \<lambda>s. refers (\<lambda>r. map_option (Pair (cr_organizationId r)) (cr_approvedByUserId r)) (cs_constitutions s)
          (cs_users s)),
     (''integer threshold_minor'',
        \<lambda>s. list_all (\<lambda>r. case cu_thresholdMinor r of None \<Rightarrow> True | Some n \<Rightarrow> pg_integer n) (cs_rules s)),
     (''constitution_rules_pkey'', \<lambda>s. unique_on (Some \<circ> cu_id) (cs_rules s)),
     (''constitution_rules_org_constitution_fk'',
        \<lambda>s. refers (\<lambda>r. Some (cu_organizationId r, cu_constitutionId r)) (cs_rules s) (org_constitutions s))]"

definition store_ok :: "constitution_store \<Rightarrow> bool" where
  "store_ok s = (\<forall>c \<in> set constitution_constraints. snd c s)"

definition constitution_statement ::
    "(constitution_store \<Rightarrow> constitution_store) \<Rightarrow> (constitution_store, exn, unit) act" where
  "constitution_statement f = statement_under constitution_constraints f"

lemma wp_constitution_statement:
  "(store_ok (f s) \<Longrightarrow> Q () (f s)) \<Longrightarrow> (\<And>c. E (DbError c) s) \<Longrightarrow> wp (constitution_statement f) Q E s"
  by (simp add: constitution_statement_def wp_statement_under store_ok_def)

section \<open>Proposing\<close>

record constitution_rule_input =
  ci_kind :: constitution_rule_kind
  ci_key :: string
  ci_statement :: string
  ci_action :: "string option"
  ci_thresholdMinor :: "int option"
  ci_currency :: "string option"
  ci_requiresApproval :: "bool option"
  ci_neverAutonomous :: "bool option"
  ci_structuredValue :: "js option"

type_synonym constitution_proposal = "constitution_row \<times> constitution_rule_row list"

text \<open>\<open>select coalesce(max(version), 0)::int + 1\<close> of the organization\<close>

definition next_version :: "ident \<Rightarrow> constitution_store \<Rightarrow> int" where
  "next_version org s =
     foldr max (map cr_version (filter (\<lambda>r. cr_organizationId r = org) (cs_constitutions s))) 0 + 1"

definition proposed_row :: "env \<Rightarrow> nat \<Rightarrow> ident \<Rightarrow> ident \<Rightarrow> string \<Rightarrow> int \<Rightarrow> constitution_row" where
  "proposed_row env tick org proposer title version =
     \<lparr>cr_id = uuid_at env tick, cr_organizationId = org, cr_version = version, cr_status = Proposed,
      cr_title = title, cr_proposedByUserId = Some proposer, cr_approvedByUserId = None, cr_approvedAt = None,
      cr_createdAt = clock_at env tick, cr_updatedAt = clock_at env tick\<rparr>"

definition rule_row :: "env \<Rightarrow> nat \<Rightarrow> ident \<Rightarrow> ident \<Rightarrow> nat \<Rightarrow> constitution_rule_input \<Rightarrow> constitution_rule_row" where
  "rule_row env tick org constitutionId n rule =
     \<lparr>cu_id = uuid_at env (tick + 1 + n), cu_organizationId = org, cu_constitutionId = constitutionId,
      cu_kind = ci_kind rule, cu_key = ci_key rule, cu_statement = ci_statement rule,
      cu_action = ci_action rule, cu_thresholdMinor = ci_thresholdMinor rule, cu_currency = ci_currency rule,
      cu_requiresApproval = coalesce (ci_requiresApproval rule) False,
      cu_neverAutonomous = coalesce (ci_neverAutonomous rule) False,
      cu_structuredValue = ci_structuredValue rule, cu_createdAt = clock_at env tick\<rparr>"

definition rule_rows ::
    "env \<Rightarrow> nat \<Rightarrow> ident \<Rightarrow> ident \<Rightarrow> constitution_rule_input list \<Rightarrow> constitution_rule_row list" where
  "rule_rows env tick org constitutionId rules =
     map (\<lambda>(n, rule). rule_row env tick org constitutionId n rule) (enumerate 0 rules)"

definition insert_constitution :: "constitution_row \<Rightarrow> constitution_store \<Rightarrow> constitution_store" where
  "insert_constitution row s = s\<lparr>cs_constitutions := cs_constitutions s @ [row]\<rparr>"

definition insert_rules :: "constitution_rule_row list \<Rightarrow> constitution_store \<Rightarrow> constitution_store" where
  "insert_rules rows s = s\<lparr>cs_rules := cs_rules s @ rows\<rparr>"

definition propose ::
    "env \<Rightarrow> nat \<Rightarrow> ident \<Rightarrow> ident \<Rightarrow> constitution_rule_input list \<Rightarrow> string option \<Rightarrow>
     (constitution_store, exn, constitution_proposal) act" where
  "propose env tick org proposer rules title =
     transaction
       (bind_act (gets (next_version org)) (\<lambda>version.
        if \<not> pg_integer version then throw (DbError ''integer out of range'')
        else
          let row = proposed_row env tick org proposer (coalesce title ''Business Constitution'') version;
              inserted = rule_rows env tick org (cr_id row) rules
          in seq_act (constitution_statement (insert_constitution row))
            (seq_act (if rules = [] then ret () else constitution_statement (insert_rules inserted))
            (ret (row, inserted)))))"

section \<open>Approving\<close>

datatype approver_kind = ByHuman | ByAgent | BySystem

definition rules_of :: "ident \<Rightarrow> ident \<Rightarrow> constitution_store \<Rightarrow> constitution_rule_row list" where
  "rules_of org i s = filter (\<lambda>r. cu_organizationId r = org \<and> cu_constitutionId r = i) (cs_rules s)"

definition candidate :: "ident \<Rightarrow> ident \<Rightarrow> constitution_row list \<Rightarrow> constitution_row option" where
  "candidate org i rows =
     find (\<lambda>r. cr_organizationId r = org \<and> cr_id r = i \<and> cr_status r = Proposed) rows"

definition active_in :: "ident \<Rightarrow> constitution_row \<Rightarrow> bool" where
  "active_in org r \<longleftrightarrow> cr_organizationId r = org \<and> cr_status r = Approved"

definition supersede :: "time \<Rightarrow> constitution_row \<Rightarrow> constitution_row" where
  "supersede now r = r\<lparr>cr_status := Superseded, cr_updatedAt := now\<rparr>"

definition mark_approved :: "ident \<Rightarrow> time \<Rightarrow> time \<Rightarrow> constitution_row \<Rightarrow> constitution_row" where
  "mark_approved approver approvedAt now r =
     r\<lparr>cr_status := Approved, cr_approvedByUserId := Some approver, cr_approvedAt := Some approvedAt, cr_updatedAt := now\<rparr>"

text \<open>\<open>update .. set .. where\<close>\<close>

definition update_where :: "('r \<Rightarrow> bool) \<Rightarrow> ('r \<Rightarrow> 'r) \<Rightarrow> 'r list \<Rightarrow> 'r list" where
  "update_where p f rows = map (\<lambda>r. if p r then f r else r) rows"

definition on_constitutions ::
    "(constitution_row list \<Rightarrow> constitution_row list) \<Rightarrow> constitution_store \<Rightarrow> constitution_store" where
  "on_constitutions f s = s\<lparr>cs_constitutions := f (cs_constitutions s)\<rparr>"

definition this_constitution :: "ident \<Rightarrow> ident \<Rightarrow> constitution_row \<Rightarrow> bool" where
  "this_constitution org i r \<longleftrightarrow> cr_organizationId r = org \<and> cr_id r = i"

definition approve ::
    "env \<Rightarrow> nat \<Rightarrow> ident \<Rightarrow> ident \<Rightarrow> ident \<Rightarrow> approver_kind \<Rightarrow>
     (constitution_store, exn, constitution_proposal option) act" where
  "approve env tick org i approver kind =
     (if kind \<noteq> ByHuman then ret None
      else transaction
        (bind_act (gets (\<lambda>s. candidate org i (cs_constitutions s))) (\<lambda>found.
         case found of
           None \<Rightarrow> ret None
         | Some _ \<Rightarrow>
             seq_act (constitution_statement (on_constitutions (update_where (active_in org) (supersede (clock_at env tick)))))
             (seq_act (constitution_statement (on_constitutions (update_where (this_constitution org i)
                (mark_approved approver (clock_at env (tick + 1)) (clock_at env (tick + 2))))))
             (gets (\<lambda>s. map_option (\<lambda>row. (row, rules_of org i s))
                (find (this_constitution org i) (cs_constitutions s))))))))"

section \<open>The active constitution\<close>

definition active_row :: "ident \<Rightarrow> constitution_store \<Rightarrow> constitution_row option" where
  "active_row org s = first_of (sort_key (\<lambda>r. - cr_version r) (filter (active_in org) (cs_constitutions s)))"

definition getActive :: "ident \<Rightarrow> (constitution_store, exn, constitution_proposal option) act" where
  "getActive org =
     gets (\<lambda>s. map_option (\<lambda>row. (row, rules_of org (cr_id row) s)) (active_row org s))"

section \<open>What the operations do\<close>

definition proposal_made ::
    "env \<Rightarrow> nat \<Rightarrow> ident \<Rightarrow> ident \<Rightarrow> constitution_rule_input list \<Rightarrow> string option \<Rightarrow> constitution_store \<Rightarrow> constitution_proposal" where
  "proposal_made env tick org proposer rules title s =
     (let row = proposed_row env tick org proposer (coalesce title ''Business Constitution'') (next_version org s)
      in (row, rule_rows env tick org (cr_id row) rules))"

lemma propose_wp:
  "wp (propose env tick org proposer rules title)
     (\<lambda>made s'. made = proposal_made env tick org proposer rules title s \<and> store_ok s'
        \<and> s' = insert_rules (snd made) (insert_constitution (fst made) s))
     (\<lambda>e s'. s' = s \<and> (\<exists>c. e = DbError c)) s"
proof -
  have "insert_rules [] t = t" for t by (simp add: insert_rules_def)
  then show ?thesis
    unfolding propose_def Let_def wp_transaction wp_bind wp_gets wp_if wp_seq wp_ret wp_throw
    by (cases "rules = []")
      (auto simp: proposal_made_def Let_def rule_rows_def enumerate_eq_zip intro!: wp_constitution_statement)
qed

definition approved_store :: "env \<Rightarrow> nat \<Rightarrow> ident \<Rightarrow> ident \<Rightarrow> ident \<Rightarrow> constitution_store \<Rightarrow> constitution_store" where
  "approved_store env tick org i approver s =
     on_constitutions (update_where (this_constitution org i)
         (mark_approved approver (clock_at env (tick + 1)) (clock_at env (tick + 2))))
       (on_constitutions (update_where (active_in org) (supersede (clock_at env tick))) s)"

lemma approve_wp:
  "wp (approve env tick org i approver kind)
     (\<lambda>result s'. (result = None \<and> s' = s \<and> (kind \<noteq> ByHuman \<or> candidate org i (cs_constitutions s) = None))
        \<or> (kind = ByHuman \<and> candidate org i (cs_constitutions s) \<noteq> None \<and> store_ok s'
           \<and> s' = approved_store env tick org i approver s
           \<and> result = map_option (\<lambda>row. (row, rules_of org i s')) (find (this_constitution org i) (cs_constitutions s'))))
     (\<lambda>e s'. s' = s \<and> (\<exists>c. e = DbError c)) s"
proof (cases "kind = ByHuman")
  case True
  show ?thesis
    unfolding approve_def wp_transaction wp_bind wp_gets wp_if wp_ret
    by (cases "candidate org i (cs_constitutions s)")
      (auto simp: True approved_store_def intro!: wp_constitution_statement)
qed (simp add: approve_def)

section \<open>Reachable states\<close>

text \<open>Organizations and users come and go as the constraints allow.\<close>

inductive constitution_reach :: "constitution_store \<Rightarrow> bool" where
  initially: "constitution_reach \<lparr>cs_orgs = [], cs_users = [], cs_constitutions = [], cs_rules = []\<rparr>"
| accounts: "constitution_reach s \<Longrightarrow> store_ok (s\<lparr>cs_orgs := orgs, cs_users := users\<rparr>) \<Longrightarrow>
    constitution_reach (s\<lparr>cs_orgs := orgs, cs_users := users\<rparr>)"
| proposing: "constitution_reach s \<Longrightarrow> propose env tick org proposer rules title s = (r, s') \<Longrightarrow> constitution_reach s'"
| approving: "constitution_reach s \<Longrightarrow> approve env tick org i approver kind s = (r', s') \<Longrightarrow> constitution_reach s'"

definition of_org :: "ident \<Rightarrow> constitution_store \<Rightarrow> constitution_row list" where
  "of_org org s = filter (\<lambda>r. cr_organizationId r = org) (cs_constitutions s)"

text \<open>What a row's status says of its approval.\<close>

definition row_lifecycle :: "constitution_row \<Rightarrow> bool" where
  "row_lifecycle r \<longleftrightarrow> cr_status r \<noteq> Rejected
     \<and> (cr_status r = Proposed \<longleftrightarrow> cr_approvedByUserId r = None) \<and> (cr_approvedAt r = None \<longleftrightarrow> cr_approvedByUserId r = None)"

definition constitution_inv :: "constitution_store \<Rightarrow> bool" where
  "constitution_inv s \<longleftrightarrow> store_ok s
     \<and> (\<forall>org. length (filter (active_in org) (cs_constitutions s)) \<le> 1)
     \<and> (\<forall>org. map cr_version (of_org org s) = [1..int (length (of_org org s))])
     \<and> list_all row_lifecycle (cs_constitutions s)"

lemma constitution_invD:
  assumes "constitution_inv s"
  shows "store_ok s" "length (filter (active_in org) (cs_constitutions s)) \<le> 1"
    "map cr_version (of_org org s) = [1..int (length (of_org org s))]" "list_all row_lifecycle (cs_constitutions s)"
  using assms by (simp_all add: constitution_inv_def)

lemma foldr_max:
  assumes "\<And>x. x \<in> set xs \<Longrightarrow> x \<le> m" and "m \<in> set xs \<or> m = 0" and "0 \<le> (m :: int)"
  shows "foldr max xs 0 = m"
proof (rule antisym)
  show "foldr max xs 0 \<le> m"
    using assms(1,3) by (induction xs) auto
  have "x \<in> set xs \<Longrightarrow> x \<le> foldr max xs 0" for x by (induction xs) auto
  moreover have "0 \<le> foldr max xs 0" by (induction xs) auto
  ultimately show "m \<le> foldr max xs 0" using assms(2) by auto
qed

lemma next_version_length:
  assumes "map cr_version (of_org org s) = [1..int (length (of_org org s))]"
  shows "next_version org s = int (length (of_org org s)) + 1"
proof -
  have "foldr max (map cr_version (of_org org s)) 0 = int (length (of_org org s))"
    unfolding assms by (rule foldr_max) (auto simp: Suc_le_eq)
  then show ?thesis by (simp add: next_version_def of_org_def)
qed

lemma propose_inv:
  assumes "constitution_inv s" and "store_ok s'"
    and "s' = insert_rules rules (insert_constitution (proposed_row env tick org proposer title (next_version org s)) s)"
  shows "constitution_inv s'"
proof -
  let ?row = "proposed_row env tick org proposer title (next_version org s)"
  have rows: "cs_constitutions s' = cs_constitutions s @ [?row]"
    by (simp add: assms(3) insert_rules_def insert_constitution_def)
  have "map cr_version (of_org org' s') = [1..int (length (of_org org' s'))]" for org'
    using constitution_invD(3) [OF assms(1), of org'] next_version_length [OF constitution_invD(3) [OF assms(1)], of org]
    by (simp add: of_org_def rows proposed_row_def upto_rec2 add.commute)
  moreover have "length (filter (active_in org') (cs_constitutions s')) \<le> 1" for org'
    using constitution_invD(2) [OF assms(1), of org'] by (simp add: rows active_in_def proposed_row_def)
  ultimately show ?thesis
    using assms(2) constitution_invD(4) [OF assms(1)]
    by (simp add: constitution_inv_def rows row_lifecycle_def proposed_row_def)
qed

lemma unique_key_filter:
  "unique_on (Some \<circ> f) rows \<Longrightarrow> (\<And>r. p r \<Longrightarrow> f r = k) \<Longrightarrow> length (filter p rows) \<le> 1"
proof (induction rows)
  case (Cons r rows)
  have u: "unique_on (Some \<circ> f) rows" "f r \<notin> f ` set rows"
    using Cons.prems(1) by (auto simp: unique_on_def set_map_filter_Some comp_def)
  show ?case
  proof (cases "p r")
    case True
    then have "filter p rows = []" using u(2) Cons.prems(2) by (fastforce simp: filter_empty_conv)
    with True show ?thesis by simp
  next
    case False
    with Cons.IH [OF u(1) Cons.prems(2)] show ?thesis by simp
  qed
qed simp

text \<open>An approval, row by row.\<close>

definition approve_row :: "env \<Rightarrow> nat \<Rightarrow> ident \<Rightarrow> ident \<Rightarrow> ident \<Rightarrow> constitution_row \<Rightarrow> constitution_row" where
  "approve_row env tick org i approver r =
     (let r' = (if active_in org r then supersede (clock_at env tick) r else r)
      in if this_constitution org i r'
         then mark_approved approver (clock_at env (tick + 1)) (clock_at env (tick + 2)) r' else r')"

lemma approved_store_simps:
  "cs_constitutions (approved_store env tick org i approver s) = map (approve_row env tick org i approver) (cs_constitutions s)"
  "cs_rules (approved_store env tick org i approver s) = cs_rules s"
  by (auto simp: approved_store_def on_constitutions_def update_where_def approve_row_def Let_def)

lemma approve_row_simps:
  "cr_id (approve_row env tick org i approver r) = cr_id r"
  "cr_organizationId (approve_row env tick org i approver r) = cr_organizationId r"
  "cr_version (approve_row env tick org i approver r) = cr_version r"
  "active_in org (approve_row env tick org i approver r) \<longleftrightarrow> this_constitution org i r"
  "cr_organizationId r \<noteq> org \<Longrightarrow> approve_row env tick org i approver r = r"
  "row_lifecycle r \<Longrightarrow> row_lifecycle (approve_row env tick org i approver r)"
  "this_constitution org' i' (approve_row env tick org i approver r) = this_constitution org' i' r"
  by (auto simp: approve_row_def Let_def supersede_def mark_approved_def this_constitution_def active_in_def row_lifecycle_def)

lemma approve_other_org:
  assumes "org' \<noteq> org"
  shows "filter (active_in org') (map (approve_row env tick org i approver) rows) = filter (active_in org') rows"
proof (induction rows)
  case (Cons r rows)
  have "cr_organizationId r \<noteq> org \<Longrightarrow> approve_row env tick org i approver r = r" by (rule approve_row_simps)
  with assms Cons show ?case by (cases "cr_organizationId r = org") (auto simp: active_in_def approve_row_simps)
qed simp

lemma approve_own_org:
  "filter (active_in org) (map (approve_row env tick org i approver) rows)
     = map (approve_row env tick org i approver) (filter (this_constitution org i) rows)"
  by (simp add: filter_map comp_def approve_row_simps)

lemma this_unique:
  "store_ok s \<Longrightarrow> length (filter (this_constitution org i) (cs_constitutions s)) \<le> 1"
  by (rule unique_key_filter [of cr_id _ _ i]) (simp_all add: store_ok_def constitution_constraints_def this_constitution_def)

lemma approve_inv:
  assumes "constitution_inv s" and "store_ok (approved_store env tick org i approver s)"
  shows "constitution_inv (approved_store env tick org i approver s)"
proof -
  let ?s = "approved_store env tick org i approver s"
  have active: "length (filter (active_in org') (cs_constitutions ?s)) \<le> 1" for org'
    using this_unique [OF constitution_invD(1) [OF assms(1)], of org i] constitution_invD(2) [OF assms(1), of org']
    by (cases "org' = org") (simp_all add: approved_store_simps approve_own_org approve_other_org)
  have "map cr_version (of_org org' ?s) = map cr_version (of_org org' s)" for org'
    by (simp add: of_org_def approved_store_simps filter_map comp_def approve_row_simps)
  moreover from this have "length (of_org org' ?s) = length (of_org org' s)" for org'
    by (metis length_map)
  ultimately have versions: "map cr_version (of_org org' ?s) = [1..int (length (of_org org' ?s))]" for org'
    using constitution_invD(3) [OF assms(1), of org'] by simp
  have "list_all row_lifecycle (cs_constitutions ?s)"
    using constitution_invD(4) [OF assms(1)] by (auto simp: approved_store_simps list_all_iff intro: approve_row_simps)
  with active versions assms(2) show ?thesis by (simp add: constitution_inv_def)
qed

lemma accounts_inv: "constitution_inv s \<Longrightarrow> store_ok (s\<lparr>cs_orgs := orgs, cs_users := users\<rparr>) \<Longrightarrow>
    constitution_inv (s\<lparr>cs_orgs := orgs, cs_users := users\<rparr>)"
  by (simp add: constitution_inv_def of_org_def)

lemma proposing_inv:
  assumes "constitution_inv s" and "propose env tick org proposer rules title s = (r, s')"
  shows "constitution_inv s'"
proof (cases r)
  case (Inl e)
  with wp_Inl [OF propose_wp] assms show ?thesis by blast
next
  case (Inr made)
  with wp_Inr [OF propose_wp] assms(2)
  have "made = proposal_made env tick org proposer rules title s" "store_ok s'"
    "s' = insert_rules (snd made) (insert_constitution (fst made) s)" by blast+
  with propose_inv [OF assms(1)] show ?thesis by (simp add: proposal_made_def Let_def)
qed

lemma approving_inv:
  assumes "constitution_inv s" and "approve env tick org i approver kind s = (r, s')"
  shows "constitution_inv s'"
proof (cases r)
  case (Inl e)
  with wp_Inl [OF approve_wp] assms show ?thesis by blast
next
  case (Inr result)
  from wp_Inr [OF approve_wp assms(2) [unfolded Inr]] assms(1) approve_inv show ?thesis by blast
qed

lemma reach_inv: "constitution_reach s \<Longrightarrow> constitution_inv s"
proof (induction rule: constitution_reach.induct)
  case initially
  show ?case
    by (simp add: constitution_inv_def store_ok_def constitution_constraints_def unique_on_def refers_def
        List.map_filter_def of_org_def)
next
  case (accounts s orgs users)
  then show ?case by (blast intro: accounts_inv)
next
  case (proposing s env tick org proposer rules title r s')
  then show ?case by (blast intro: proposing_inv)
next
  case (approving s env tick org i approver kind r' s')
  then show ?case by (blast intro: approving_inv)
qed

section \<open>The active constitution of a reachable state\<close>

lemma find_first: "find P xs = first_of (filter P xs)"
  by (induction xs) (simp_all add: first_of_def)

lemma active_row_single:
  "filter (active_in org) (cs_constitutions s) = [row] \<Longrightarrow> active_row org s = Some row"
  by (simp add: active_row_def first_of_def)

lemma active_row_in:
  assumes "constitution_inv s"
  shows "active_row org s = Some row \<longleftrightarrow> row \<in> set (cs_constitutions s) \<and> active_in org row"
proof -
  have "length (filter (active_in org) (cs_constitutions s)) \<le> 1" by (rule constitution_invD [OF assms])
  then consider "filter (active_in org) (cs_constitutions s) = []"
    | r where "filter (active_in org) (cs_constitutions s) = [r]"
    by (cases "filter (active_in org) (cs_constitutions s)") auto
  then show ?thesis
  proof cases
    case 1
    then show ?thesis by (auto simp: active_row_def first_of_def filter_empty_conv)
  next
    case (2 r)
    then have "set (filter (active_in org) (cs_constitutions s)) = {r}" by simp
    then have "{x \<in> set (cs_constitutions s). active_in org x} = {r}" by simp
    with active_row_single [OF 2] show ?thesis by auto
  qed
qed

section \<open>Interleaved approvals\<close>

text \<open>
  Two approvals as the database runs them (read committed, the default of Postgres): every statement sees
  the committed rows and the transaction's own writes, waits for a row another transaction has written, and
  a commit makes the writes visible. \<open>ax_step\<close> counts the statements: select, supersede, mark, commit, done.
\<close>

record approval_tx =
  ax_org :: ident
  ax_constitution :: ident
  ax_approver :: ident
  ax_step :: nat
  ax_writes :: "(ident \<times> constitution_row) list"

definition tx_view :: "approval_tx \<Rightarrow> constitution_row list \<Rightarrow> constitution_row list" where
  "tx_view t rows = map (\<lambda>r. coalesce (map_of (ax_writes t) (cr_id r)) r) rows"

definition tx_update ::
    "(constitution_row \<Rightarrow> bool) \<Rightarrow> (constitution_row \<Rightarrow> constitution_row) \<Rightarrow> approval_tx list \<Rightarrow> approval_tx \<Rightarrow>
     constitution_row list \<Rightarrow> approval_tx option" where
  "tx_update p f others t rows =
     (let targets = filter p (tx_view t rows) in
      if list_ex (\<lambda>r. list_ex (\<lambda>u. cr_id r \<in> set (map fst (ax_writes u))) others) targets then None
      else Some (t\<lparr>ax_writes := map (\<lambda>r. (cr_id r, f r)) targets @ ax_writes t, ax_step := Suc (ax_step t)\<rparr>))"

definition tx_step ::
    "env \<Rightarrow> nat \<Rightarrow> approval_tx list \<Rightarrow> approval_tx \<Rightarrow> constitution_row list \<Rightarrow> (approval_tx \<times> constitution_row list) option" where
  "tx_step env tick others t rows =
     (if ax_step t = 0
      then Some (t\<lparr>ax_step := (if candidate (ax_org t) (ax_constitution t) (tx_view t rows) = None then 4 else 1)\<rparr>, rows)
      else if ax_step t = 1
      then map_option (\<lambda>t'. (t', rows)) (tx_update (active_in (ax_org t)) (supersede (clock_at env tick)) others t rows)
      else if ax_step t = 2
      then map_option (\<lambda>t'. (t', rows))
        (tx_update (this_constitution (ax_org t) (ax_constitution t))
          (mark_approved (ax_approver t) (clock_at env (tick + 1)) (clock_at env (tick + 2))) others t rows)
      else if ax_step t = 3 then Some (t\<lparr>ax_step := 4, ax_writes := []\<rparr>, tx_view t rows)
      else None)"

text \<open>A schedule names the transaction whose next statement runs.\<close>

fun run_schedule ::
    "env \<Rightarrow> nat \<Rightarrow> nat list \<Rightarrow> approval_tx list \<Rightarrow> constitution_row list \<Rightarrow> (approval_tx list \<times> constitution_row list) option" where
  "run_schedule env tick [] txs rows = Some (txs, rows)"
| "run_schedule env tick (n # ns) txs rows =
     (if length txs \<le> n then None
      else (case tx_step env tick (take n txs @ drop (Suc n) txs) (txs ! n) rows of
              None \<Rightarrow> None
            | Some (t, rows') \<Rightarrow> run_schedule env tick ns (txs[n := t]) rows'))"

definition approval_of :: "ident \<Rightarrow> ident \<Rightarrow> ident \<Rightarrow> approval_tx" where
  "approval_of org i approver =
     \<lparr>ax_org = org, ax_constitution = i, ax_approver = approver, ax_step = 0, ax_writes = []\<rparr>"

text \<open>A transaction that runs alone does what \<open>approve\<close> does.\<close>

lemma unique_on_distinct: "unique_on (Some \<circ> f) rows \<longleftrightarrow> distinct (map f rows)"
proof -
  have "List.map_filter (Some \<circ> f) rows = map f rows" by (induction rows) simp_all
  then show ?thesis by (simp add: unique_on_def)
qed

lemma map_of_updates:
  "distinct (map g rows) \<Longrightarrow> r \<in> set rows \<Longrightarrow>
     map_of (map (\<lambda>r. (g r, f r)) (filter p rows)) (g r) = (if p r then Some (f r) else None)"
  by (induction rows) (auto simp: map_of_eq_None_iff image_iff)

lemma tx_update_view:
  assumes "distinct (map cr_id rows)" and "map cr_id (tx_view t rows) = map cr_id rows"
    and "tx_update p f others t rows = Some t'" and "\<And>r. cr_id (f r) = cr_id r"
  shows "tx_view t' rows = update_where p f (tx_view t rows)" "map cr_id (tx_view t' rows) = map cr_id rows"
    "ax_step t' = Suc (ax_step t)" "ax_org t' = ax_org t" "ax_constitution t' = ax_constitution t" "ax_approver t' = ax_approver t"
proof -
  let ?look = "\<lambda>t r. coalesce (map_of (ax_writes t) (cr_id r)) r"
  let ?new = "map (\<lambda>r. (cr_id r, f r)) (filter p (tx_view t rows))"
  have t': "t' = t\<lparr>ax_writes := ?new @ ax_writes t, ax_step := Suc (ax_step t)\<rparr>"
    using assms(3) by (simp add: tx_update_def Let_def split: if_splits)
  have ids: "cr_id (?look t r) = cr_id r" if "r \<in> set rows" for r
    using assms(2) that by (simp add: tx_view_def)
  have "?look t' r = (if p (?look t r) then f (?look t r) else ?look t r)" if "r \<in> set rows" for r
  proof -
    have "distinct (map cr_id (tx_view t rows))" "?look t r \<in> set (tx_view t rows)"
      using assms(1) that by (simp only: assms(2), simp add: tx_view_def)
    from map_of_updates [OF this, of f p] ids [OF that]
    have "map_of ?new (cr_id r) = (if p (?look t r) then Some (f (?look t r)) else None)" by simp
    then show ?thesis by (simp add: t' map_add_Some_iff map_add_def split: option.split)
  qed
  then show view: "tx_view t' rows = update_where p f (tx_view t rows)"
    by (simp add: tx_view_def update_where_def)
  show "map cr_id (tx_view t' rows) = map cr_id rows"
    using assms(2,4) by (simp add: view update_where_def if_distrib comp_def cong: if_cong)
  show "ax_step t' = Suc (ax_step t)" "ax_org t' = ax_org t" "ax_constitution t' = ax_constitution t"
    "ax_approver t' = ax_approver t" by (simp_all add: t')
qed

lemma tx_update_alone: "\<exists>t'. tx_update p f [] t rows = Some t'"
  by (simp add: tx_update_def Let_def list_ex_iff)

lemma approval_alone:
  assumes "distinct (map cr_id rows)" and "candidate org i rows \<noteq> None"
  shows "\<exists>t. run_schedule env tick [0, 0, 0, 0] [approval_of org i approver] rows
      = Some ([t], map (approve_row env tick org i approver) rows)"
proof -
  let ?t0 = "approval_of org i approver\<lparr>ax_step := 1\<rparr>"
  have view0: "tx_view ?t0 rows = rows" "tx_view (approval_of org i approver) rows = rows"
    by (simp_all add: tx_view_def approval_of_def)
  obtain t1 where t1: "tx_update (active_in org) (supersede (clock_at env tick)) [] ?t0 rows = Some t1"
    using tx_update_alone by blast
  note v1 = tx_update_view [OF assms(1) _ t1, unfolded view0, OF refl]
  have v1: "tx_view t1 rows = update_where (active_in org) (supersede (clock_at env tick)) rows"
    "map cr_id (tx_view t1 rows) = map cr_id rows" "ax_step t1 = 2" "ax_org t1 = org" "ax_constitution t1 = i" "ax_approver t1 = approver"
    using v1 by (simp_all add: supersede_def approval_of_def)
  let ?mark = "mark_approved approver (clock_at env (tick + 1)) (clock_at env (tick + 2))"
  obtain t2 where t2: "tx_update (this_constitution org i) ?mark [] t1 rows = Some t2"
    using tx_update_alone by blast
  have v2: "tx_view t2 rows = update_where (this_constitution org i) ?mark (tx_view t1 rows)" "ax_step t2 = 3"
    using tx_update_view [OF assms(1) v1(2) t2] v1(3) by (simp_all add: mark_approved_def)
  have "tx_view t2 rows = map (approve_row env tick org i approver) rows"
    by (auto simp: v2 v1(1) update_where_def approve_row_def Let_def)
  with t1 t2 v1 v2 assms(2) show ?thesis
    by (simp add: tx_step_def view0 [unfolded approval_of_def, simplified] approval_of_def)
qed

text \<open>Two approvals whose first two statements run before either marks its constitution.\<close>

lemma candidate_row: "candidate org i rows \<noteq> None \<longleftrightarrow>
    (\<exists>r \<in> set rows. this_constitution org i r \<and> cr_status r = Proposed)"
  by (auto simp: candidate_def find_None_conv this_constitution_def)

lemma update_where_none: "filter p rows = [] \<Longrightarrow> update_where p f rows = rows"
  by (induction rows) (auto simp: update_where_def split: if_splits)

lemma mark_written:
  assumes "distinct (map cr_id rows)" and "this_constitution org i r" and "r \<in> set rows"
    and "list_all (\<lambda>u. ax_writes u = []) others" and "ax_writes t = []"
  shows "\<exists>t'. tx_update (this_constitution org i) (mark_approved a at1 at2) others t rows = Some t'
    \<and> tx_view t' rows = update_where (this_constitution org i) (mark_approved a at1 at2) rows \<and> ax_step t' = Suc (ax_step t)"
proof -
  have view: "tx_view t rows = rows" by (simp add: tx_view_def assms(5))
  have "\<exists>t'. tx_update (this_constitution org i) (mark_approved a at1 at2) others t rows = Some t'"
    using assms(4) by (auto simp: tx_update_def Let_def list_ex_iff list_all_iff)
  then obtain t' where t': "tx_update (this_constitution org i) (mark_approved a at1 at2) others t rows = Some t'" by blast
  from tx_update_view [OF assms(1) _ this] t' show ?thesis by (simp add: view mark_approved_def)
qed

lemma idle_supersede:
  assumes "filter (active_in org) rows = []" and "ax_writes t = []"
  shows "tx_update (active_in org) f others t rows = Some (t\<lparr>ax_step := Suc (ax_step t)\<rparr>)"
  using assms by (simp add: tx_update_def tx_view_def)

lemma interleaved_marks:
  assumes "distinct (map cr_id rows)" and "candidate org i rows \<noteq> None" and "candidate org j rows \<noteq> None"
    and "filter (active_in org) rows = []"
  shows "\<exists>txs. run_schedule env tick [0, 0, 1, 1, 0, 0, 1, 1] [approval_of org i a, approval_of org j b] rows = Some (txs,
    update_where (this_constitution org j) (mark_approved b (clock_at env (tick + 1)) (clock_at env (tick + 2)))
      (update_where (this_constitution org i) (mark_approved a (clock_at env (tick + 1)) (clock_at env (tick + 2))) rows))"
proof -
  let ?mark = "\<lambda>a. mark_approved a (clock_at env (tick + 1)) (clock_at env (tick + 2))"
  let ?t = "\<lambda>i a n. approval_of org i a\<lparr>ax_step := n\<rparr>"
  let ?rows1 = "update_where (this_constitution org i) (?mark a) rows"
  obtain ri rj where ri: "ri \<in> set rows" "this_constitution org i ri" and rj: "rj \<in> set rows" "this_constitution org j rj"
    using assms(2,3) unfolding candidate_row by blast
  have view: "tx_view (?t i a 0) rows = rows" "tx_view (?t j b 0) rows = rows"
    by (simp_all add: tx_view_def approval_of_def)
  from mark_written [OF assms(1) ri(2,1), of "[?t j b (Suc (Suc 0))]" "?t i a (Suc (Suc 0))" a]
  obtain t1 where t1: "tx_update (this_constitution org i) (?mark a) [?t j b (Suc (Suc 0))] (?t i a (Suc (Suc 0))) rows = Some t1"
    "tx_view t1 rows = ?rows1" "ax_step t1 = 3"
    by (auto simp: approval_of_def eval_nat_numeral)
  have d1: "distinct (map cr_id ?rows1)"
    using assms(1) by (simp add: update_where_def mark_approved_def if_distrib comp_def cong: if_cong)
  have "(if this_constitution org i rj then ?mark a rj else rj) \<in> set ?rows1" "this_constitution org j (if this_constitution org i rj then ?mark a rj else rj)"
    using rj by (auto simp: update_where_def mark_approved_def this_constitution_def)
  from mark_written [OF d1 this(2,1), of "[t1\<lparr>ax_step := 4, ax_writes := []\<rparr>]" "?t j b (Suc (Suc 0))" b]
  obtain t2 where t2: "tx_update (this_constitution org j) (?mark b) [t1\<lparr>ax_step := 4, ax_writes := []\<rparr>] (?t j b (Suc (Suc 0))) ?rows1 = Some t2"
    "tx_view t2 ?rows1 = update_where (this_constitution org j) (?mark b) ?rows1" "ax_step t2 = 3"
    by (auto simp: approval_of_def eval_nat_numeral)
  show ?thesis
    using assms(2,3,4) t1 t2 view
    by (simp add: tx_step_def idle_supersede approval_of_def)
qed

section \<open>Properties\<close>

text \<open>
  C36: In every state the operations reach, an organization has at most one approved constitution, its
  versions are numbered from one without gaps, an approved constitution names its approver, and the active
  constitution is exactly the approved one, with its rules.
\<close>

theorem one_active_constitution:
  assumes "constitution_reach s"
  shows "length (filter (active_in org) (cs_constitutions s)) \<le> 1
    \<and> map cr_version (of_org org s) = [1..int (length (of_org org s))]
    \<and> (\<forall>r \<in> set (cs_constitutions s). cr_status r = Approved \<longrightarrow> cr_approvedByUserId r \<noteq> None \<and> cr_approvedAt r \<noteq> None)
    \<and> (\<forall>row rules. getActive org s = (Inr (Some (row, rules)), s) \<longleftrightarrow>
         row \<in> set (cs_constitutions s) \<and> active_in org row \<and> rules = rules_of org (cr_id row) s)"
proof -
  note inv = reach_inv [OF assms]
  have "\<forall>r \<in> set (cs_constitutions s). cr_status r = Approved \<longrightarrow> cr_approvedByUserId r \<noteq> None \<and> cr_approvedAt r \<noteq> None"
    using constitution_invD(4) [OF inv] by (fastforce simp: list_all_iff row_lifecycle_def)
  moreover have "getActive org s = (Inr (Some (row, rules)), s) \<longleftrightarrow>
      row \<in> set (cs_constitutions s) \<and> active_in org row \<and> rules = rules_of org (cr_id row) s" for row rules
    using active_row_in [OF inv, of org row] by (auto simp: getActive_def gets_def)
  ultimately show ?thesis using constitution_invD(2,3) [OF inv] by blast
qed

text \<open>
  Only a human approves, and an approval takes effect at once. What an approval returns is then the
  active constitution of the organization, approved by that user; no rule and no other organization's
  active constitution changes. Every other outcome, an exception or no proposal to approve, changes nothing.
\<close>

theorem approve_activates:
  assumes "constitution_reach s"
  shows "case approve env tick org i approver kind s of
      (Inl e, s') \<Rightarrow> s' = s \<and> (\<exists>c. e = DbError c)
    | (Inr None, s') \<Rightarrow> s' = s \<and> (kind \<noteq> ByHuman \<or> candidate org i (cs_constitutions s) = None)
    | (Inr (Some (row, rules)), s') \<Rightarrow> kind = ByHuman \<and> cr_id row = i \<and> cr_approvedByUserId row = Some approver
        \<and> getActive org s' = (Inr (Some (row, rules)), s') \<and> cs_rules s' = cs_rules s
        \<and> (\<forall>org'. org' \<noteq> org \<longrightarrow> fst (getActive org' s') = fst (getActive org' s))"
proof -
  obtain r s' where run: "approve env tick org i approver kind s = (r, s')" by fastforce
  show ?thesis
  proof (cases r)
    case (Inl e)
    with wp_Inl [OF approve_wp] run show ?thesis by fastforce
  next
    case (Inr result)
    from wp_Inr [OF approve_wp run [unfolded Inr]] consider
        (none) "result = None" "s' = s" "kind \<noteq> ByHuman \<or> candidate org i (cs_constitutions s) = None"
      | (took) c where "kind = ByHuman" "candidate org i (cs_constitutions s) = Some c"
          "s' = approved_store env tick org i approver s"
          "result = map_option (\<lambda>row. (row, rules_of org i s')) (find (this_constitution org i) (cs_constitutions s'))"
      by blast
    then show ?thesis
    proof cases
      case none
      with run Inr show ?thesis by auto
    next
      case took
      let ?step = "approve_row env tick org i approver"
      have c: "c \<in> set (cs_constitutions s)" "this_constitution org i c"
        using took(2) by (auto simp: candidate_def this_constitution_def dest: find_SomeD)
      have "c \<in> set (filter (this_constitution org i) (cs_constitutions s))" using c by simp
      moreover have "length (filter (this_constitution org i) (cs_constitutions s)) \<le> 1"
        by (rule this_unique [OF constitution_invD(1) [OF reach_inv [OF assms]]])
      ultimately have only: "filter (this_constitution org i) (cs_constitutions s) = [c]"
        by (cases "filter (this_constitution org i) (cs_constitutions s)") auto
      then have active: "filter (active_in org) (cs_constitutions s') = [?step c]"
        by (simp add: took(3) approved_store_simps approve_own_org)
      have "filter (this_constitution org i) (cs_constitutions s') = [?step c]"
        using only by (simp add: took(3) approved_store_simps filter_map comp_def approve_row_simps)
      then have found: "find (this_constitution org i) (cs_constitutions s') = Some (?step c)"
        by (simp add: find_first)
      have row: "cr_id (?step c) = i" "cr_approvedByUserId (?step c) = Some approver"
        using c(2) by (auto simp: approve_row_def Let_def this_constitution_def mark_approved_def supersede_def)
      have others: "fst (getActive org' s') = fst (getActive org' s)" if "org' \<noteq> org" for org'
        using approve_other_org [OF that]
        by (simp add: getActive_def gets_def active_row_def rules_of_def took(3) approved_store_simps)
      have "getActive org s' = (Inr (Some (?step c, rules_of org i s')), s')"
        by (simp add: getActive_def gets_def active_row_single [OF active] row)
      with run Inr found row others took(1,3,4) show ?thesis by (simp add: approved_store_simps)
    qed
  qed
qed

text \<open>
  C37: Approvals are only safe one at a time. Run one after the other, two approvals leave the second
  constitution alone approved; interleaved as the database allows, with both looking for the approved one
  before either is marked, they leave two approved constitutions in one organization.
\<close>

theorem concurrent_approvals:
  assumes "distinct (map cr_id rows)" and "candidate org i rows \<noteq> None" and "candidate org j rows \<noteq> None"
    and "i \<noteq> j" and "filter (active_in org) rows = []"
  shows "(\<exists>t u rows' rows''. run_schedule env tick [0, 0, 0, 0] [approval_of org i a] rows = Some (t, rows')
      \<and> run_schedule env tick [0, 0, 0, 0] [approval_of org j b] rows' = Some (u, rows'')
      \<and> map cr_id (filter (active_in org) rows'') = [j])
    \<and> (\<exists>txs rows'. run_schedule env tick [0, 0, 1, 1, 0, 0, 1, 1] [approval_of org i a, approval_of org j b] rows
          = Some (txs, rows')
        \<and> {i, j} \<subseteq> cr_id ` set (filter (active_in org) rows'))"
proof
  let ?r1 = "map (approve_row env tick org i a) rows"
  let ?r2 = "map (approve_row env tick org j b) ?r1"
  obtain rj where rj: "rj \<in> set rows" "this_constitution org j rj" "cr_status rj = Proposed"
    using assms(3) unfolding candidate_row by blast
  have d1: "distinct (map cr_id ?r1)"
    using assms(1) by (simp add: comp_def approve_row_simps)
  have "approve_row env tick org i a rj = rj"
    using rj assms(4) by (auto simp: approve_row_def Let_def active_in_def this_constitution_def)
  with rj have "rj \<in> set ?r1" by force
  with rj have "candidate org j ?r1 \<noteq> None" unfolding candidate_row by blast
  from approval_alone [OF assms(1,2), of env tick a] approval_alone [OF d1 this, of env tick b]
  obtain t u where runs: "run_schedule env tick [0, 0, 0, 0] [approval_of org i a] rows = Some (t, ?r1)"
    "run_schedule env tick [0, 0, 0, 0] [approval_of org j b] ?r1 = Some (u, ?r2)" by blast
  have "length (filter (this_constitution org j) ?r1) \<le> 1"
    by (rule unique_key_filter [of cr_id _ _ j]) (use d1 in \<open>simp_all add: unique_on_distinct this_constitution_def\<close>)
  moreover have "rj \<in> set (filter (this_constitution org j) ?r1)" using \<open>rj \<in> set ?r1\<close> rj(2) by simp
  ultimately have "filter (this_constitution org j) ?r1 = [rj]"
    by (cases "filter (this_constitution org j) ?r1") auto
  moreover have "filter (active_in org) ?r2 = map (approve_row env tick org j b) (filter (this_constitution org j) ?r1)"
    by (rule approve_own_org)
  ultimately have "map cr_id (filter (active_in org) ?r2) = [j]"
    using rj(2) by (simp only: list.map approve_row_simps this_constitution_def)
  with runs show "\<exists>t u rows' rows''. run_schedule env tick [0, 0, 0, 0] [approval_of org i a] rows = Some (t, rows')
      \<and> run_schedule env tick [0, 0, 0, 0] [approval_of org j b] rows' = Some (u, rows'')
      \<and> map cr_id (filter (active_in org) rows'') = [j]" by (intro exI conjI)
next
  let ?mark = "\<lambda>a. mark_approved a (clock_at env (tick + 1)) (clock_at env (tick + 2))"
  let ?final = "update_where (this_constitution org j) (?mark b) (update_where (this_constitution org i) (?mark a) rows)"
  have mark: "k \<in> cr_id ` set (filter (active_in org) ?final)"
    if "r \<in> set rows" "this_constitution org k r" "k = i \<or> k = j" for k r
  proof (rule image_eqI)
    let ?f = "\<lambda>k a r. if this_constitution org k r then ?mark a r else r"
    show "k = cr_id (?f j b (?f i a r))"
      using that(2) by (simp add: this_constitution_def mark_approved_def)
    have "active_in org (?f j b (?f i a r))"
      using that(2,3) by (auto simp: this_constitution_def active_in_def mark_approved_def)
    moreover have "?f j b (?f i a r) \<in> set ?final"
      unfolding update_where_def set_map by (intro imageI that(1))
    ultimately show "?f j b (?f i a r) \<in> set (filter (active_in org) ?final)"
      unfolding set_filter by blast
  qed
  have marked: "i \<in> cr_id ` set (filter (active_in org) ?final)" "j \<in> cr_id ` set (filter (active_in org) ?final)"
    using assms(2,3) mark unfolding candidate_row by blast+
  from interleaved_marks [OF assms(1-3,5), of env tick a b] marked
  show "\<exists>txs rows'. run_schedule env tick [0, 0, 1, 1, 0, 0, 1, 1] [approval_of org i a, approval_of org j b] rows
      = Some (txs, rows') \<and> {i, j} \<subseteq> cr_id ` set (filter (active_in org) rows')"
    by blast
qed

subsection \<open>Witnesses\<close>

definition sample_store :: constitution_store where
  "sample_store = \<lparr>cs_orgs = [''org''], cs_users = [(''org'', ''u1'')], cs_constitutions = [], cs_rules = []\<rparr>"

definition proposed_sample :: constitution_store where
  "proposed_sample = snd (propose numbered_env 0 ''org'' ''u1'' [] None sample_store)"

definition approved_sample :: constitution_store where
  "approved_sample = snd (approve numbered_env 5 ''org'' ''0'' ''u1'' ByHuman proposed_sample)"

definition sample_constitution :: constitution_row where
  "sample_constitution =
     \<lparr>cr_id = ''0'', cr_organizationId = ''org'', cr_version = 1, cr_status = Proposed, cr_title = ''Business Constitution'',
      cr_proposedByUserId = Some ''u1'', cr_approvedByUserId = None, cr_approvedAt = None, cr_createdAt = 0,
      cr_updatedAt = 0\<rparr>"

lemma sample_rows:
  "cs_constitutions proposed_sample = [sample_constitution]"
  "approve numbered_env 5 ''org'' ''0'' ''u1'' ByHuman proposed_sample
     = (Inr (Some (mark_approved ''u1'' 6 7 sample_constitution, [])), approved_sample)"
  "cs_constitutions approved_sample = [mark_approved ''u1'' 6 7 sample_constitution]"
  by code_simp+

lemma sample_reach: "constitution_reach proposed_sample" "constitution_reach approved_sample"
proof -
  have "store_ok sample_store" by code_simp
  with constitution_reach.accounts [OF constitution_reach.initially, where orgs = "[''org'']" and users = "[(''org'', ''u1'')]"]
  have "constitution_reach sample_store" by (simp add: sample_store_def)
  then show "constitution_reach proposed_sample"
    by (rule constitution_reach.proposing [where r = "fst (propose numbered_env 0 ''org'' ''u1'' [] None sample_store)"])
      (simp add: proposed_sample_def)
  then show "constitution_reach approved_sample"
    by (rule constitution_reach.approving) (rule sample_rows)
qed

theorem one_active_constitution_witness:
  "\<exists>rules. getActive ''org'' approved_sample = (Inr (Some (mark_approved ''u1'' 6 7 sample_constitution, rules)), approved_sample)"
  using one_active_constitution [OF sample_reach(2), of "''org''"]
  by (simp add: sample_rows active_in_def mark_approved_def sample_constitution_def)

theorem approve_activates_witness:
  "getActive ''org'' approved_sample = (Inr (Some (mark_approved ''u1'' 6 7 sample_constitution, [])), approved_sample)"
  using approve_activates [OF sample_reach(1), where env = numbered_env and tick = 5 and org = "''org''" and i = "''0''"
      and approver = "''u1''" and kind = ByHuman]
  by (simp add: sample_rows)

definition two_proposals :: "constitution_row list" where
  "two_proposals = [sample_constitution, sample_constitution\<lparr>cr_id := ''1'', cr_version := 2\<rparr>]"

theorem concurrent_approvals_witness:
  "\<exists>txs rows'. run_schedule numbered_env 0 [0, 0, 1, 1, 0, 0, 1, 1] [approval_of ''org'' ''0'' ''u1'', approval_of ''org'' ''1'' ''u1'']
     two_proposals = Some (txs, rows') \<and> {''0'', ''1''} \<subseteq> cr_id ` set (filter (active_in ''org'') rows')"
proof -
  have "candidate ''org'' ''0'' two_proposals \<noteq> None" "candidate ''org'' ''1'' two_proposals \<noteq> None"
    "filter (active_in ''org'') two_proposals = []" "distinct (map cr_id two_proposals)"
    by (simp_all add: two_proposals_def sample_constitution_def candidate_def active_in_def)
  from concurrent_approvals [OF this(4,1,2) _ this(3), of numbered_env 0 "''u1''" "''u1''"] show ?thesis by simp
qed

end
