(* ===== verification/Business_Graph.thy ===== *)
theory Business_Graph
  imports Row_Mappers
begin

text \<open>
  The business graph (\<open>packages/db/src/schema/business-graph.ts\<close> and
  \<open>apps/control-plane/src/services/drizzle-business-graph-service.ts\<close>): entities and relationships of an
  organization, under the composite foreign keys that keep every edge inside one organization.
\<close>

section \<open>Tables\<close>

record business_entity_row =
  be_id :: ident
  be_organizationId :: ident
  be_entityType :: string
  be_name :: string
  be_sourceSystem :: "string option"
  be_sourceRef :: "string option"
  be_confidence :: source_confidence
  be_validFrom :: time
  be_validUntil :: "time option"
  be_createdAt :: time
  be_updatedAt :: time

record business_relationship_row =
  br_id :: ident
  br_organizationId :: ident
  br_fromEntityId :: ident
  br_toEntityId :: ident
  br_relationshipType :: string
  br_sourceSystem :: "string option"
  br_sourceRef :: "string option"
  br_confidence :: source_confidence
  br_validFrom :: time
  br_validUntil :: "time option"
  br_createdAt :: time
  br_updatedAt :: time

record graph_store =
  gr_orgs :: "ident list"
  gr_entities :: "business_entity_row list"
  gr_relationships :: "business_relationship_row list"

definition entity_keys :: "graph_store \<Rightarrow> (ident \<times> ident) list" where
  "entity_keys g = map (\<lambda>e. (be_organizationId e, be_id e)) (gr_entities g)"

definition graph_constraints :: "(string \<times> (graph_store \<Rightarrow> bool)) list" where
  "graph_constraints =
    [(''business_entities_pkey'', \<lambda>g. unique_on (Some \<circ> be_id) (gr_entities g)),
     (''business_entities_organization_id_organizations_id_fk'',
        \<lambda>g. refers (Some \<circ> be_organizationId) (gr_entities g) (gr_orgs g)),
     (''business_relationships_pkey'', \<lambda>g. unique_on (Some \<circ> br_id) (gr_relationships g)),
     (''business_relationships_organization_id_organizations_id_fk'',
        \<lambda>g. refers (Some \<circ> br_organizationId) (gr_relationships g) (gr_orgs g)),
     (''business_relationships_from_entity_id_business_entities_id_fk'',
        \<lambda>g. refers (Some \<circ> br_fromEntityId) (gr_relationships g) (map be_id (gr_entities g))),
     (''business_relationships_to_entity_id_business_entities_id_fk'',
        \<lambda>g. refers (Some \<circ> br_toEntityId) (gr_relationships g) (map be_id (gr_entities g))),
     (''business_relationships_org_from_fk'',
        \<lambda>g. refers (\<lambda>r. Some (br_organizationId r, br_fromEntityId r)) (gr_relationships g) (entity_keys g)),
     (''business_relationships_org_to_fk'',
        \<lambda>g. refers (\<lambda>r. Some (br_organizationId r, br_toEntityId r)) (gr_relationships g) (entity_keys g))]"

definition graph_ok :: "graph_store \<Rightarrow> bool" where
  "graph_ok g = (\<forall>c \<in> set graph_constraints. snd c g)"

definition graph_statement :: "(graph_store \<Rightarrow> graph_store) \<Rightarrow> (graph_store, exn, unit) act" where
  "graph_statement f = statement_under graph_constraints f"

lemma wp_graph_statement:
  "(graph_ok (f g) \<Longrightarrow> Q () (f g)) \<Longrightarrow> (\<And>c. \<not> graph_ok (f g) \<Longrightarrow> E (DbError c) g) \<Longrightarrow> wp (graph_statement f) Q E g"
  by (simp add: graph_statement_def wp_statement_under graph_ok_def)

section \<open>The service\<close>

record create_business_entity_input =
  bi_entityType :: string
  bi_name :: string
  bi_sourceSystem :: "string option"
  bi_sourceRef :: "string option"
  bi_confidence :: "source_confidence option"

record create_business_relationship_input =
  bl_fromEntityId :: ident
  bl_toEntityId :: ident
  bl_relationshipType :: string
  bl_sourceSystem :: "string option"
  bl_sourceRef :: "string option"
  bl_confidence :: "source_confidence option"

definition entity_row :: "env \<Rightarrow> nat \<Rightarrow> ident \<Rightarrow> create_business_entity_input \<Rightarrow> business_entity_row" where
  "entity_row env tick org input =
     \<lparr>be_id = fresh_id env tick, be_organizationId = org, be_entityType = bi_entityType input,
      be_name = bi_name input, be_sourceSystem = bi_sourceSystem input, be_sourceRef = bi_sourceRef input,
      be_confidence = coalesce (bi_confidence input) UNVERIFIED, be_validFrom = clock_at env tick,
      be_validUntil = None, be_createdAt = clock_at env tick, be_updatedAt = clock_at env tick\<rparr>"

definition createEntity ::
    "env \<Rightarrow> nat \<Rightarrow> ident \<Rightarrow> create_business_entity_input \<Rightarrow> (graph_store, exn, business_entity_row) act" where
  "createEntity env tick org input =
     (let row = entity_row env tick org input
      in seq_act (graph_statement (\<lambda>g. g\<lparr>gr_entities := gr_entities g @ [row]\<rparr>)) (ret row))"

definition getEntity :: "ident \<Rightarrow> ident \<Rightarrow> (graph_store, exn, business_entity_row option) act" where
  "getEntity i org = gets (\<lambda>g. find (\<lambda>e. be_id e = i \<and> be_organizationId e = org) (gr_entities g))"

definition relationship_row ::
    "env \<Rightarrow> nat \<Rightarrow> ident \<Rightarrow> create_business_relationship_input \<Rightarrow> business_relationship_row" where
  "relationship_row env tick org input =
     \<lparr>br_id = fresh_id env tick, br_organizationId = org, br_fromEntityId = bl_fromEntityId input,
      br_toEntityId = bl_toEntityId input, br_relationshipType = bl_relationshipType input,
      br_sourceSystem = bl_sourceSystem input, br_sourceRef = bl_sourceRef input,
      br_confidence = coalesce (bl_confidence input) UNVERIFIED, br_validFrom = clock_at env tick,
      br_validUntil = None, br_createdAt = clock_at env tick, br_updatedAt = clock_at env tick\<rparr>"

definition createRelationship ::
    "env \<Rightarrow> nat \<Rightarrow> ident \<Rightarrow> create_business_relationship_input \<Rightarrow> (graph_store, exn, business_relationship_row) act" where
  "createRelationship env tick org input =
     (let row = relationship_row env tick org input
      in seq_act (graph_statement (\<lambda>g. g\<lparr>gr_relationships := gr_relationships g @ [row]\<rparr>)) (ret row))"

definition listRelationships :: "ident \<Rightarrow> ident \<Rightarrow> (graph_store, exn, business_relationship_row list) act" where
  "listRelationships org entityId =
     gets (\<lambda>g. filter (\<lambda>r. br_organizationId r = org \<and> (br_fromEntityId r = entityId \<or> br_toEntityId r = entityId))
       (gr_relationships g))"

section \<open>Every edge stays inside its organization\<close>

lemma graph_edges:
  assumes "graph_ok g" and "r \<in> set (gr_relationships g)" and "k \<in> {br_fromEntityId r, br_toEntityId r}"
  shows "\<exists>e. getEntity k (br_organizationId r) g = (Inr (Some e), g)"
proof -
  have "(br_organizationId r, k) \<in> set (entity_keys g)"
    using assms refersD [of "\<lambda>r. Some (br_organizationId r, br_fromEntityId r)" "gr_relationships g" "entity_keys g" r]
      refersD [of "\<lambda>r. Some (br_organizationId r, br_toEntityId r)" "gr_relationships g" "entity_keys g" r]
    by (auto simp: graph_ok_def graph_constraints_def)
  then have "\<exists>e. find (\<lambda>e. be_id e = k \<and> be_organizationId e = br_organizationId r) (gr_entities g) = Some e"
    by (cases "find (\<lambda>e. be_id e = k \<and> be_organizationId e = br_organizationId r) (gr_entities g)")
      (auto simp: entity_keys_def find_None_conv)
  then show ?thesis by (simp add: getEntity_def gets_def)
qed

lemma createRelationship_wp:
  "wp (createRelationship env tick org input)
     (\<lambda>row g'. row = relationship_row env tick org input \<and> graph_ok g'
        \<and> g' = g\<lparr>gr_relationships := gr_relationships g @ [row]\<rparr>)
     (\<lambda>e g'. g' = g \<and> \<not> graph_ok (g\<lparr>gr_relationships := gr_relationships g @ [relationship_row env tick org input]\<rparr>)) g"
  unfolding createRelationship_def Let_def wp_seq wp_ret by (rule wp_graph_statement) auto

text \<open>
  C38: The graph never connects organizations. A relationship is created only between two entities of the
  caller's organization, and is then listed for both and for no other organization; one that names an
  entity of another organization is refused and changes nothing.
\<close>

theorem relationships_stay_inside:
  "case createRelationship env tick org input g of
     (Inl e, g') \<Rightarrow> g' = g
   | (Inr row, g') \<Rightarrow>
       (\<exists>e. getEntity (bl_fromEntityId input) org g = (Inr (Some e), g))
       \<and> (\<exists>e. getEntity (bl_toEntityId input) org g = (Inr (Some e), g))
       \<and> (\<exists>rs. listRelationships org (bl_fromEntityId input) g' = (Inr rs, g') \<and> row \<in> set rs)
       \<and> (\<exists>rs. listRelationships org (bl_toEntityId input) g' = (Inr rs, g') \<and> row \<in> set rs)
       \<and> (\<forall>org' k. org' \<noteq> org \<longrightarrow> fst (listRelationships org' k g') = fst (listRelationships org' k g))"
proof -
  obtain r g' where run: "createRelationship env tick org input g = (r, g')" by fastforce
  show ?thesis
  proof (cases r)
    case (Inl e)
    with wp_Inl [OF createRelationship_wp] run show ?thesis by fastforce
  next
    case (Inr row)
    note post = wp_Inr [OF createRelationship_wp run [unfolded Inr]]
    then have row: "row \<in> set (gr_relationships g')" "br_organizationId row = org"
      "br_fromEntityId row = bl_fromEntityId input" "br_toEntityId row = bl_toEntityId input"
      by (auto simp: relationship_row_def)
    have "\<exists>e. getEntity k org g = (Inr (Some e), g)" if "k \<in> {bl_fromEntityId input, bl_toEntityId input}" for k
      using graph_edges [of g' row k] post row that by (auto simp: getEntity_def gets_def)
    moreover have "fst (listRelationships org' k g') = fst (listRelationships org' k g)" if "org' \<noteq> org" for org' k
      using that post row(2) by (simp add: listRelationships_def gets_def)
    ultimately show ?thesis
      using run Inr row by (simp add: listRelationships_def gets_def)
  qed
qed

definition sample_entity :: "ident \<Rightarrow> ident \<Rightarrow> business_entity_row" where
  "sample_entity i org = (entity_row numbered_env 0 org
     \<lparr>bi_entityType = ''person'', bi_name = ''A'', bi_sourceSystem = None, bi_sourceRef = None, bi_confidence = None\<rparr>)
     \<lparr>be_id := i\<rparr>"

definition sample_graph :: graph_store where
  "sample_graph = \<lparr>gr_orgs = [''org'', ''org2''], gr_entities = [sample_entity ''a'' ''org'', sample_entity ''b'' ''org''],
     gr_relationships = []\<rparr>"

definition sample_edge :: create_business_relationship_input where
  "sample_edge = \<lparr>bl_fromEntityId = ''a'', bl_toEntityId = ''b'', bl_relationshipType = ''manages'', bl_sourceSystem = None,
     bl_sourceRef = None, bl_confidence = None\<rparr>"

lemma sample_edge_made: "\<exists>row g'. createRelationship numbered_env 9 ''org'' sample_edge sample_graph = (Inr row, g')"
proof -
  have "graph_ok (sample_graph\<lparr>gr_relationships := [relationship_row numbered_env 9 ''org'' sample_edge]\<rparr>)" by code_simp
  then have "graph_ok (sample_graph\<lparr>gr_relationships :=
      gr_relationships sample_graph @ [relationship_row numbered_env 9 ''org'' sample_edge]\<rparr>)"
    by (simp add: sample_graph_def)
  with createRelationship_wp [of numbered_env 9 "''org''" sample_edge sample_graph] show ?thesis
    by (cases "fst (createRelationship numbered_env 9 ''org'' sample_edge sample_graph)")
      (auto simp: wp_def split: prod.splits)
qed

theorem relationships_stay_inside_witness:
  "\<exists>row g'. createRelationship numbered_env 9 ''org'' sample_edge sample_graph = (Inr row, g')
     \<and> (\<exists>rs. listRelationships ''org'' ''a'' g' = (Inr rs, g') \<and> row \<in> set rs)
     \<and> fst (listRelationships ''org2'' ''a'' g') = fst (listRelationships ''org2'' ''a'' sample_graph)"
proof -
  obtain row g' where "createRelationship numbered_env 9 ''org'' sample_edge sample_graph = (Inr row, g')"
    using sample_edge_made by blast
  with relationships_stay_inside [where env = numbered_env and tick = 9 and org = "''org''" and input = sample_edge
      and g = sample_graph] show ?thesis
    by (auto simp: sample_edge_def)
qed

end
