(* ===== verification/Adapters.thy ===== *)
theory Adapters
  imports Orchestrator Effects
begin

text \<open>
  The capability adapters (\<open>packages/adapters\<close>: capability-fn/src/function-adapter.ts,
  http/src/http-adapter.ts, ghl/src/ghl-adapter.ts) and the catalog the worker builds of them
  (\<open>apps/worker/src/capabilities.ts\<close>). Handlers, the network, URLs, JSON and the clock are parameters; an
  adapter keeps its last usage in the world, under its id. The locale \<open>metered\<close> is what every adapter keeps
  of the contract of \<open>reportUsage\<close>.
\<close>

section \<open>Errors and the world\<close>

record http_response =
  hs_status :: int
  hs_ok :: bool
  hs_headers :: "(string \<times> string) list"
  hs_body :: js

text \<open>
  What an adapter throws: its own error classes, those of the two model libraries by their class and
  status, and anything else (a failed transport, a type error, an error of a handler).
\<close>

datatype anthropic_error =
    RateLimitError | AuthenticationError | PermissionDeniedError | BadRequestError | NotFoundError
  | UnprocessableEntityError | InternalServerError | APIConnectionError | OtherAPIError "int option"

datatype adapter_error =
    HttpRequestError http_response
  | HttpInvalidTargetError string
  | GhlConfigError string
  | AnthropicError anthropic_error
  | OpenAiError "int option"
  | TypeError string
  | TransportError string
  | HandlerError string

record 'x adapter_world =
  aw_outside :: 'x
  aw_usage :: "(string \<times> adapter_usage) list"

definition outside :: "('x, adapter_error, 'a) act \<Rightarrow> ('x adapter_world, adapter_error, 'a) act" where
  "outside m s = (case m (aw_outside s) of (r, x) \<Rightarrow> (r, s\<lparr>aw_outside := x\<rparr>))"

definition set_usage :: "string \<Rightarrow> adapter_usage \<Rightarrow> ('x adapter_world, adapter_error, unit) act" where
  "set_usage i u = modify (\<lambda>s. s\<lparr>aw_usage := map_set i u (aw_usage s)\<rparr>)"

definition last_usage :: "string \<Rightarrow> ('x adapter_world, adapter_error, adapter_usage option) act" where
  "last_usage i = gets (\<lambda>s. map_of (aw_usage s) i)"

section \<open>What reportUsage promises\<close>

locale metered =
  fixes execute :: "'i \<Rightarrow> execution_context \<Rightarrow> ('x adapter_world, adapter_error, 'r) act"
    and reportUsage :: "('x adapter_world, adapter_error, adapter_usage option) act"
    and cost :: "'r \<Rightarrow> number"
  assumes report_reads: "\<exists>u. reportUsage s = (Inr u, s)"
    and execute_reports: "execute input ctx s = (Inr r, s') \<Longrightarrow> \<exists>u. fst (reportUsage s') = Inr (Some u) \<and> us_costUsd u = cost r"
begin

text \<open>What the orchestrator records after an execution is that execution's cost.\<close>

lemma execute_then_report:
  "bind_act (execute input ctx) (\<lambda>r. bind_act reportUsage (\<lambda>u. ret (r, u))) s = (Inr (r, u), s') \<Longrightarrow>
     \<exists>v. u = Some v \<and> us_costUsd v = cost r"
proof -
  assume run: "bind_act (execute input ctx) (\<lambda>r. bind_act reportUsage (\<lambda>u. ret (r, u))) s = (Inr (r, u), s')"
  then obtain t where t: "execute input ctx s = (Inr r, t)" "fst (reportUsage t) = Inr u"
    using report_reads by (auto simp: bind_act_def ret_def split: prod.splits sum.splits)
  with execute_reports [OF t(1)] show ?thesis by auto
qed

end

lemma last_usage_reads: "\<exists>u. last_usage i s = (Inr u, s)"
  by (simp add: last_usage_def gets_def)

section \<open>Deterministic functions (function-adapter.ts)\<close>

record 'x function_options =
  fo_id :: string
  fo_name :: "string option"
  fo_version :: "string option"
  fo_provides :: "string list"
  fo_handler :: "js \<Rightarrow> execution_context \<Rightarrow> ('x, adapter_error, js) act"
  fo_estimateUsd :: "number option"

text \<open>\<open>Date.now()\<close> reads the clock of the outside world.\<close>

definition function_execute ::
    "('x \<Rightarrow> number) \<Rightarrow> 'x function_options \<Rightarrow> js \<Rightarrow> execution_context \<Rightarrow> ('x adapter_world, adapter_error, js) act" where
  "function_execute now opts input ctx =
     bind_act (gets (\<lambda>s. now (aw_outside s))) (\<lambda>startedAt.
     bind_act (outside (fo_handler opts input ctx)) (\<lambda>result.
     bind_act (gets (\<lambda>s. now (aw_outside s))) (\<lambda>t.
     seq_act (set_usage (fo_id opts)
       \<lparr>us_costUsd = coalesce (fo_estimateUsd opts) 0, us_latencyMs = t - startedAt, us_details = None\<rparr>)
     (ret result))))"

definition function_classifyError :: "adapter_error \<Rightarrow> error_class" where
  "function_classifyError error = ErrDeterministic"

definition function_adapter :: "('x \<Rightarrow> number) \<Rightarrow> 'x function_options \<Rightarrow> ('x adapter_world, adapter_error) capability_adapter" where
  "function_adapter now opts =
     \<lparr>cad_id = fo_id opts, cad_name = coalesce (fo_name opts) (fo_id opts),
      cad_version = coalesce (fo_version opts) ''1'', cad_capabilities = fo_provides opts,
      cad_estimate = (\<lambda>_ _. ret \<lparr>es_costUsd = coalesce (fo_estimateUsd opts) 0, es_latencyMs = 0, es_confidence = 1\<rparr>),
      cad_execute = function_execute now opts,
      cad_reportUsage = last_usage (fo_id opts),
      cad_classifyError = function_classifyError\<rparr>"

interpretation function_metered: metered "function_execute now opts" "last_usage (fo_id opts)"
    "\<lambda>_. coalesce (fo_estimateUsd opts) 0"
  for now :: "'x \<Rightarrow> number" and opts :: "'x function_options"
  by unfold_locales
    (auto simp: last_usage_reads function_execute_def bind_act_def seq_act_def set_usage_def modify_def ret_def
      last_usage_def gets_def split: prod.splits sum.splits)

section \<open>HTTP (http-adapter.ts)\<close>

record http_request =
  hq_path :: string
  hq_method :: "string option"
  hq_query :: "(string \<times> js) list option"
  hq_headers :: "(string \<times> string) list option"
  hq_body :: js

record fetch_init =
  fi_method :: string
  fi_headers :: "(string \<times> string) list"
  fi_body :: "string option"

text \<open>The header names of a response are lower case, as \<open>Headers\<close> keeps them; reading the text may fail.\<close>

record fetch_response =
  fr_status :: int
  fr_ok :: bool
  fr_headers :: "(string \<times> string) list"
  fr_text :: "adapter_error + string"

text \<open>
  What the platform gives: \<open>new URL(path, base)\<close>, \<open>origin\<close>, \<open>searchParams.set\<close> and \<open>toString\<close> of URLs, \<open>fetch\<close>
  (which throws when the timeout or the caller aborts it), \<open>JSON\<close>, \<open>String(v)\<close> and the clock.
\<close>

record ('u, 'x) platform =
  pf_url :: "string \<Rightarrow> string option \<Rightarrow> adapter_error + 'u"
  pf_origin :: "'u \<Rightarrow> string"
  pf_setParam :: "string \<Rightarrow> string \<Rightarrow> 'u \<Rightarrow> 'u"
  pf_href :: "'u \<Rightarrow> string"
  pf_fetch :: "string \<Rightarrow> fetch_init \<Rightarrow> ('x, adapter_error, fetch_response) act"
  pf_stringify :: "js \<Rightarrow> string"
  pf_parse :: "string \<Rightarrow> js option"
  pf_text :: "js \<Rightarrow> string"
  pf_now :: "'x \<Rightarrow> number"

record http_capability_options =
  hc_id :: string
  hc_name :: "string option"
  hc_version :: "string option"
  hc_provides :: "string list"
  hc_baseUrl :: string
  hc_defaultHeaders :: "(string \<times> string) list option"
  hc_estimateUsd :: "number option"

text \<open>An adapter as constructed; its timeout is part of \<open>fetch\<close>.\<close>

record http_adapter =
  ho_id :: string
  ho_name :: string
  ho_version :: string
  ho_provides :: "string list"
  ho_baseUrl :: string
  ho_baseOrigin :: string
  ho_defaultHeaders :: "(string \<times> string) list"
  ho_estimateUsd :: number

text \<open>\<open>{...a, ...b}\<close>\<close>

definition spread :: "(string \<times> 'v) list \<Rightarrow> (string \<times> 'v) list \<Rightarrow> (string \<times> 'v) list" where
  "spread a b = fold (\<lambda>(k, v). map_set k v) b a"

text \<open>\<open>s.includes(t)\<close>\<close>

definition text_includes :: "string \<Rightarrow> string \<Rightarrow> bool" where
  "text_includes s t = list_ex (\<lambda>n. take (length t) (drop n s) = t) [0..<Suc (length s)]"

definition resolveUrl :: "('u, 'x) platform \<Rightarrow> http_adapter \<Rightarrow> http_request \<Rightarrow> adapter_error + string" where
  "resolveUrl pf opts input =
     and_then (pf_url pf (hq_path input) (Some (ho_baseUrl opts))) (\<lambda>target.
     if pf_origin pf target \<noteq> ho_baseOrigin opts
     then Inl (HttpInvalidTargetError (''request path \"'' @ hq_path input @ ''\" escapes the adapter's base origin''))
     else Inr (pf_href pf
       (fold (\<lambda>(k, v). pf_setParam pf k (pf_text pf v)) (coalesce (hq_query input) []) target)))"

definition request_init :: "('u, 'x) platform \<Rightarrow> http_adapter \<Rightarrow> http_request \<Rightarrow> execution_context \<Rightarrow> fetch_init" where
  "request_init pf opts input ctx =
     (let method = coalesce (hq_method input) ''GET'';
          headers = spread (ho_defaultHeaders opts) (coalesce (hq_headers input) []);
          (body, headers) =
            (if hq_body input \<noteq> JUndefined \<and> method \<noteq> ''GET''
             then (case hq_body input of
                     JStr s \<Rightarrow> (Some s, headers)
                   | v \<Rightarrow> (Some (pf_stringify pf v),
                       (if map_of headers ''content-type'' = None
                        then map_set ''content-type'' ''application/json'' headers else headers)))
             else (None, headers));
          headers = (case cx_idempotencyKey ctx of None \<Rightarrow> headers | Some k \<Rightarrow> map_set ''idempotency-key'' k headers)
      in \<lparr>fi_method = method, fi_headers = headers, fi_body = body\<rparr>)"

definition toResponse :: "('u, 'x) platform \<Rightarrow> fetch_response \<Rightarrow> adapter_error + http_response" where
  "toResponse pf raw =
     and_then (fr_text raw) (\<lambda>text.
     let contentType = coalesce (map_of (fr_headers raw) ''content-type'') [];
         isJson = text_includes contentType ''application/json'' \<or> text_includes contentType ''+json'';
         parsed = (if isJson \<and> text \<noteq> [] then coalesce (pf_parse pf text) (JStr text) else JStr text)
     in Inr \<lparr>hs_status = fr_status raw, hs_ok = fr_ok raw, hs_headers = spread [] (fr_headers raw), hs_body = parsed\<rparr>)"

definition http_usage :: "http_adapter \<Rightarrow> number \<Rightarrow> http_response \<Rightarrow> adapter_usage" where
  "http_usage opts latency response =
     \<lparr>us_costUsd = ho_estimateUsd opts, us_latencyMs = latency,
      us_details = Some [(''status'', of_int (hs_status response))]\<rparr>"

definition http_execute ::
    "('u, 'x) platform \<Rightarrow> http_adapter \<Rightarrow> http_request \<Rightarrow> execution_context \<Rightarrow>
     ('x adapter_world, adapter_error, http_response) act" where
  "http_execute pf opts input ctx =
     bind_act (of_result (resolveUrl pf opts input)) (\<lambda>url.
     bind_act (gets (\<lambda>s. pf_now pf (aw_outside s))) (\<lambda>startedAt.
     bind_act (outside (pf_fetch pf url (request_init pf opts input ctx))) (\<lambda>raw.
     bind_act (of_result (toResponse pf raw)) (\<lambda>response.
     bind_act (gets (\<lambda>s. pf_now pf (aw_outside s))) (\<lambda>t.
     seq_act (set_usage (ho_id opts) (http_usage opts (t - startedAt) response))
     (if \<not> hs_ok response then throw (HttpRequestError response) else ret response))))))"

definition http_classifyError :: "adapter_error \<Rightarrow> error_class" where
  "http_classifyError error =
     (case error of
        HttpInvalidTargetError _ \<Rightarrow> ErrDeterministic
      | HttpRequestError response \<Rightarrow>
          (let s = hs_status response in
           if s = 429 then ErrRateLimit
           else if s = 401 \<or> s = 403 then ErrAuth
           else if s \<ge> 500 then ErrUnavailable
           else if s = 408 then ErrTransient
           else ErrDeterministic)
      | _ \<Rightarrow> ErrTransient)"

text \<open>The constructor fails where the base is no URL.\<close>

definition new_http_adapter :: "('u, 'x) platform \<Rightarrow> http_capability_options \<Rightarrow> adapter_error + http_adapter" where
  "new_http_adapter pf options =
     and_then (pf_url pf (hc_baseUrl options) None) (\<lambda>base.
     Inr \<lparr>ho_id = hc_id options, ho_name = coalesce (hc_name options) (hc_id options),
          ho_version = coalesce (hc_version options) ''1'', ho_provides = hc_provides options,
          ho_baseUrl = hc_baseUrl options, ho_baseOrigin = pf_origin pf base,
          ho_defaultHeaders = coalesce (hc_defaultHeaders options) [],
          ho_estimateUsd = coalesce (hc_estimateUsd options) 0\<rparr>)"

definition http_estimate :: "http_adapter \<Rightarrow> ('s, 'e, cost_estimate) act" where
  "http_estimate opts = ret \<lparr>es_costUsd = ho_estimateUsd opts, es_latencyMs = 0, es_confidence = 1 / 2\<rparr>"

interpretation http_metered: metered "http_execute pf opts" "last_usage (ho_id opts)" "\<lambda>_. ho_estimateUsd opts"
  for pf :: "('u, 'x) platform" and opts :: http_adapter
  by unfold_locales
    (auto simp: last_usage_reads http_execute_def bind_act_def seq_act_def set_usage_def modify_def ret_def throw_def
      of_result_def last_usage_def gets_def http_usage_def split: prod.splits sum.splits if_splits)

section \<open>GoHighLevel (ghl-adapter.ts)\<close>

definition GHL_BASE_URL :: string where
  "GHL_BASE_URL = ''https://services.leadconnectorhq.com''"

definition GHL_API_VERSION :: string where
  "GHL_API_VERSION = ''2021-07-28''"

definition compact :: "(string \<times> js) list \<Rightarrow> (string \<times> js) list" where
  "compact obj = filter (\<lambda>kv. snd kv \<noteq> JUndefined) obj"

text \<open>\<open>value ?? fallback\<close>\<close>

definition nullish :: "js \<Rightarrow> js \<Rightarrow> js" where
  "nullish v fallback = (if v = JUndefined \<or> v = JNull then fallback else v)"

definition location_or :: "js \<Rightarrow> string option \<Rightarrow> js" where
  "location_or v dflt = nullish v (case dflt of None \<Rightarrow> JUndefined | Some l \<Rightarrow> JStr l)"

definition post_to :: "string \<Rightarrow> (string \<times> js) list \<Rightarrow> http_request" where
  "post_to path body =
     \<lparr>hq_path = path, hq_method = Some ''POST'', hq_query = None, hq_headers = None, hq_body = JObj body\<rparr>"

text \<open>
  The order's input is not checked before it is used: reading \<open>op\<close> of nothing is a type error, an unknown
  operation gives no request, whose path then cannot be read. \<open>encode\<close> is \<open>encodeURIComponent\<close>. A contact that
  is neither missing nor an object is read as one without fields.
\<close>

definition upsert_request :: "js \<Rightarrow> string option \<Rightarrow> adapter_error + http_request" where
  "upsert_request contact defaultLocationId =
     (if contact = JUndefined \<or> contact = JNull then Inl (TypeError ''Cannot read properties of undefined'')
      else
        let fields = (case contact of JObj kvs \<Rightarrow> kvs | _ \<Rightarrow> []);
            locationId = location_or (js_get fields ''locationId'') defaultLocationId
        in if locationId = JUndefined then Inl (GhlConfigError ''contact.upsert requires a locationId'')
           else Inr (post_to ''/contacts/upsert''
             ((''locationId'', locationId) # compact (filter (\<lambda>kv. fst kv \<noteq> ''locationId'') fields))))"

definition search_request :: "(string \<times> js) list \<Rightarrow> string option \<Rightarrow> adapter_error + http_request" where
  "search_request req defaultLocationId =
     (let locationId = location_or (js_get req ''locationId'') defaultLocationId in
      if locationId = JUndefined then Inl (GhlConfigError ''contact.search requires a locationId'')
      else Inr (post_to ''/contacts/search''
        (compact [(''locationId'', locationId), (''query'', js_get req ''query''), (''pageLimit'', js_get req ''limit'')])))"

definition message_request :: "(string \<times> js) list \<Rightarrow> http_request" where
  "message_request req =
     post_to ''/conversations/messages''
       (compact [(''type'', js_get req ''type''), (''contactId'', js_get req ''contactId''),
         (''message'', js_get req ''message''), (''subject'', js_get req ''subject''), (''html'', js_get req ''html'')])"

definition toHttpRequest :: "(js \<Rightarrow> string) \<Rightarrow> js \<Rightarrow> string option \<Rightarrow> adapter_error + http_request" where
  "toHttpRequest encode req defaultLocationId =
     (if req = JUndefined \<or> req = JNull then Inl (TypeError ''Cannot read properties of undefined'')
      else
        let fields = (case req of JObj kvs \<Rightarrow> kvs | _ \<Rightarrow> []); op = js_get fields ''op'' in
        if op = JStr ''contact.upsert'' then upsert_request (js_get fields ''contact'') defaultLocationId
        else if op = JStr ''contact.get''
        then Inr \<lparr>hq_path = ''/contacts/'' @ encode (js_get fields ''contactId''), hq_method = Some ''GET'', hq_query = None,
               hq_headers = None, hq_body = JUndefined\<rparr>
        else if op = JStr ''contact.search'' then search_request fields defaultLocationId
        else if op = JStr ''message.send'' then Inr (message_request fields)
        else Inl (TypeError ''Cannot read properties of undefined''))"

record ghl_options =
  go_token :: string
  go_locationId :: "string option"
  go_id :: "string option"
  go_provides :: "string list option"
  go_baseUrl :: "string option"
  go_apiVersion :: "string option"

record ghl_adapter =
  ga_locationId :: "string option"
  ga_http :: http_adapter

definition new_ghl_adapter :: "('u, 'x) platform \<Rightarrow> ghl_options \<Rightarrow> adapter_error + ghl_adapter" where
  "new_ghl_adapter pf options =
     and_then (new_http_adapter pf
       \<lparr>hc_id = coalesce (go_id options) ''ghl.crm'', hc_name = None, hc_version = None,
        hc_provides = coalesce (go_provides options) [''crm'', ''ghl''],
        hc_baseUrl = coalesce (go_baseUrl options) GHL_BASE_URL,
        hc_defaultHeaders = Some
          [(''authorization'', ''Bearer '' @ go_token options),
           (''version'', coalesce (go_apiVersion options) GHL_API_VERSION),
           (''accept'', ''application/json'')],
        hc_estimateUsd = None\<rparr>) (\<lambda>http.
     Inr \<lparr>ga_locationId = go_locationId options, ga_http = http\<rparr>)"

definition ghl_result :: "js \<Rightarrow> http_response \<Rightarrow> js" where
  "ghl_result input response =
     JObj [(''op'', js_get (case input of JObj kvs \<Rightarrow> kvs | _ \<Rightarrow> []) ''op''),
           (''status'', JNum (Finite (of_int (hs_status response)))), (''data'', hs_body response)]"

definition ghl_execute ::
    "('u, 'x) platform \<Rightarrow> (js \<Rightarrow> string) \<Rightarrow> ghl_adapter \<Rightarrow> js \<Rightarrow> execution_context \<Rightarrow>
     ('x adapter_world, adapter_error, js) act" where
  "ghl_execute pf encode ghl input ctx =
     bind_act (of_result (toHttpRequest encode input (ga_locationId ghl))) (\<lambda>request.
     bind_act (http_execute pf (ga_http ghl) request ctx) (\<lambda>response.
     ret (ghl_result input response)))"

definition ghl_classifyError :: "adapter_error \<Rightarrow> error_class" where
  "ghl_classifyError error =
     (case error of GhlConfigError _ \<Rightarrow> ErrDeterministic | _ \<Rightarrow> http_classifyError error)"

definition ghl_capability_adapter ::
    "('u, 'x) platform \<Rightarrow> (js \<Rightarrow> string) \<Rightarrow> ghl_adapter \<Rightarrow> ('x adapter_world, adapter_error) capability_adapter" where
  "ghl_capability_adapter pf encode ghl =
     \<lparr>cad_id = ho_id (ga_http ghl), cad_name = ''GoHighLevel CRM'', cad_version = ''1'',
      cad_capabilities = ho_provides (ga_http ghl), cad_estimate = (\<lambda>_ _. http_estimate (ga_http ghl)),
      cad_execute = ghl_execute pf encode ghl, cad_reportUsage = last_usage (ho_id (ga_http ghl)),
      cad_classifyError = ghl_classifyError\<rparr>"

interpretation ghl_metered: metered "ghl_execute pf encode ghl" "last_usage (ho_id (ga_http ghl))"
    "\<lambda>_. ho_estimateUsd (ga_http ghl)"
  for pf :: "('u, 'x) platform" and encode and ghl :: ghl_adapter
proof
  fix s s' :: "'x adapter_world" and input ctx r
  show "\<exists>u. last_usage (ho_id (ga_http ghl)) s = (Inr u, s)" by (rule last_usage_reads)
  assume "ghl_execute pf encode ghl input ctx s = (Inr r, s')"
  then show "\<exists>u. fst (last_usage (ho_id (ga_http ghl)) s') = Inr (Some u) \<and> us_costUsd u = ho_estimateUsd (ga_http ghl)"
    using http_metered.execute_reports [of pf "ga_http ghl" _ ctx s _ s']
    by (fastforce simp: ghl_execute_def bind_act_def ret_def of_result_def throw_def split: prod.splits sum.splits)
qed

section \<open>The worker's catalog (capabilities.ts)\<close>

definition ghl_token_options :: "string \<Rightarrow> string option \<Rightarrow> ghl_options" where
  "ghl_token_options token locationId =
     \<lparr>go_token = token, go_locationId = (if locationId = Some [] then None else locationId), go_id = None,
      go_provides = None, go_baseUrl = None, go_apiVersion = None\<rparr>"

definition buildCapabilityCatalog ::
    "('u, 'x) platform \<Rightarrow> (js \<Rightarrow> string) \<Rightarrow> (string \<Rightarrow> string option) \<Rightarrow>
     adapter_error + ('x adapter_world, adapter_error) capability_catalog option" where
  "buildCapabilityCatalog pf encode vars =
     (case vars ''GHL_TOKEN'' of
        None \<Rightarrow> Inr None
      | Some token \<Rightarrow>
          if token = [] then Inr None
          else and_then (new_ghl_adapter pf (ghl_token_options token (vars ''GHL_LOCATION_ID''))) (\<lambda>ghl.
            Inr (Some (catalog_register (ghl_capability_adapter pf encode ghl) EC_automation
              \<lparr>ro_provides = Some [''crm''], ro_health = None\<rparr> []))))"

section \<open>Properties\<close>

lemma fold_setParam_origin:
  assumes "\<And>k v u. pf_origin pf (pf_setParam pf k v u) = pf_origin pf u"
  shows "pf_origin pf (fold (\<lambda>(k, v). pf_setParam pf k (f v)) kvs u) = pf_origin pf u"
  by (induction kvs arbitrary: u) (auto simp: assms)

lemma resolveUrl_origin:
  assumes "\<And>k v u. pf_origin pf (pf_setParam pf k v u) = pf_origin pf u"
    and "resolveUrl pf opts input = Inr url"
  shows "\<exists>u. url = pf_href pf u \<and> pf_origin pf u = ho_baseOrigin opts"
  using assms(2) fold_setParam_origin [of pf "pf_text pf" "coalesce (hq_query input) []", OF assms(1)]
  by (auto simp: resolveUrl_def and_then_Inr_iff split: if_splits)

lemma other_fields:
  "pf_url (pf\<lparr>pf_fetch := f\<rparr>) = pf_url pf" "pf_origin (pf\<lparr>pf_fetch := f\<rparr>) = pf_origin pf"
  "pf_setParam (pf\<lparr>pf_fetch := f\<rparr>) = pf_setParam pf" "pf_href (pf\<lparr>pf_fetch := f\<rparr>) = pf_href pf"
  "pf_text (pf\<lparr>pf_fetch := f\<rparr>) = pf_text pf" "pf_stringify (pf\<lparr>pf_fetch := f\<rparr>) = pf_stringify pf"
  "pf_parse (pf\<lparr>pf_fetch := f\<rparr>) = pf_parse pf" "pf_now (pf\<lparr>pf_fetch := f\<rparr>) = pf_now pf"
  by simp_all

lemma same_request:
  "resolveUrl (pf\<lparr>pf_fetch := f\<rparr>) opts input = resolveUrl pf opts input"
  "request_init (pf\<lparr>pf_fetch := f\<rparr>) opts input ctx = request_init pf opts input ctx"
  "toResponse (pf\<lparr>pf_fetch := f\<rparr>) raw = toResponse pf raw"
  unfolding resolveUrl_def request_init_def toResponse_def other_fields by (rule refl)+

lemma http_same_origin:
  assumes "\<And>k v u. pf_origin pf (pf_setParam pf k v u) = pf_origin pf u"
    and "\<And>u init. pf_origin pf u = ho_baseOrigin opts \<Longrightarrow> pf_fetch pf (pf_href pf u) init = fetch' (pf_href pf u) init"
  shows "http_execute (pf\<lparr>pf_fetch := fetch'\<rparr>) opts input ctx = http_execute pf opts input ctx"
proof (cases "resolveUrl pf opts input")
  case (Inl e)
  then show ?thesis
    unfolding http_execute_def same_request other_fields
    by (intro ext) (simp add: of_result_def throw_def bind_act_def)
next
  case (Inr url)
  with resolveUrl_origin [OF assms(1)] assms(2)
  have "pf_fetch pf url init = fetch' url init" for init by blast
  with Inr show ?thesis
    unfolding http_execute_def same_request other_fields
    by (intro ext) (simp add: of_result_def ret_def bind_act_def)
qed

text \<open>
  C19: An order cannot make the CRM adapter talk to another host, or without the configured credentials.
  Whatever the order's input is, the adapter behaves the same whatever the network does for addresses of
  any other origin than the configured one; and every request it does make carries the configured token and
  the run's idempotency key.
\<close>

theorem crm_stays_on_origin:
  assumes "\<And>k v u. pf_origin pf (pf_setParam pf k v u) = pf_origin pf u"
    and "new_ghl_adapter pf options = Inr ghl" and "pf_url pf (coalesce (go_baseUrl options) GHL_BASE_URL) None = Inr base"
  shows "(\<forall>fetch'. (\<forall>u init. pf_origin pf u = pf_origin pf base \<longrightarrow>
        pf_fetch pf (pf_href pf u) init = fetch' (pf_href pf u) init) \<longrightarrow>
      ghl_execute (pf\<lparr>pf_fetch := fetch'\<rparr>) encode ghl input ctx = ghl_execute pf encode ghl input ctx)
    \<and> (\<forall>request. toHttpRequest encode input (ga_locationId ghl) = Inr request \<longrightarrow>
        map_of (fi_headers (request_init pf (ga_http ghl) request ctx)) ''authorization'' = Some (''Bearer '' @ go_token options)
        \<and> map_of (fi_headers (request_init pf (ga_http ghl) request ctx)) ''idempotency-key'' = cx_idempotencyKey ctx)"
proof -
  have http: "ho_baseOrigin (ga_http ghl) = pf_origin pf base"
    "ho_defaultHeaders (ga_http ghl) = [(''authorization'', ''Bearer '' @ go_token options),
       (''version'', coalesce (go_apiVersion options) GHL_API_VERSION), (''accept'', ''application/json'')]"
    using assms(2,3) by (auto simp: new_ghl_adapter_def new_http_adapter_def)
  have "ghl_execute (pf\<lparr>pf_fetch := fetch'\<rparr>) encode ghl input ctx = ghl_execute pf encode ghl input ctx"
    if "\<forall>u init. pf_origin pf u = pf_origin pf base \<longrightarrow> pf_fetch pf (pf_href pf u) init = fetch' (pf_href pf u) init" for fetch'
    using http_same_origin [of pf "ga_http ghl" fetch', OF assms(1)] that http(1) by (simp add: ghl_execute_def)
  moreover have "map_of (fi_headers (request_init pf (ga_http ghl) request ctx)) ''authorization'' = Some (''Bearer '' @ go_token options)
      \<and> map_of (fi_headers (request_init pf (ga_http ghl) request ctx)) ''idempotency-key'' = cx_idempotencyKey ctx"
    if "toHttpRequest encode input (ga_locationId ghl) = Inr request" for request
  proof -
    have "hq_headers request = None"
      using that by (auto simp: toHttpRequest_def upsert_request_def search_request_def message_request_def post_to_def Let_def
          split: if_splits)
    then show ?thesis
      by (auto simp: request_init_def http(2) spread_def Let_def split: option.split jsval.split prod.split)
  qed
  ultimately show ?thesis by blast
qed

text \<open>A platform of two-part URLs, for the witness: the origin and the rest.\<close>

definition sample_fetch :: "string \<Rightarrow> fetch_init \<Rightarrow> (unit, adapter_error, fetch_response) act" where
  "sample_fetch url init = ret \<lparr>fr_status = 200, fr_ok = True, fr_headers = [], fr_text = Inr url\<rparr>"

definition sample_platform :: "(string \<times> string, unit) platform" where
  "sample_platform =
     \<lparr>pf_url = (\<lambda>p base. case base of None \<Rightarrow> Inr (p, []) | Some b \<Rightarrow>
        if take 2 p = ''//'' then Inr (p, []) else Inr (b, p)),
      pf_origin = fst, pf_setParam = (\<lambda>k v u. (fst u, snd u @ k @ ''='' @ v)), pf_href = (\<lambda>u. fst u @ snd u),
      pf_fetch = sample_fetch, pf_stringify = (\<lambda>_. ''{}''), pf_parse = (\<lambda>_. None), pf_text = (\<lambda>_. []), pf_now = (\<lambda>_. 0)\<rparr>"

definition sample_http :: http_adapter where
  "sample_http =
     \<lparr>ho_id = ''ghl.crm'', ho_name = ''ghl.crm'', ho_version = ''1'', ho_provides = [''crm'', ''ghl''],
      ho_baseUrl = GHL_BASE_URL, ho_baseOrigin = GHL_BASE_URL,
      ho_defaultHeaders = [(''authorization'', ''Bearer '' @ ''tok''), (''version'', GHL_API_VERSION), (''accept'', ''application/json'')],
      ho_estimateUsd = 0\<rparr>"

definition only_ghl :: "string \<Rightarrow> fetch_init \<Rightarrow> (unit, adapter_error, fetch_response) act" where
  "only_ghl url init =
     (if take (length GHL_BASE_URL) url = GHL_BASE_URL then sample_fetch url init else throw (TransportError ''down''))"

theorem crm_stays_on_origin_witness:
  "ghl_execute (sample_platform\<lparr>pf_fetch := only_ghl\<rparr>) (\<lambda>_. ''c1'') \<lparr>ga_locationId = Some ''loc'', ga_http = sample_http\<rparr>
      (JObj [(''op'', JStr ''contact.get''), (''contactId'', JStr ''c1'')]) \<lparr>cx_idempotencyKey = Some ''run-1'', cx_correlationId = None\<rparr>
   = ghl_execute sample_platform (\<lambda>_. ''c1'') \<lparr>ga_locationId = Some ''loc'', ga_http = sample_http\<rparr>
      (JObj [(''op'', JStr ''contact.get''), (''contactId'', JStr ''c1'')]) \<lparr>cx_idempotencyKey = Some ''run-1'', cx_correlationId = None\<rparr>"
proof -
  let ?ghl = "\<lparr>ga_locationId = Some ''loc'', ga_http = sample_http\<rparr>"
  have law: "pf_origin sample_platform (pf_setParam sample_platform k v u) = pf_origin sample_platform u" for k v u
    by (simp add: sample_platform_def)
  have made: "new_ghl_adapter sample_platform (ghl_token_options ''tok'' (Some ''loc'')) = Inr ?ghl"
    by (simp add: sample_platform_def new_ghl_adapter_def new_http_adapter_def ghl_token_options_def sample_http_def)
  have base: "pf_url sample_platform (coalesce (go_baseUrl (ghl_token_options ''tok'' (Some ''loc''))) GHL_BASE_URL) None
      = Inr (GHL_BASE_URL, [])"
    by (simp add: sample_platform_def ghl_token_options_def)
  have same: "\<forall>u init. pf_origin sample_platform u = pf_origin sample_platform (GHL_BASE_URL, []) \<longrightarrow>
      pf_fetch sample_platform (pf_href sample_platform u) init = only_ghl (pf_href sample_platform u) init"
    by (simp add: sample_platform_def only_ghl_def)
  show ?thesis
    by (rule crm_stays_on_origin [OF law made base, THEN conjunct1, THEN spec, THEN mp, OF same])
qed

end
