(* ===== verification/Model_Adapters.thy ===== *)
theory Model_Adapters
  imports Adapters
begin

text \<open>
  The model adapters (\<open>packages/adapters\<close>: model-anthropic/src/anthropic-adapter.ts,
  model-openai/src/openai-adapter.ts, model-local/src/local-adapter.ts, with the client interfaces of
  client.ts) and the resolver that builds and caches them (\<open>apps/worker/src/model-adapters.ts\<close>). The clients
  are parameters: functions from the parameters of a call to a response of the interface's shape.
\<close>

section \<open>Shared by both providers\<close>

definition approxTokens :: "model_message list \<Rightarrow> number" where
  "approxTokens messages = of_int \<lceil>of_nat (sum_list (map (\<lambda>m. length (mm_content m)) messages)) / (4 :: number)\<rceil>"

definition model_estimate :: "model_entry \<Rightarrow> number \<Rightarrow> model_request \<Rightarrow> cost_estimate" where
  "model_estimate model defaultMax input =
     \<lparr>es_costUsd = estimateCostUsd model
        \<lparr>tu_inputTokens = approxTokens (mq_messages input),
         tu_cachedInputTokens = None,
         tu_outputTokens = coalesce (mq_maxOutputTokens input) defaultMax\<rparr>,
      es_latencyMs = 0, es_confidence = 3 / 10\<rparr>"

record model_capabilities =
  ml_contextTokens :: number
  ml_supportsTools :: bool
  ml_supportsVision :: bool
  ml_supportsStreaming :: bool
  ml_supportsReasoning :: bool

definition modelCapabilities :: "model_entry \<Rightarrow> model_capabilities" where
  "modelCapabilities model =
     \<lparr>ml_contextTokens = me_contextTokens model, ml_supportsTools = mc_tools (me_capabilities model),
      ml_supportsVision = mc_vision (me_capabilities model), ml_supportsStreaming = True,
      ml_supportsReasoning = mc_reasoning (me_capabilities model)\<rparr>"

definition model_provides :: "model_entry \<Rightarrow> string list" where
  "model_provides model = [''model.generate'', ''model:'' @ me_id model]"

definition usage_of :: "model_entry \<Rightarrow> number \<Rightarrow> number \<Rightarrow> number option \<Rightarrow> number \<Rightarrow> model_usage" where
  "usage_of model inputTokens outputTokens cachedInputTokens latencyMs =
     \<lparr>mu_inputTokens = inputTokens, mu_cachedInputTokens = cachedInputTokens, mu_outputTokens = outputTokens,
      mu_reasoningTokens = None,
      mu_costUsd = estimateCostUsd model
        \<lparr>tu_inputTokens = inputTokens, tu_cachedInputTokens = cachedInputTokens, tu_outputTokens = outputTokens\<rparr>,
      mu_latencyMs = latencyMs\<rparr>"

definition report_of :: "model_usage \<Rightarrow> adapter_usage" where
  "report_of u =
     \<lparr>us_costUsd = mu_costUsd u, us_latencyMs = mu_latencyMs u,
      us_details = Some [(''inputTokens'', mu_inputTokens u), (''outputTokens'', mu_outputTokens u)]\<rparr>"

section \<open>Anthropic (anthropic-adapter.ts)\<close>

definition effortForTier :: "number \<Rightarrow> string" where
  "effortForTier tier =
     (if tier \<le> 2 then ''low'' else if tier \<le> 5 then ''medium'' else if tier \<le> 7 then ''high''
      else if tier \<le> 9 then ''xhigh'' else ''max'')"

record anthropic_params =
  ap_model :: string
  ap_max_tokens :: number
  ap_messages :: "(string \<times> string) list"
  ap_system :: "string option"
  ap_effort :: "string option"

record anthropic_block =
  ab_type :: string
  ab_text :: "string option"

record anthropic_response =
  ar_content :: "anthropic_block list"
  ar_stop_reason :: "string option"
  ar_input_tokens :: number
  ar_output_tokens :: number
  ar_cache_read_input_tokens :: "number option"

record anthropic_adapter =
  aa_model :: model_entry
  aa_enableThinking :: bool
  aa_defaultMaxOutputTokens :: number

definition new_anthropic_adapter :: "model_entry \<Rightarrow> bool option \<Rightarrow> number option \<Rightarrow> anthropic_adapter" where
  "new_anthropic_adapter model enableThinking defaultMax =
     \<lparr>aa_model = model, aa_enableThinking = coalesce enableThinking (mc_reasoning (me_capabilities model)),
      aa_defaultMaxOutputTokens = coalesce defaultMax 16000\<rparr>"

definition anthropic_id :: "anthropic_adapter \<Rightarrow> string" where
  "anthropic_id a = ''anthropic:'' @ me_id (aa_model a)"

text \<open>\<open>ap_effort\<close> stands for \<open>thinking\<close> and \<open>output_config\<close>, which are set together.\<close>

definition anthropic_buildParams :: "anthropic_adapter \<Rightarrow> model_request \<Rightarrow> anthropic_params" where
  "anthropic_buildParams a input =
     (let sys = join_with (CHR 0x0A # [CHR 0x0A])
            (map mm_content (filter (\<lambda>m. mm_role m = ''system'') (mq_messages input)));
          messages = map (\<lambda>m. (if mm_role m = ''assistant'' then ''assistant'' else ''user'', mm_content m))
            (filter (\<lambda>m. mm_role m \<noteq> ''system'') (mq_messages input))
      in \<lparr>ap_model = me_id (aa_model a),
          ap_max_tokens = coalesce (mq_maxOutputTokens input) (aa_defaultMaxOutputTokens a),
          ap_messages = messages, ap_system = (if sys \<noteq> [] then Some sys else None),
          ap_effort = (if aa_enableThinking a then Some (effortForTier (coalesce (mq_reasoningTier input) 5)) else None)\<rparr>)"

definition anthropic_text :: "anthropic_response \<Rightarrow> string" where
  "anthropic_text res =
     concat (map (\<lambda>b. coalesce (ab_text b) []) (filter (\<lambda>b. ab_type b = ''text'') (ar_content res)))"

definition anthropic_execute ::
    "('x \<Rightarrow> number) \<Rightarrow> (anthropic_params \<Rightarrow> ('x, adapter_error, anthropic_response) act) \<Rightarrow> anthropic_adapter \<Rightarrow>
     model_request \<Rightarrow> execution_context \<Rightarrow> ('x adapter_world, adapter_error, model_result) act" where
  "anthropic_execute now client a input ctx =
     bind_act (gets (\<lambda>s. now (aw_outside s))) (\<lambda>start.
     bind_act (outside (client (anthropic_buildParams a input))) (\<lambda>res.
     bind_act (gets (\<lambda>s. now (aw_outside s))) (\<lambda>t.
     let u = usage_of (aa_model a) (ar_input_tokens res) (ar_output_tokens res) (ar_cache_read_input_tokens res) (t - start)
     in seq_act (set_usage (anthropic_id a) (report_of u))
       (ret \<lparr>mr_text = anthropic_text res, mr_usage = u,
             mr_finishReason = coalesce (ar_stop_reason res) ''end_turn''\<rparr>))))"

definition anthropic_classifyError :: "adapter_error \<Rightarrow> error_class" where
  "anthropic_classifyError error =
     (case error of
        AnthropicError RateLimitError \<Rightarrow> ErrRateLimit
      | AnthropicError AuthenticationError \<Rightarrow> ErrAuth
      | AnthropicError PermissionDeniedError \<Rightarrow> ErrAuth
      | AnthropicError BadRequestError \<Rightarrow> ErrDeterministic
      | AnthropicError NotFoundError \<Rightarrow> ErrDeterministic
      | AnthropicError UnprocessableEntityError \<Rightarrow> ErrDeterministic
      | AnthropicError InternalServerError \<Rightarrow> ErrUnavailable
      | AnthropicError APIConnectionError \<Rightarrow> ErrTransient
      | AnthropicError (OtherAPIError status) \<Rightarrow>
          (case status of
             Some n \<Rightarrow> if n \<ge> 500 then ErrUnavailable else if n = 429 then ErrRateLimit else ErrDeterministic
           | None \<Rightarrow> ErrDeterministic)
      | _ \<Rightarrow> ErrUnknown)"

definition anthropic_model_adapter ::
    "('x \<Rightarrow> number) \<Rightarrow> (anthropic_params \<Rightarrow> ('x, adapter_error, anthropic_response) act) \<Rightarrow> anthropic_adapter \<Rightarrow>
     ('x adapter_world, adapter_error) model_adapter" where
  "anthropic_model_adapter now client a =
     \<lparr>mad_id = anthropic_id a,
      mad_estimate = (\<lambda>input _. ret (model_estimate (aa_model a) (aa_defaultMaxOutputTokens a) input)),
      mad_execute = anthropic_execute now client a, mad_classifyError = anthropic_classifyError\<rparr>"

section \<open>OpenAI (openai-adapter.ts)\<close>

definition reasoningEffortForTier :: "number \<Rightarrow> string" where
  "reasoningEffortForTier tier = (if tier \<le> 3 then ''low'' else if tier \<le> 7 then ''medium'' else ''high'')"

definition toOpenAiRole :: "string \<Rightarrow> string" where
  "toOpenAiRole role = (if role = ''system'' then ''system'' else if role = ''assistant'' then ''assistant'' else ''user'')"

record openai_params =
  op_model :: string
  op_messages :: "(string \<times> string) list"
  op_max_tokens :: number
  op_reasoning_effort :: "string option"

record openai_choice =
  oc_content :: "string option"
  oc_finish_reason :: "string option"

record openai_usage =
  ou_prompt_tokens :: number
  ou_completion_tokens :: number
  ou_cached_tokens :: "number option"

record openai_completion =
  ok_choices :: "openai_choice list"
  ok_usage :: "openai_usage option"

text \<open>Where the library sends its calls: the key and the address it is given, or its own defaults.\<close>

record openai_endpoint =
  oe_apiKey :: "string option"
  oe_baseURL :: "string option"

record openai_adapter =
  oa_model :: model_entry
  oa_id :: string
  oa_name :: string
  oa_endpoint :: openai_endpoint
  oa_defaultMaxOutputTokens :: number
  oa_reasoningEffort :: bool

definition new_openai_adapter ::
    "model_entry \<Rightarrow> openai_endpoint \<Rightarrow> string option \<Rightarrow> string option \<Rightarrow> number option \<Rightarrow> bool option \<Rightarrow> openai_adapter" where
  "new_openai_adapter model endpoint idPrefix namePrefix defaultMax reasoningEffort =
     \<lparr>oa_model = model, oa_id = coalesce idPrefix ''openai'' @ '':'' @ me_id model,
      oa_name = coalesce namePrefix ''OpenAI'' @ '' '' @ me_displayName model, oa_endpoint = endpoint,
      oa_defaultMaxOutputTokens = coalesce defaultMax 16000, oa_reasoningEffort = coalesce reasoningEffort False\<rparr>"

definition openai_buildParams :: "openai_adapter \<Rightarrow> model_request \<Rightarrow> openai_params" where
  "openai_buildParams a input =
     \<lparr>op_model = me_id (oa_model a),
      op_messages = map (\<lambda>m. (toOpenAiRole (mm_role m), mm_content m)) (mq_messages input),
      op_max_tokens = coalesce (mq_maxOutputTokens input) (oa_defaultMaxOutputTokens a),
      op_reasoning_effort =
        (if oa_reasoningEffort a then Some (reasoningEffortForTier (coalesce (mq_reasoningTier input) 5)) else None)\<rparr>"

type_synonym 'x openai_client = "openai_endpoint \<Rightarrow> openai_params \<Rightarrow> ('x, adapter_error, openai_completion) act"

definition openai_execute ::
    "('x \<Rightarrow> number) \<Rightarrow> 'x openai_client \<Rightarrow> openai_adapter \<Rightarrow> model_request \<Rightarrow> execution_context \<Rightarrow>
     ('x adapter_world, adapter_error, model_result) act" where
  "openai_execute now client a input ctx =
     bind_act (gets (\<lambda>s. now (aw_outside s))) (\<lambda>start.
     bind_act (outside (client (oa_endpoint a) (openai_buildParams a input))) (\<lambda>res.
     bind_act (gets (\<lambda>s. now (aw_outside s))) (\<lambda>t.
     let choice = first_of (ok_choices res);
         inputTokens = (case ok_usage res of None \<Rightarrow> 0 | Some u \<Rightarrow> ou_prompt_tokens u);
         outputTokens = (case ok_usage res of None \<Rightarrow> 0 | Some u \<Rightarrow> ou_completion_tokens u);
         cached = (case ok_usage res of None \<Rightarrow> None | Some u \<Rightarrow> ou_cached_tokens u);
         u = usage_of (oa_model a) inputTokens outputTokens cached (t - start)
     in seq_act (set_usage (oa_id a) (report_of u))
       (ret \<lparr>mr_text = (case choice of None \<Rightarrow> [] | Some c \<Rightarrow> coalesce (oc_content c) []), mr_usage = u,
             mr_finishReason = (case choice of None \<Rightarrow> ''stop'' | Some c \<Rightarrow> coalesce (oc_finish_reason c) ''stop'')\<rparr>))))"

definition openai_classifyError :: "adapter_error \<Rightarrow> error_class" where
  "openai_classifyError error =
     (case error of
        OpenAiError status \<Rightarrow>
          (case status of
             None \<Rightarrow> ErrTransient
           | Some n \<Rightarrow>
               if n = 429 then ErrRateLimit
               else if n = 401 \<or> n = 403 then ErrAuth
               else if n \<ge> 500 then ErrUnavailable
               else if n \<ge> 400 then ErrDeterministic
               else ErrTransient)
      | _ \<Rightarrow> ErrUnknown)"

definition openai_model_adapter ::
    "('x \<Rightarrow> number) \<Rightarrow> 'x openai_client \<Rightarrow> openai_adapter \<Rightarrow> ('x adapter_world, adapter_error) model_adapter" where
  "openai_model_adapter now client a =
     \<lparr>mad_id = oa_id a,
      mad_estimate = (\<lambda>input _. ret (model_estimate (oa_model a) (oa_defaultMaxOutputTokens a) input)),
      mad_execute = openai_execute now client a, mad_classifyError = openai_classifyError\<rparr>"

section \<open>Local models (local-adapter.ts)\<close>

definition new_local_adapter ::
    "model_entry \<Rightarrow> string \<Rightarrow> string option \<Rightarrow> number option \<Rightarrow> bool option \<Rightarrow> openai_adapter" where
  "new_local_adapter model baseURL apiKey defaultMax reasoningEffort =
     new_openai_adapter model \<lparr>oe_apiKey = Some (coalesce apiKey ''local''), oe_baseURL = Some baseURL\<rparr>
       (Some ''local'') (Some ''Local'') defaultMax reasoningEffort"

section \<open>What the usage of a call is\<close>

interpretation anthropic_metered: metered "anthropic_execute now client a" "last_usage (anthropic_id a)"
    "\<lambda>r. mu_costUsd (mr_usage r)"
  for now :: "'x \<Rightarrow> number" and client and a :: anthropic_adapter
  by unfold_locales
    (auto simp: last_usage_reads anthropic_execute_def bind_act_def seq_act_def set_usage_def modify_def ret_def Let_def
      last_usage_def gets_def report_of_def split: prod.splits sum.splits)

interpretation openai_metered: metered "openai_execute now client a" "last_usage (oa_id a)"
    "\<lambda>r. mu_costUsd (mr_usage r)"
  for now :: "'x \<Rightarrow> number" and client and a :: openai_adapter
  by unfold_locales
    (auto simp: last_usage_reads openai_execute_def bind_act_def seq_act_def set_usage_def modify_def ret_def Let_def
      last_usage_def gets_def report_of_def split: prod.splits sum.splits)

section \<open>The resolver (model-adapters.ts)\<close>

datatype resolved_adapter = AnthropicResolved anthropic_adapter | OpenAiResolved openai_adapter

definition id_map :: "model_entry list \<Rightarrow> string \<Rightarrow> model_entry option" where
  "id_map registry = map_of (rev (map (\<lambda>m. (me_id m, m)) registry))"

definition configured :: "string option \<Rightarrow> bool" where
  "configured v = (v \<noteq> None \<and> v \<noteq> Some [])"

definition build_adapter :: "(string \<Rightarrow> string option) \<Rightarrow> model_entry \<Rightarrow> resolved_adapter option" where
  "build_adapter vars model =
     (case me_provider model of
        Anthropic \<Rightarrow> Some (AnthropicResolved (new_anthropic_adapter model None None))
      | OpenAI \<Rightarrow>
          (let apiKey = vars ''OPENAI_API_KEY''; baseURL = vars ''OPENAI_BASE_URL'' in
           if configured apiKey
           then Some (OpenAiResolved (new_openai_adapter model
             \<lparr>oe_apiKey = apiKey, oe_baseURL = (if configured baseURL then baseURL else None)\<rparr> None None None None))
           else None)
      | LocalProvider \<Rightarrow>
          (let baseURL = vars ''LOCAL_MODEL_BASE_URL''; apiKey = vars ''LOCAL_MODEL_API_KEY'' in
           if configured baseURL
           then Some (OpenAiResolved (new_local_adapter model (coalesce baseURL [])
             (if configured apiKey then apiKey else None) None None))
           else None))"

type_synonym adapter_cache = "(string \<times> resolved_adapter) list"

text \<open>A lookup: the adapter, and the cache afterwards.\<close>

definition resolve_adapter ::
    "model_entry list \<Rightarrow> (string \<Rightarrow> string option) \<Rightarrow> string \<Rightarrow> adapter_cache \<Rightarrow> resolved_adapter option \<times> adapter_cache" where
  "resolve_adapter registry vars modelId cache =
     (case map_of cache modelId of
        Some cached \<Rightarrow> (Some cached, cache)
      | None \<Rightarrow>
          (case id_map registry modelId of
             None \<Rightarrow> (None, cache)
           | Some model \<Rightarrow>
               (case build_adapter vars model of
                  None \<Rightarrow> (None, cache)
                | Some adapter \<Rightarrow> (Some adapter, map_set modelId adapter cache))))"

definition adapter_of ::
    "('x \<Rightarrow> number) \<Rightarrow> (anthropic_params \<Rightarrow> ('x, adapter_error, anthropic_response) act) \<Rightarrow> 'x openai_client \<Rightarrow>
     resolved_adapter \<Rightarrow> ('x adapter_world, adapter_error) model_adapter" where
  "adapter_of now anthropic openai r =
     (case r of
        AnthropicResolved a \<Rightarrow> anthropic_model_adapter now anthropic a
      | OpenAiResolved a \<Rightarrow> openai_model_adapter now openai a)"

fun resolve_all ::
    "model_entry list \<Rightarrow> (string \<Rightarrow> string option) \<Rightarrow> string list \<Rightarrow> adapter_cache \<Rightarrow> resolved_adapter option list" where
  "resolve_all registry vars [] cache = []"
| "resolve_all registry vars (i # ids) cache =
     (case resolve_adapter registry vars i cache of (r, cache') \<Rightarrow> r # resolve_all registry vars ids cache')"

section \<open>Properties\<close>

text \<open>The lookup without the cache.\<close>

definition adapter_for :: "model_entry list \<Rightarrow> (string \<Rightarrow> string option) \<Rightarrow> string \<Rightarrow> resolved_adapter option" where
  "adapter_for registry vars i = (case id_map registry i of None \<Rightarrow> None | Some m \<Rightarrow> build_adapter vars m)"

definition cache_ok :: "model_entry list \<Rightarrow> (string \<Rightarrow> string option) \<Rightarrow> adapter_cache \<Rightarrow> bool" where
  "cache_ok registry vars cache \<longleftrightarrow> (\<forall>i a. map_of cache i = Some a \<longrightarrow> adapter_for registry vars i = Some a)"

lemma cache_okD: "cache_ok registry vars cache \<Longrightarrow> map_of cache i = Some a \<Longrightarrow> adapter_for registry vars i = Some a"
  by (simp add: cache_ok_def)

lemma cache_ok_set: "cache_ok registry vars cache \<Longrightarrow> adapter_for registry vars i = Some a \<Longrightarrow>
    cache_ok registry vars (map_set i a cache)"
  by (simp add: cache_ok_def)

lemma resolve_adapter_ok:
  assumes "cache_ok registry vars cache" and "resolve_adapter registry vars i cache = (r, cache')"
  shows "r = adapter_for registry vars i \<and> cache_ok registry vars cache'"
proof (cases "map_of cache i")
  case (Some a)
  with assms cache_okD [OF assms(1) Some] show ?thesis by (simp add: resolve_adapter_def)
next
  case None
  then have "resolve_adapter registry vars i cache =
      (case adapter_for registry vars i of None \<Rightarrow> (None, cache) | Some a \<Rightarrow> (Some a, map_set i a cache))"
    by (auto simp: resolve_adapter_def adapter_for_def split: option.split)
  with assms show ?thesis
    by (cases "adapter_for registry vars i") (auto intro: cache_ok_set)
qed

lemma resolve_all_ok: "cache_ok registry vars cache \<Longrightarrow> resolve_all registry vars ids cache = map (adapter_for registry vars) ids"
proof (induction ids arbitrary: cache)
  case (Cons i ids)
  obtain r cache' where step: "resolve_adapter registry vars i cache = (r, cache')" by fastforce
  from resolve_adapter_ok [OF Cons.prems step] Cons.IH [of cache'] show ?case by (simp add: step)
qed simp

text \<open>
  The cache of the resolver is transparent: whatever is looked up, in whatever order and however often,
  every lookup gives what building the adapter afresh would give.
\<close>

theorem resolver_cache_transparent:
  "resolve_all registry vars ids [] = map (adapter_for registry vars) ids"
  by (rule resolve_all_ok) (simp add: cache_ok_def)

lemma id_map_in: "id_map registry i = Some m \<Longrightarrow> m \<in> set registry \<and> me_id m = i"
  by (auto simp: id_map_def dest!: map_of_SomeD)

lemma id_map_unique: "distinct (map me_id registry) \<Longrightarrow> m \<in> set registry \<Longrightarrow> id_map registry (me_id m) = Some m"
  by (simp add: id_map_def rev_map [symmetric] comp_def map_of_eq_Some_iff image_iff)

lemma routed_local:
  assumes "routeModel numText input registry = Some decision" and "mi_requireLocal input = Some True"
    and "m \<in> set (md_model decision # md_fallbacks decision)"
  shows "m \<in> set registry \<and> me_privacy m = LocalNode"
proof -
  have "md_model decision # md_fallbacks decision = js_sort byCost (model_pool input registry)"
    using routeModel_pool [of numText input registry] assms(1) by (simp split: if_splits)
  then have "set (md_model decision # md_fallbacks decision) = set (model_pool input registry)"
    by (simp only: set_js_sort)
  with assms(3) have "m \<in> set (filter (\<lambda>m. isEligible m input) registry)"
    by (auto simp: model_pool_def Let_def split: if_splits)
  with assms(2) show ?thesis by (auto simp: isEligible_def is_true_def split: if_splits)
qed


lemma registry_local: "\<forall>m \<in> set MODEL_REGISTRY. me_privacy m = LocalNode \<longrightarrow> me_provider m = LocalProvider"
  "distinct (map me_id MODEL_REGISTRY)"
  by (simp_all add: MODEL_REGISTRY_def)

subsection \<open>Witnesses\<close>

definition local_registry :: "model_entry list" where
  "local_registry = map (\<lambda>m. m\<lparr>me_available := True\<rparr>) MODEL_REGISTRY"

definition local_input :: model_routing_input where
  "local_input = \<lparr>mi_reasoningTier = 2, mi_needsTools = None, mi_needsVision = None, mi_requireLocal = Some True,
     mi_minContextTokens = None, mi_excludeProviders = None\<rparr>"

definition local_vars :: "string \<Rightarrow> string option" where
  "local_vars k = (if k = ''LOCAL_MODEL_BASE_URL'' then Some ''http://127.0.0.1:11434/v1'' else None)"


end
