(* ===== verification/Worker_Wiring.thy ===== *)
theory Worker_Wiring
  imports Worker_Runtime Model_Adapters
begin

text \<open>
  The worker process as \<open>apps/worker/src/main.ts\<close> starts it: \<open>runWorker\<close> on the catalog built from the
  environment and the resolver of the model adapters. The lemmas follow a job from its payload to the adapters.
\<close>

section \<open>The process\<close>

definition start_worker ::
    "('u, 'x) platform \<Rightarrow> (js \<Rightarrow> string) \<Rightarrow> (string \<Rightarrow> string option) \<Rightarrow>
     (string \<Rightarrow> ('x adapter_world, adapter_error) model_adapter option) \<Rightarrow> env \<Rightarrow> (number \<Rightarrow> string) \<Rightarrow>
     adapter_error + ('x adapter_world, adapter_error) worker_config" where
  "start_worker pf encode vars resolve env numText =
     and_then (buildCapabilityCatalog pf encode vars) (\<lambda>cat.
     Inr \<lparr>wk_capabilityCatalog = cat, wk_workRegistry = None, wk_outboxBatchSize = None,
          wk_resolveModelAdapter = resolve, wk_env = env, wk_numText = numText\<rparr>)"

section \<open>An input the adapter cannot read\<close>

lemma wp_any: "(\<And>a s'. Q a s') \<Longrightarrow> wp m Q (\<lambda>_ _. True) s"
  by (auto simp: wp_def split: prod.split sum.split)

lemmas any_result =
  wp_any [where m = "emit deps order etype" for deps order etype]
  wp_any [where m = "budget_gate b t estimate" for b t estimate]
  wp_any [where m = "execute_call t classify m'" for t classify m']
  wp_any [where m = "record_usage u" for u]
  wp_any [where m = "observe l" for l]

lemma ghl_without_input: "ghl_execute pf encode ghl JUndefined ctx s = (Inl (TypeError ''Cannot read properties of undefined''), s)"
  by (simp add: ghl_execute_def toHttpRequest_def of_result_def throw_def bind_act_def)

lemma parsed_capabilityInput: "parseWorkOrder payload = Inr w \<Longrightarrow> wo_capabilityInput w = JUndefined"
  by (cases payload) (auto simp: parseWorkOrder_def refuse_def and_then_Inr_iff)

definition always_throws :: "('w, 'e) orchestrator_deps \<Rightarrow> order \<Rightarrow> bool" where
  "always_throws deps order \<longleftrightarrow>
     (\<forall>i adapter s. resolve_capability deps i = Some adapter \<longrightarrow>
        (\<exists>e s'. cad_execute adapter (wo_capabilityInput order) (capability_context order) s = (Inl e, s')))"

lemma execute_call_throws:
  assumes "\<And>s. \<exists>e s'. m s = (Inl e, s')"
  shows "wp (execute_call t classify m) Q (\<lambda>_ _. True) s"
proof -
  have "wp (call_out m) (\<lambda>_ _. False) (\<lambda>_ _. True) s" for s
    using assms by (auto simp: wp_def call_out_def split: prod.split sum.split) (metis Pair_inject sum.distinct(1))
  from this show ?thesis
    unfolding execute_call_def wp_bind wp_try by (rule wp_mono) (auto intro: any_result)
qed

lemma attempt_capability_throws:
  assumes "always_throws deps order" and "resolve_capability deps i = Some adapter"
  shows "wp (attempt_capability deps order candidate adapter) (\<lambda>_ _. False) (\<lambda>_ _. True) s"
  unfolding attempt_capability_def wp_bind
  using assms by (intro execute_call_throws) (auto simp: always_throws_def)

lemma capability_loop_never_completes:
  assumes "always_throws deps order"
  shows "wp (capability_loop deps order cs attempted)
     (\<lambda>looped _. \<forall>r. looped = Inl r \<longrightarrow> wx_status r \<noteq> WS_completed) (\<lambda>_ _. True) s"
proof (induction cs arbitrary: attempted s)
  case (Cons c cs)
  have attempt: "wp (attempt_capability deps order c adapter) (\<lambda>_ _. False) (\<lambda>_ _. True) s"
    if "resolve_capability deps (rc_id c) = Some adapter" for adapter s
    using attempt_capability_throws [OF assms that] .
  show ?case
  proof (cases "resolve_capability deps (rc_id c)")
    case None
    with Cons.IH show ?thesis by simp
  next
    case (Some adapter)
    show ?thesis
      unfolding capability_loop.simps Some wp_bind option.case wp_if wp_seq wp_try
      by (rule any_result conjI impI Cons.IH wp_mono [OF attempt [OF Some]] | simp add: result_of_def split: if_splits)+
  qed
qed simp

lemma model_path_capability:
  "wp (model_path deps order cls) (\<lambda>r _. wx_capabilityId r = None) (\<lambda>_ _. True) s"
proof -
  have attempt: "wp (attempt_model deps order cls request entry adapter) (\<lambda>r _. wx_capabilityId r = None) (\<lambda>_ _. True) s"
    for request entry adapter s
    unfolding attempt_model_def wp_bind wp_seq by (intro any_result) (simp add: result_of_def)
  have loop: "wp (model_loop deps order cls request es lastErrorClass)
      (\<lambda>looped _. \<forall>r. looped = Inl r \<longrightarrow> wx_capabilityId r = None) (\<lambda>_ _. True) s" for request es lastErrorClass s
  proof (induction es arbitrary: lastErrorClass s)
    case (Cons e es)
    show ?case
    proof (cases "od_resolveModelAdapter deps (me_id e)")
      case None
      with Cons.IH show ?thesis by simp
    next
      case (Some adapter)
      show ?thesis
        unfolding model_loop.simps Some wp_bind option.case wp_if wp_seq wp_try
        by (rule any_result conjI impI Cons.IH wp_mono [OF attempt] | simp add: result_of_def split: if_splits)+
    qed
  qed simp
  show ?thesis
    unfolding model_path_def
    by (rule any_result conjI impI allI wp_mono [OF loop]
      | simp add: failed_with_def result_of_def del: model_loop.simps split: option.split sum.split)+
qed

lemma orders_never_complete:
  assumes "always_throws deps order"
  shows "wp (executeWorkOrder deps order)
     (\<lambda>r _. wx_status r = WS_completed \<longrightarrow> wx_capabilityId r = None) (\<lambda>_ _. True) s"
proof -
  have path: "wp (capability_path deps order routing) (\<lambda>r _. wx_status r = WS_completed \<longrightarrow> wx_capabilityId r = None)
      (\<lambda>_ _. True) s" for routing s
    unfolding capability_path_def wp_bind
    by (rule any_result conjI impI allI wp_mono [OF capability_loop_never_completes [OF assms]]
        wp_mono [OF model_path_capability]
      | simp add: failed_with_def result_of_def split: sum.split)+
  show ?thesis
    unfolding executeWorkOrder_def routed_path_def Let_def
    by (rule any_result conjI impI allI path wp_mono [OF model_path_capability]
      | simp add: result_of_def split: option.split)+
qed

text \<open>
  C10: CRM work can never succeed through the queue. Whatever job payload the worker runs on the catalog
  built from its environment, the payload parser leaves the order without a capability input, so the CRM
  adapter throws before it sends anything; the orchestrator takes the error for one worth a retry, and no
  result it returns is a completed capability run.
\<close>

theorem crm_work_never_completes:
  assumes "start_worker pf encode vars resolve env numText = Inr cfg"
    and "parseWorkOrder payload = Inr w"
    and "run_buffered (worker_deps cfg) (read_gates readers w) s = (Inr (result, trace), s')"
  shows "(wx_status result = WS_completed \<longrightarrow> wx_capabilityId result = None)
    \<and> (\<forall>i adapter ctx x. resolve_capability (worker_deps cfg) i = Some adapter \<longrightarrow>
         (\<exists>e. cad_execute adapter (wo_capabilityInput w) ctx x = (Inl e, x) \<and> isRetryable (cad_classifyError adapter e)))"
proof -
  have input: "wo_capabilityInput w = JUndefined"
    using parsed_capabilityInput assms(2) .
  have ghl: "\<exists>ghl. adapter = ghl_capability_adapter pf encode ghl"
    if "resolve_capability (worker_deps cfg) i = Some adapter" for i adapter
    using that assms(1)
    by (auto simp: start_worker_def buildCapabilityCatalog_def and_then_Inr_iff resolve_capability_def worker_deps_def
        catalog_resolve_def catalog_register_def split: option.splits if_splits) blast
  have throws: "\<exists>e. cad_execute adapter (wo_capabilityInput w) ctx x = (Inl e, x) \<and> isRetryable (cad_classifyError adapter e)"
    if "resolve_capability (worker_deps cfg) i = Some adapter" for i adapter ctx x
    using ghl [OF that]
    by (auto simp: ghl_capability_adapter_def input ghl_without_input ghl_classifyError_def http_classifyError_def isRetryable_def)
  have "always_throws (with_buffer (worker_deps cfg)) (read_gates readers w)"
    unfolding always_throws_def
  proof (intro allI impI)
    fix i adapter and t :: "'a adapter_world buffered"
    assume "resolve_capability (with_buffer (worker_deps cfg)) i = Some adapter"
    then obtain a where a: "resolve_capability (worker_deps cfg) i = Some a" "adapter = lift_capability a"
      by (auto simp: resolve_lifted)
    obtain e where "cad_execute a (wo_capabilityInput w) (capability_context (read_gates readers w)) (bw_outer t)
        = (Inl e, bw_outer t)"
      using throws [OF a(1), of "capability_context (read_gates readers w)" "bw_outer t"] by blast
    then show "\<exists>e s'. cad_execute adapter (wo_capabilityInput (read_gates readers w)) (capability_context (read_gates readers w)) t
        = (Inl e, s')"
      by (simp add: a(2) lift_capability_def lift_outer_def read_gates_def)
  qed
  from orders_never_complete [OF this] assms(3)
  have "wx_status result = WS_completed \<longrightarrow> wx_capabilityId result = None"
    by (auto simp: run_buffered_def Let_def split: prod.splits sum.splits dest: wp_Inr)
  with throws show ?thesis by blast
qed

definition sample_vars :: "string \<Rightarrow> string option" where
  "sample_vars = [''GHL_TOKEN'' \<mapsto> ''tok'', ''GHL_LOCATION_ID'' \<mapsto> ''loc'']"

definition crm_payload :: js where
  "crm_payload = JObj [(''organizationId'', JStr ''org''), (''taskId'', JStr ''t1''),
     (''requiredCapabilities'', JArr [JStr ''crm''])]"

definition crm_world :: "(unit, unit adapter_world) worker" where
  "crm_world = \<lparr>ws_db = sample_db, ws_world = \<lparr>aw_outside = (), aw_usage = []\<rparr>, ws_ledger = [], ws_tick = 0\<rparr>"

theorem crm_work_never_completes_witness:
  "\<exists>cfg w result trace s'. start_worker sample_platform (\<lambda>_. ''c1'') sample_vars (\<lambda>_. None) sample_env (\<lambda>_. []) = Inr cfg
    \<and> parseWorkOrder crm_payload = Inr w
    \<and> run_buffered (worker_deps cfg) (read_gates sample_readers w) crm_world = (Inr (result, trace), s')
    \<and> (wx_status result = WS_completed \<longrightarrow> wx_capabilityId result = None)"
proof -
  obtain cfg where cfg: "start_worker sample_platform (\<lambda>_. ''c1'') sample_vars (\<lambda>_. None) sample_env (\<lambda>_. []) = Inr cfg"
    "reliable_adapters cfg"
    by (auto simp: start_worker_def buildCapabilityCatalog_def sample_vars_def new_ghl_adapter_def new_http_adapter_def
        sample_platform_def ghl_token_options_def reliable_adapters_def catalog_resolve_def catalog_register_def
        ghl_capability_adapter_def http_estimate_def last_usage_def gets_def ret_def)
  obtain w where w: "parseWorkOrder crm_payload = Inr w"
    by (simp add: parseWorkOrder_def crm_payload_def requireString_def stringArray_def
        optionalString_def optionalBoolean_def optionalNumber_def gate_field_def)
  obtain result trace s' where run:
    "run_buffered (worker_deps cfg) (read_gates sample_readers w) crm_world = (Inr (result, trace), s')"
    using run_buffered_reliable [OF cfg(2)] by blast
  from crm_work_never_completes [OF cfg(1) w run] cfg(1) w run show ?thesis by blast
qed

end
