(* ===== verification/Governance.thy ===== *)
theory Governance
  imports Database Approval Work_Routing
begin

text \<open>
  The rest of the Postgres schema (\<open>packages/db/src/schema/enums.ts\<close>, \<open>governance.ts\<close> and the task graph
  and delete rules of \<open>execution.ts\<close> and \<open>tenancy.ts\<close>): the enums as the texts their columns hold, the
  governance tables beside the database of \<open>Database\<close>, their constraints, the defaults of an insert, and
  the \<open>on delete\<close> rules of every reference. The lemmas show that the enums mirror the domain's unions,
  what deleting a tenant removes, and what the idempotency keys promise.
\<close>

section \<open>Enums (enums.ts)\<close>

definition scopeEnum :: "string list" where [donna_enum]:
  "scopeEnum = [''PRIVATE'', ''PROJECT'', ''TEAM'', ''ORGANIZATION'']"

definition roleEnum :: "string list" where [donna_enum]:
  "roleEnum = [''owner'', ''admin'', ''executive'', ''team_lead'', ''team_member'', ''contractor'']"

definition objectiveStatusEnum :: "string list" where [donna_enum]:
  "objectiveStatusEnum = [''draft'', ''active'', ''blocked'', ''completed'', ''cancelled'']"

definition riskLevelEnum :: "string list" where [donna_enum]:
  "riskLevelEnum = [''low'', ''medium'', ''high'', ''critical'']"

definition taskStatusEnum :: "string list" where [donna_enum]:
  "taskStatusEnum =
     [''pending'', ''planned'', ''assigned'', ''running'', ''blocked'', ''awaiting_approval'', ''checking'',
      ''completed'', ''failed'', ''cancelled'']"

definition executionClassEnum :: "string list" where [donna_enum]:
  "executionClassEnum =
     [''deterministic'', ''automation'', ''human'', ''browser'', ''coding_agent'', ''local_ai'', ''cloud_ai'']"

definition eventTypeEnum :: "string list" where [donna_enum]:
  "eventTypeEnum =
     [''objective.created'', ''task.created'', ''task.planned'', ''task.assigned'', ''worker.started'', ''tool.called'',
      ''artifact.created'', ''approval.requested'', ''approval.decided'', ''task.blocked'', ''task.retried'',
      ''task.completed'', ''task.failed'', ''memory.updated'', ''node.health_changed'', ''system.alert'']"

definition actorTypeEnum :: "string list" where [donna_enum]:
  "actorTypeEnum = [''human'', ''orchestrator'', ''adapter'', ''checker'']"

definition approvalDecisionEnum :: "string list" where [donna_enum]:
  "approvalDecisionEnum = [''pending'', ''approved'', ''rejected'', ''expired'']"

definition delegationStatusEnum :: "string list" where [donna_enum]:
  "delegationStatusEnum = [''proposed'', ''accepted'', ''in_progress'', ''completed'', ''escalated'', ''cancelled'']"

definition sourceConfidenceEnum :: "string list" where [donna_enum]:
  "sourceConfidenceEnum = [''AUTHORITATIVE'', ''PRIMARY'', ''DERIVED'', ''INFERRED'', ''UNVERIFIED'']"

text \<open>The texts and the member arrays of the unions that no other component needs.\<close>

fun objective_status_text :: "objective_status \<Rightarrow> string" where
  "objective_status_text OS_draft = ''draft''"
| "objective_status_text OS_active = ''active''"
| "objective_status_text OS_blocked = ''blocked''"
| "objective_status_text OS_completed = ''completed''"
| "objective_status_text OS_cancelled = ''cancelled''"

definition OBJECTIVE_STATUSES :: "objective_status list" where [donna_enum]:
  "OBJECTIVE_STATUSES = [OS_draft, OS_active, OS_blocked, OS_completed, OS_cancelled]"

fun task_status_text :: "task_status \<Rightarrow> string" where
  "task_status_text TS_pending = ''pending''"
| "task_status_text TS_planned = ''planned''"
| "task_status_text TS_assigned = ''assigned''"
| "task_status_text TS_running = ''running''"
| "task_status_text TS_blocked = ''blocked''"
| "task_status_text TS_awaiting_approval = ''awaiting_approval''"
| "task_status_text TS_checking = ''checking''"
| "task_status_text TS_completed = ''completed''"
| "task_status_text TS_failed = ''failed''"
| "task_status_text TS_cancelled = ''cancelled''"

definition TASK_STATUSES :: "task_status list" where [donna_enum]:
  "TASK_STATUSES =
     [TS_pending, TS_planned, TS_assigned, TS_running, TS_blocked, TS_awaiting_approval, TS_checking,
      TS_completed, TS_failed, TS_cancelled]"

definition EXECUTION_CLASSES :: "execution_class list" where [donna_enum]:
  "EXECUTION_CLASSES =
     [EC_deterministic, EC_automation, EC_human, EC_browser, EC_coding_agent, EC_local_ai, EC_cloud_ai]"

fun approval_decision_text :: "approval_decision \<Rightarrow> string" where
  "approval_decision_text DecisionPending = ''pending''"
| "approval_decision_text DecisionApproved = ''approved''"
| "approval_decision_text DecisionRejected = ''rejected''"
| "approval_decision_text DecisionExpired = ''expired''"

definition APPROVAL_DECISIONS :: "approval_decision list" where [donna_enum]:
  "APPROVAL_DECISIONS = [DecisionPending, DecisionApproved, DecisionRejected, DecisionExpired]"

fun source_confidence_text :: "source_confidence \<Rightarrow> string" where
  "source_confidence_text AUTHORITATIVE = ''AUTHORITATIVE''"
| "source_confidence_text PRIMARY = ''PRIMARY''"
| "source_confidence_text DERIVED = ''DERIVED''"
| "source_confidence_text INFERRED = ''INFERRED''"
| "source_confidence_text UNVERIFIED = ''UNVERIFIED''"

definition SOURCE_CONFIDENCE :: "source_confidence list" where [donna_enum]:
  "SOURCE_CONFIDENCE = [AUTHORITATIVE, PRIMARY, DERIVED, INFERRED, UNVERIFIED]"

datatype delegation_status =
    DS_proposed | DS_accepted | DS_in_progress | DS_completed | DS_escalated | DS_cancelled

fun delegation_status_text :: "delegation_status \<Rightarrow> string" where
  "delegation_status_text DS_proposed = ''proposed''"
| "delegation_status_text DS_accepted = ''accepted''"
| "delegation_status_text DS_in_progress = ''in_progress''"
| "delegation_status_text DS_completed = ''completed''"
| "delegation_status_text DS_escalated = ''escalated''"
| "delegation_status_text DS_cancelled = ''cancelled''"

text \<open>A column of an enum takes a text that the enum lists, and gives the value of that text.\<close>

definition column_value :: "string list \<Rightarrow> ('a \<Rightarrow> string) \<Rightarrow> 'a list \<Rightarrow> string \<Rightarrow> 'a option" where
  "column_value enum lit members t = (if t \<in> set enum then union_of_text lit members t else None)"

text \<open>An enum that mirrors a union of the domain, in the same order.\<close>

locale mirror = string_union +
  fixes enum :: "string list"
  assumes same_texts: "enum = map lit members"
begin

lemma column_roundtrip: "column_value enum lit members (lit x) = Some x"
  using members_all by (simp add: column_value_def same_texts)

lemma column_only_members: "column_value enum lit members t = Some x \<longleftrightarrow> t = lit x"
  using members_all by (auto simp: column_value_def same_texts of_text_iff)

lemma column_refuses: "column_value enum lit members t = None \<longleftrightarrow> (\<forall>x. t \<noteq> lit x)"
  using column_only_members by (metis not_None_eq option.distinct(1))

end

lemma mirrorI:
  assumes "string_union lit members" and "enum = map lit members"
  shows "mirror lit members enum"
  using assms by (simp add: mirror_def mirror_axioms_def)

interpretation role_column: mirror role_text ROLES roleEnum
  by unfold_locales (simp add: donna_enum)

interpretation event_type_column: mirror event_type_text EVENT_TYPES eventTypeEnum
  by unfold_locales (simp add: donna_enum)

interpretation actor_type_column: mirror actor_type_text ACTOR_TYPES actorTypeEnum
  by unfold_locales (simp add: donna_enum)

interpretation objective_status_column: mirror objective_status_text OBJECTIVE_STATUSES objectiveStatusEnum
  by (rule mirrorI, rule string_unionI) (simp add: donna_enum, (case_tac x; simp), simp_all add: donna_enum)

interpretation task_status_column: mirror task_status_text TASK_STATUSES taskStatusEnum
  by (rule mirrorI, rule string_unionI) (simp add: donna_enum, (case_tac x; simp), simp_all add: donna_enum)

interpretation execution_class_column: mirror execution_class_text EXECUTION_CLASSES executionClassEnum
  by (rule mirrorI, rule string_unionI) (simp add: donna_enum, (case_tac x; simp), simp_all add: donna_enum)

interpretation approval_decision_column: mirror approval_decision_text APPROVAL_DECISIONS approvalDecisionEnum
  by (rule mirrorI, rule string_unionI) (simp add: donna_enum, (case_tac x; simp), simp_all add: donna_enum)

interpretation source_confidence_column: mirror source_confidence_text SOURCE_CONFIDENCE sourceConfidenceEnum
  by (rule mirrorI, rule string_unionI) (simp add: donna_enum, (case_tac x; simp), simp_all add: donna_enum)

text \<open>The scope and the risk level of a request are not checked before they reach their columns.\<close>

lemma scope_column: "scope_text s \<in> set scopeEnum \<longleftrightarrow> scope_of_text (scope_text s) \<in> set SCOPES"
  unfolding scope_of_text_known [symmetric] by (simp add: isScope_def is_union_text_def SCOPES_def scopeEnum_def)

lemma risk_column: "risk_level_text r \<in> set riskLevelEnum \<longleftrightarrow> risk_level_of_text (risk_level_text r) \<in> set RISK_LEVELS"
  by (cases r)
    (auto simp: riskLevelEnum_def risk_level_of_text_def union_of_text_def RISK_LEVELS_def)

section \<open>Rows (governance.ts, execution.ts)\<close>

record dependency_row =
  td_organizationId :: ident
  td_taskId :: ident
  td_dependsOnTaskId :: ident

record approval_row =
  av_id :: ident
  av_organizationId :: ident
  av_taskId :: "ident option"
  av_requesterId :: ident
  av_proposedAction :: string
  av_targetResources :: js
  av_exactScope :: js
  av_riskLevel :: risk_level
  av_reason :: "string option"
  av_previewDiffRef :: "string option"
  av_decision :: approval_decision
  av_approverId :: "ident option"
  av_expiresAt :: "time option"
  av_decidedAt :: "time option"
  av_createdAt :: time

record delegation_row =
  dl_id :: ident
  dl_organizationId :: ident
  dl_objectiveId :: "ident option"
  dl_taskId :: "ident option"
  dl_delegatorId :: ident
  dl_ownerId :: ident
  dl_priority :: string
  dl_definitionOfDone :: string
  dl_dueAt :: "time option"
  dl_authorityBoundary :: string
  dl_escalationRules :: "js option"
  dl_status :: delegation_status
  dl_createdAt :: time

record audit_row =
  au_id :: ident
  au_organizationId :: ident
  au_actorType :: actor_type
  au_actorId :: string
  au_action :: string
  au_targetResource :: "string option"
  au_requestedScope :: "js option"
  au_approvedScope :: "js option"
  au_result :: string
  au_artifactRef :: "string option"
  au_createdAt :: time

record flag_row =
  fl_id :: ident
  fl_organizationId :: "ident option"
  fl_key :: string
  fl_enabled :: bool
  fl_rollout :: "js option"
  fl_createdAt :: time
  fl_updatedAt :: time

record key_row =
  ik_organizationId :: ident
  ik_key :: string
  ik_taskId :: "ident option"
  ik_resultRef :: "string option"
  ik_firstSeenAt :: time

record 'j governed =
  gv_db :: "'j db"
  gv_dependencies :: "dependency_row list"
  gv_approvals :: "approval_row list"
  gv_delegations :: "delegation_row list"
  gv_audit :: "audit_row list"
  gv_flags :: "flag_row list"
  gv_keys :: "key_row list"

section \<open>Constraints\<close>

definition user_ids :: "'j governed \<Rightarrow> ident list" where
  "user_ids g = map uw_id (db_users (gv_db g))"

definition objective_ids :: "'j governed \<Rightarrow> ident list" where
  "objective_ids g = map or_id (db_objectives (gv_db g))"

definition task_ids :: "'j governed \<Rightarrow> ident list" where
  "task_ids g = map kr_id (db_tasks (gv_db g))"

definition governance_constraints :: "(string \<times> ('j governed \<Rightarrow> bool)) list" where
  "governance_constraints =
    [(''task_dependencies_task_id_depends_on_task_id_pk'',
        \<lambda>g. unique_on (\<lambda>r. Some (td_taskId r, td_dependsOnTaskId r)) (gv_dependencies g)),
     (''task_dependencies_organization_id_organizations_id_fk'',
        \<lambda>g. refers (Some \<circ> td_organizationId) (gv_dependencies g) (org_ids (gv_db g))),
     (''task_deps_org_task_fk'',
        \<lambda>g. refers (\<lambda>r. Some (td_organizationId r, td_taskId r)) (gv_dependencies g) (org_tasks (gv_db g))),
     (''task_deps_org_depends_fk'',
        \<lambda>g. refers (\<lambda>r. Some (td_organizationId r, td_dependsOnTaskId r)) (gv_dependencies g) (org_tasks (gv_db g))),
     (''approvals_pkey'', \<lambda>g. unique_on (Some \<circ> av_id) (gv_approvals g)),
     (''enum risk_level of approvals'', \<lambda>g. set (map av_riskLevel (gv_approvals g)) \<subseteq> set RISK_LEVELS),
     (''approvals_organization_id_organizations_id_fk'',
        \<lambda>g. refers (Some \<circ> av_organizationId) (gv_approvals g) (org_ids (gv_db g))),
     (''approvals_task_id_tasks_id_fk'', \<lambda>g. refers av_taskId (gv_approvals g) (task_ids g)),
     (''approvals_requester_id_users_id_fk'', \<lambda>g. refers (Some \<circ> av_requesterId) (gv_approvals g) (user_ids g)),
     (''approvals_approver_id_users_id_fk'', \<lambda>g. refers av_approverId (gv_approvals g) (user_ids g)),
     (''delegations_pkey'', \<lambda>g. unique_on (Some \<circ> dl_id) (gv_delegations g)),
     (''delegations_organization_id_organizations_id_fk'',
        \<lambda>g. refers (Some \<circ> dl_organizationId) (gv_delegations g) (org_ids (gv_db g))),
     (''delegations_objective_id_objectives_id_fk'', \<lambda>g. refers dl_objectiveId (gv_delegations g) (objective_ids g)),
     (''delegations_task_id_tasks_id_fk'', \<lambda>g. refers dl_taskId (gv_delegations g) (task_ids g)),
     (''delegations_delegator_id_users_id_fk'', \<lambda>g. refers (Some \<circ> dl_delegatorId) (gv_delegations g) (user_ids g)),
     (''delegations_owner_id_users_id_fk'', \<lambda>g. refers (Some \<circ> dl_ownerId) (gv_delegations g) (user_ids g)),
     (''audit_events_pkey'', \<lambda>g. unique_on (Some \<circ> au_id) (gv_audit g)),
     (''audit_events_organization_id_organizations_id_fk'',
        \<lambda>g. refers (Some \<circ> au_organizationId) (gv_audit g) (org_ids (gv_db g))),
     (''feature_flags_pkey'', \<lambda>g. unique_on (Some \<circ> fl_id) (gv_flags g)),
     (''feature_flags_organization_id_organizations_id_fk'',
        \<lambda>g. refers fl_organizationId (gv_flags g) (org_ids (gv_db g))),
     (''feature_flags_org_key_unique'',
        \<lambda>g. unique_on (\<lambda>f. map_option (\<lambda>i. (i, fl_key f)) (fl_organizationId f)) (gv_flags g)),
     (''idempotency_keys_organization_id_organizations_id_fk'',
        \<lambda>g. refers (Some \<circ> ik_organizationId) (gv_keys g) (org_ids (gv_db g))),
     (''idempotency_keys_org_key_unique'',
        \<lambda>g. unique_on (\<lambda>r. Some (ik_organizationId r, ik_key r)) (gv_keys g)),
     (''idempotency_keys_task_id_tasks_id_fk'', \<lambda>g. refers ik_taskId (gv_keys g) (task_ids g))]"

definition governed_constraints :: "(string \<times> ('j governed \<Rightarrow> bool)) list" where
  "governed_constraints =
     map (\<lambda>c. (fst c, \<lambda>g. snd c (gv_db g))) (tenancy_constraints @ execution_constraints) @ governance_constraints"

definition governed_ok :: "'j governed \<Rightarrow> bool" where
  "governed_ok g = (db_ok (gv_db g) \<and> (\<forall>c \<in> set governance_constraints. snd c g))"

lemma governed_ok_all: "governed_ok g \<longleftrightarrow> (\<forall>c \<in> set governed_constraints. snd c g)"
  by (auto simp: governed_ok_def governed_constraints_def db_ok_def ball_Un)

definition governed_statement :: "('j governed \<Rightarrow> 'j governed) \<Rightarrow> ('j governed, exn, unit) act" where
  "governed_statement = statement_under governed_constraints"

lemma governed_statement_ok: "governed_ok (f g) \<Longrightarrow> governed_statement f g = (Inr (), f g)"
  by (auto simp: governed_statement_def statement_under_def governed_ok_all split: option.split dest: find_SomeD)

lemma governed_statement_refused:
  "\<not> governed_ok (f g) \<Longrightarrow> \<exists>c. governed_statement f g = (Inl (DbError c), g)"
  by (auto simp: governed_statement_def statement_under_def governed_ok_all find_None_conv split: option.split)

section \<open>Inserts and their defaults\<close>

text \<open>The values a row takes where the insert leaves its columns out; the id and the time come with it.\<close>

definition new_approval :: "ident \<Rightarrow> time \<Rightarrow> ident \<Rightarrow> ident \<Rightarrow> string \<Rightarrow> approval_row" where
  "new_approval i now org requester action =
     \<lparr>av_id = i, av_organizationId = org, av_taskId = None, av_requesterId = requester, av_proposedAction = action,
      av_targetResources = JArr [], av_exactScope = JObj [], av_riskLevel = RiskHigh, av_reason = None,
      av_previewDiffRef = None, av_decision = DecisionPending, av_approverId = None, av_expiresAt = None,
      av_decidedAt = None, av_createdAt = now\<rparr>"

definition new_delegation :: "ident \<Rightarrow> time \<Rightarrow> ident \<Rightarrow> ident \<Rightarrow> ident \<Rightarrow> string \<Rightarrow> delegation_row" where
  "new_delegation i now org delegator owner dod =
     \<lparr>dl_id = i, dl_organizationId = org, dl_objectiveId = None, dl_taskId = None, dl_delegatorId = delegator,
      dl_ownerId = owner, dl_priority = ''normal'', dl_definitionOfDone = dod, dl_dueAt = None,
      dl_authorityBoundary = ''1'', dl_escalationRules = None, dl_status = DS_proposed, dl_createdAt = now\<rparr>"

definition new_flag :: "ident \<Rightarrow> time \<Rightarrow> ident option \<Rightarrow> string \<Rightarrow> flag_row" where
  "new_flag i now org key =
     \<lparr>fl_id = i, fl_organizationId = org, fl_key = key, fl_enabled = False, fl_rollout = None,
      fl_createdAt = now, fl_updatedAt = now\<rparr>"

definition insert_approval :: "approval_row \<Rightarrow> ('j governed, exn, unit) act" where
  "insert_approval row = governed_statement (\<lambda>g. g\<lparr>gv_approvals := gv_approvals g @ [row]\<rparr>)"

definition insert_delegation :: "delegation_row \<Rightarrow> ('j governed, exn, unit) act" where
  "insert_delegation row = governed_statement (\<lambda>g. g\<lparr>gv_delegations := gv_delegations g @ [row]\<rparr>)"

definition insert_audit :: "audit_row \<Rightarrow> ('j governed, exn, unit) act" where
  "insert_audit row = governed_statement (\<lambda>g. g\<lparr>gv_audit := gv_audit g @ [row]\<rparr>)"

definition insert_flag :: "flag_row \<Rightarrow> ('j governed, exn, unit) act" where
  "insert_flag row = governed_statement (\<lambda>g. g\<lparr>gv_flags := gv_flags g @ [row]\<rparr>)"

definition claim_key :: "key_row \<Rightarrow> ('j governed, exn, unit) act" where
  "claim_key row = governed_statement (\<lambda>g. g\<lparr>gv_keys := gv_keys g @ [row]\<rparr>)"

section \<open>Deletes\<close>

text \<open>
  The rows a delete names, by their ids in the tables of organizations, users, teams, projects, objectives
  and tasks. \<open>on delete cascade\<close> adds the rows that refer to them, \<open>set null\<close> empties the reference, and
  every other reference is checked when the statement ends.
\<close>

record doomed =
  dm_orgs :: "ident list"
  dm_users :: "ident list"
  dm_teams :: "ident list"
  dm_projects :: "ident list"
  dm_objectives :: "ident list"
  dm_tasks :: "ident list"

definition nothing_doomed :: doomed where
  "nothing_doomed =
     \<lparr>dm_orgs = [], dm_users = [], dm_teams = [], dm_projects = [], dm_objectives = [], dm_tasks = []\<rparr>"

definition set_null :: "ident list \<Rightarrow> ident option \<Rightarrow> ident option" where
  "set_null gone r = (case r of None \<Rightarrow> None | Some i \<Rightarrow> if i \<in> set gone then None else Some i)"

definition cascaded :: "doomed \<Rightarrow> 'j db \<Rightarrow> doomed" where
  "cascaded m d =
     (let orgs = dm_orgs m;
          objectives = map or_id (filter (\<lambda>r. or_organizationId r \<in> set orgs \<or> or_id r \<in> set (dm_objectives m)) (db_objectives d))
      in \<lparr>dm_orgs = orgs,
          dm_users = map uw_id (filter (\<lambda>r. uw_organizationId r \<in> set orgs \<or> uw_id r \<in> set (dm_users m)) (db_users d)),
          dm_teams = map tw_id (filter (\<lambda>r. tw_organizationId r \<in> set orgs \<or> tw_id r \<in> set (dm_teams m)) (db_teams d)),
          dm_projects = map jw_id (filter (\<lambda>r. jw_organizationId r \<in> set orgs \<or> jw_id r \<in> set (dm_projects m)) (db_projects d)),
          dm_objectives = objectives,
          dm_tasks = map kr_id (filter (\<lambda>r. kr_organizationId r \<in> set orgs \<or> kr_objectiveId r \<in> set objectives
            \<or> kr_id r \<in> set (dm_tasks m)) (db_tasks d))\<rparr>)"

definition delete_db :: "doomed \<Rightarrow> 'j db \<Rightarrow> 'j db" where
  "delete_db c d =
     d\<lparr>db_orgs := filter (\<lambda>r. og_id r \<notin> set (dm_orgs c)) (db_orgs d),
       db_users := filter (\<lambda>r. uw_id r \<notin> set (dm_users c)) (db_users d),
       db_teams := filter (\<lambda>r. tw_id r \<notin> set (dm_teams c)) (db_teams d),
       db_memberships := map (\<lambda>r. r\<lparr>mw_teamId := set_null (dm_teams c) (mw_teamId r)\<rparr>)
         (filter (\<lambda>r. mw_organizationId r \<notin> set (dm_orgs c) \<and> mw_userId r \<notin> set (dm_users c)) (db_memberships d)),
       db_projects := filter (\<lambda>r. jw_id r \<notin> set (dm_projects c)) (db_projects d),
       db_projectMemberships := filter (\<lambda>r. pw_organizationId r \<notin> set (dm_orgs c)
         \<and> pw_projectId r \<notin> set (dm_projects c) \<and> pw_userId r \<notin> set (dm_users c)) (db_projectMemberships d),
       db_objectives := map (\<lambda>r. r\<lparr>or_projectId := set_null (dm_projects c) (or_projectId r)\<rparr>)
         (filter (\<lambda>r. or_id r \<notin> set (dm_objectives c)) (db_objectives d)),
       db_tasks := map (\<lambda>r. r\<lparr>kr_parentTaskId := set_null (dm_tasks c) (kr_parentTaskId r)\<rparr>)
         (filter (\<lambda>r. kr_id r \<notin> set (dm_tasks c)) (db_tasks d)),
       db_events := map (\<lambda>r. r\<lparr>er_objectiveId := set_null (dm_objectives c) (er_objectiveId r),
           er_taskId := set_null (dm_tasks c) (er_taskId r)\<rparr>)
         (filter (\<lambda>r. er_organizationId r \<notin> set (dm_orgs c)) (db_events d))\<rparr>"

text \<open>Whether a reference points to a deleted row.\<close>

definition points_to :: "ident list \<Rightarrow> ident option \<Rightarrow> bool" where
  "points_to gone r = (case r of None \<Rightarrow> False | Some i \<Rightarrow> i \<in> set gone)"

definition delete_governed :: "doomed \<Rightarrow> 'j governed \<Rightarrow> 'j governed" where
  "delete_governed m g =
     (let c = cascaded m (gv_db g) in
      \<lparr>gv_db = delete_db c (gv_db g),
       gv_dependencies = filter (\<lambda>r. td_organizationId r \<notin> set (dm_orgs c) \<and> td_taskId r \<notin> set (dm_tasks c)
         \<and> td_dependsOnTaskId r \<notin> set (dm_tasks c)) (gv_dependencies g),
       gv_approvals = filter (\<lambda>r. av_organizationId r \<notin> set (dm_orgs c) \<and> \<not> points_to (dm_tasks c) (av_taskId r))
         (gv_approvals g),
       gv_delegations = filter (\<lambda>r. dl_organizationId r \<notin> set (dm_orgs c)
         \<and> \<not> points_to (dm_objectives c) (dl_objectiveId r) \<and> \<not> points_to (dm_tasks c) (dl_taskId r)) (gv_delegations g),
       gv_audit = filter (\<lambda>r. au_organizationId r \<notin> set (dm_orgs c)) (gv_audit g),
       gv_flags = filter (\<lambda>r. \<not> points_to (dm_orgs c) (fl_organizationId r)) (gv_flags g),
       gv_keys = map (\<lambda>r. r\<lparr>ik_taskId := set_null (dm_tasks c) (ik_taskId r)\<rparr>)
         (filter (\<lambda>r. ik_organizationId r \<notin> set (dm_orgs c)) (gv_keys g))\<rparr>)"

definition delete_rows :: "doomed \<Rightarrow> ('j governed, exn, unit) act" where
  "delete_rows m = governed_statement (delete_governed m)"

section \<open>Deleting a tenant\<close>

definition tenant_doomed :: "ident \<Rightarrow> doomed" where
  "tenant_doomed i = nothing_doomed\<lparr>dm_orgs := [i]\<rparr>"

definition without_tenant :: "ident \<Rightarrow> 'j db \<Rightarrow> 'j db" where
  "without_tenant i d =
     d\<lparr>db_orgs := filter (\<lambda>r. og_id r \<noteq> i) (db_orgs d),
       db_users := filter (\<lambda>r. uw_organizationId r \<noteq> i) (db_users d),
       db_teams := filter (\<lambda>r. tw_organizationId r \<noteq> i) (db_teams d),
       db_memberships := filter (\<lambda>r. mw_organizationId r \<noteq> i) (db_memberships d),
       db_projects := filter (\<lambda>r. jw_organizationId r \<noteq> i) (db_projects d),
       db_projectMemberships := filter (\<lambda>r. pw_organizationId r \<noteq> i) (db_projectMemberships d),
       db_objectives := filter (\<lambda>r. or_organizationId r \<noteq> i) (db_objectives d),
       db_tasks := filter (\<lambda>r. kr_organizationId r \<noteq> i) (db_tasks d),
       db_events := filter (\<lambda>r. er_organizationId r \<noteq> i) (db_events d)\<rparr>"

lemma unique_on_filter: "unique_on k xs \<Longrightarrow> unique_on k (filter P xs)"
  by (induction xs) (auto simp: unique_on_def set_map_filter_Some split: option.splits)

lemma refers_filter:
  assumes "refers k rows targets" and "\<And>r x. r \<in> set rows \<Longrightarrow> P r \<Longrightarrow> k r = Some x \<Longrightarrow> Q x"
  shows "refers k (filter P rows) (filter Q targets)"
  unfolding refers_def using refersD [OF assms(1)] assms(2) by (auto simp: set_map_filter_Some)

text \<open>The constraints as facts on the lists.\<close>

lemma db_ok_facts:
  assumes "db_ok d"
  shows "unique_on (Some \<circ> uw_id) (db_users d)" "unique_on (Some \<circ> tw_id) (db_teams d)"
    "unique_on (Some \<circ> jw_id) (db_projects d)" "unique_on (Some \<circ> or_id) (db_objectives d)"
    "unique_on (Some \<circ> kr_id) (db_tasks d)"
    "refers (\<lambda>m. Some (mw_organizationId m, mw_userId m)) (db_memberships d) (org_users d)"
    "refers (\<lambda>m. map_option (Pair (mw_organizationId m)) (mw_teamId m)) (db_memberships d) (org_teams d)"
    "refers (\<lambda>p. Some (pw_organizationId p, pw_projectId p)) (db_projectMemberships d) (org_projects d)"
    "refers (\<lambda>p. Some (pw_organizationId p, pw_userId p)) (db_projectMemberships d) (org_users d)"
    "refers (\<lambda>r. map_option (Pair (or_organizationId r)) (or_projectId r)) (db_objectives d) (org_projects d)"
    "refers (\<lambda>r. Some (kr_organizationId r, kr_objectiveId r)) (db_tasks d) (org_objectives d)"
    "refers (\<lambda>r. map_option (Pair (kr_organizationId r)) (kr_parentTaskId r)) (db_tasks d) (org_tasks d)"
    "refers (\<lambda>r. map_option (Pair (er_organizationId r)) (er_objectiveId r)) (db_events d) (org_objectives d)"
    "refers (\<lambda>r. map_option (Pair (er_organizationId r)) (er_taskId r)) (db_events d) (org_tasks d)"
  using assms by (simp_all add: db_ok_def tenancy_constraints_def donna_constraints)

text \<open>
  With ids unique, an id is among those of the tenant's rows exactly when its row is the tenant's; a
  reference that must stay in its row's tenant then points to one of them exactly when its row does.
\<close>

lemma id_of_tenant:
  assumes "unique_on (Some \<circ> key) rows" and "r \<in> set rows"
  shows "key r \<in> set (map key (filter (\<lambda>x. org x = i) rows)) \<longleftrightarrow> org r = i"
proof
  assume "key r \<in> set (map key (filter (\<lambda>x. org x = i) rows))"
  then obtain x where "x \<in> set rows" "org x = i" "key x = key r" by auto
  with unique_onD [OF assms(1) assms(2), of x "key r"] show "org r = i" by simp
qed (use assms(2) in auto)

lemma reference_of_tenant:
  assumes "unique_on (Some \<circ> key) rows" and "(o', k) \<in> set (map (\<lambda>x. (org x, key x)) rows)"
  shows "k \<in> set (map key (filter (\<lambda>x. org x = i) rows)) \<longleftrightarrow> o' = i"
proof -
  obtain x where "x \<in> set rows" "org x = o'" "key x = k" using assms(2) by auto
  with id_of_tenant [OF assms(1), of x org i] show ?thesis by simp
qed

lemma cascaded_tenant:
  fixes i
  assumes ok: "db_ok d"
  defines "c \<equiv> cascaded (tenant_doomed i) d"
  shows "dm_orgs c = [i]"
    "dm_users c = map uw_id (filter (\<lambda>r. uw_organizationId r = i) (db_users d))"
    "dm_teams c = map tw_id (filter (\<lambda>r. tw_organizationId r = i) (db_teams d))"
    "dm_projects c = map jw_id (filter (\<lambda>r. jw_organizationId r = i) (db_projects d))"
    "dm_objectives c = map or_id (filter (\<lambda>r. or_organizationId r = i) (db_objectives d))"
    "dm_tasks c = map kr_id (filter (\<lambda>r. kr_organizationId r = i) (db_tasks d))"
proof -
  show "dm_orgs c = [i]"
    "dm_users c = map uw_id (filter (\<lambda>r. uw_organizationId r = i) (db_users d))"
    "dm_teams c = map tw_id (filter (\<lambda>r. tw_organizationId r = i) (db_teams d))"
    "dm_projects c = map jw_id (filter (\<lambda>r. jw_organizationId r = i) (db_projects d))"
    "dm_objectives c = map or_id (filter (\<lambda>r. or_organizationId r = i) (db_objectives d))"
    by (simp_all add: c_def cascaded_def tenant_doomed_def nothing_doomed_def Let_def)
  have "kr_objectiveId r \<in> set (map or_id (filter (\<lambda>r. or_organizationId r = i) (db_objectives d))) \<longleftrightarrow> kr_organizationId r = i"
    if "r \<in> set (db_tasks d)" for r
    using refersD [OF db_ok_facts(11) [OF ok] that]
    by (intro reference_of_tenant [OF db_ok_facts(4) [OF ok]]) (simp add: org_objectives_def)
  then show "dm_tasks c = map kr_id (filter (\<lambda>r. kr_organizationId r = i) (db_tasks d))"
    by (auto simp: c_def cascaded_def tenant_doomed_def nothing_doomed_def Let_def intro!: filter_cong arg_cong [of _ _ "map kr_id"])
qed

lemma rows_of_tenant:
  assumes "unique_on (Some \<circ> key) rows"
  shows "filter (\<lambda>r. key r \<notin> set (map key (filter (\<lambda>x. org x = i) rows))) rows = filter (\<lambda>r. org r \<noteq> i) rows"
  using id_of_tenant [OF assms, of _ org i] by (intro filter_cong) auto

text \<open>A reference of a surviving row is not emptied.\<close>

lemma reference_survives:
  assumes "refers (\<lambda>r. map_option (Pair (org r)) (ref r)) rows (map (\<lambda>x. (owner x, key x)) targets)"
    and "unique_on (Some \<circ> key) targets" and "r \<in> set rows" and "org r \<noteq> i"
  shows "set_null (map key (filter (\<lambda>x. owner x = i) targets)) (ref r) = ref r"
    and "\<not> points_to (map key (filter (\<lambda>x. owner x = i) targets)) (ref r)"
proof -
  have "k \<notin> set (map key (filter (\<lambda>x. owner x = i) targets))" if "ref r = Some k" for k
    using reference_of_tenant [OF assms(2), of "org r" k owner i] refersD [OF assms(1,3), of "(org r, k)"] that assms(4)
    by auto
  then show "set_null (map key (filter (\<lambda>x. owner x = i) targets)) (ref r) = ref r"
    and "\<not> points_to (map key (filter (\<lambda>x. owner x = i) targets)) (ref r)"
    by (auto simp: set_null_def points_to_def split: option.split)
qed

lemma map_filter_same:
  "(\<And>r. r \<in> set rows \<Longrightarrow> P r \<longleftrightarrow> Q r) \<Longrightarrow> (\<And>r. r \<in> set rows \<Longrightarrow> Q r \<Longrightarrow> f r = r) \<Longrightarrow>
     map f (filter P rows) = filter Q rows"
  by (induction rows) auto

lemma delete_db_tenant:
  assumes ok: "db_ok d"
  shows "delete_db (cascaded (tenant_doomed i) d) d = without_tenant i d"
proof -
  note c = cascaded_tenant [OF ok, of i]
  note facts = db_ok_facts [OF ok]
  let ?users = "map uw_id (filter (\<lambda>r. uw_organizationId r = i) (db_users d))"
  let ?teams = "map tw_id (filter (\<lambda>r. tw_organizationId r = i) (db_teams d))"
  let ?projects = "map jw_id (filter (\<lambda>r. jw_organizationId r = i) (db_projects d))"
  let ?objectives = "map or_id (filter (\<lambda>r. or_organizationId r = i) (db_objectives d))"
  let ?tasks = "map kr_id (filter (\<lambda>r. kr_organizationId r = i) (db_tasks d))"
  have memberships: "map (\<lambda>r. r\<lparr>mw_teamId := set_null ?teams (mw_teamId r)\<rparr>)
      (filter (\<lambda>r. mw_organizationId r \<notin> set [i] \<and> mw_userId r \<notin> set ?users) (db_memberships d))
    = filter (\<lambda>r. mw_organizationId r \<noteq> i) (db_memberships d)"
  proof (rule map_filter_same)
    fix r assume r: "r \<in> set (db_memberships d)"
    show "(mw_organizationId r \<notin> set [i] \<and> mw_userId r \<notin> set ?users) = (mw_organizationId r \<noteq> i)"
      using reference_of_tenant [OF facts(1), of "mw_organizationId r" "mw_userId r" uw_organizationId i]
        refersD [OF facts(6) r] by (auto simp: org_users_def)
    assume "mw_organizationId r \<noteq> i"
    with reference_survives(1) [OF facts(7) [unfolded org_teams_def] facts(2) r]
    show "r\<lparr>mw_teamId := set_null ?teams (mw_teamId r)\<rparr> = r" by simp
  qed
  have projects: "filter (\<lambda>r. pw_organizationId r \<notin> set [i] \<and> pw_projectId r \<notin> set ?projects \<and> pw_userId r \<notin> set ?users)
      (db_projectMemberships d) = filter (\<lambda>r. pw_organizationId r \<noteq> i) (db_projectMemberships d)"
  proof (rule filter_cong)
    fix r assume r: "r \<in> set (db_projectMemberships d)"
    show "(pw_organizationId r \<notin> set [i] \<and> pw_projectId r \<notin> set ?projects \<and> pw_userId r \<notin> set ?users)
        = (pw_organizationId r \<noteq> i)"
      using reference_of_tenant [OF facts(3), of "pw_organizationId r" "pw_projectId r" jw_organizationId i]
        reference_of_tenant [OF facts(1), of "pw_organizationId r" "pw_userId r" uw_organizationId i]
        refersD [OF facts(8) r] refersD [OF facts(9) r] by (auto simp: org_users_def org_projects_def)
  qed simp
  have objectives: "map (\<lambda>r. r\<lparr>or_projectId := set_null ?projects (or_projectId r)\<rparr>)
      (filter (\<lambda>r. or_id r \<notin> set ?objectives) (db_objectives d)) = filter (\<lambda>r. or_organizationId r \<noteq> i) (db_objectives d)"
    using reference_survives(1) [OF facts(10) [unfolded org_projects_def] facts(3)]
      id_of_tenant [OF facts(4), of _ or_organizationId i]
    by (intro map_filter_same) (blast, simp)
  have tasks: "map (\<lambda>r. r\<lparr>kr_parentTaskId := set_null ?tasks (kr_parentTaskId r)\<rparr>)
      (filter (\<lambda>r. kr_id r \<notin> set ?tasks) (db_tasks d)) = filter (\<lambda>r. kr_organizationId r \<noteq> i) (db_tasks d)"
    using reference_survives(1) [OF facts(12) [unfolded org_tasks_def] facts(5)]
      id_of_tenant [OF facts(5), of _ kr_organizationId i]
    by (intro map_filter_same) (blast, simp)
  have rows: "map (\<lambda>r. r\<lparr>er_objectiveId := set_null ?objectives (er_objectiveId r), er_taskId := set_null ?tasks (er_taskId r)\<rparr>)
      (filter (\<lambda>r. er_organizationId r \<notin> set [i]) (db_events d)) = filter (\<lambda>r. er_organizationId r \<noteq> i) (db_events d)"
    using reference_survives(1) [OF facts(13) [unfolded org_objectives_def] facts(4)]
      reference_survives(1) [OF facts(14) [unfolded org_tasks_def] facts(5)]
    by (intro map_filter_same) auto
  show ?thesis
    unfolding delete_db_def without_tenant_def c memberships projects objectives tasks rows
      rows_of_tenant [OF facts(1)] rows_of_tenant [OF facts(2)] rows_of_tenant [OF facts(3)]
    by simp
qed

lemma tenant_lists:
  "org_ids (without_tenant i d) = filter (\<lambda>x. x \<noteq> i) (org_ids d)"
  "org_users (without_tenant i d) = filter (\<lambda>x. fst x \<noteq> i) (org_users d)"
  "org_teams (without_tenant i d) = filter (\<lambda>x. fst x \<noteq> i) (org_teams d)"
  "org_projects (without_tenant i d) = filter (\<lambda>x. fst x \<noteq> i) (org_projects d)"
  "org_objectives (without_tenant i d) = filter (\<lambda>x. fst x \<noteq> i) (org_objectives d)"
  "org_tasks (without_tenant i d) = filter (\<lambda>x. fst x \<noteq> i) (org_tasks d)"
  by (simp_all add: without_tenant_def org_ids_def org_users_def org_teams_def org_projects_def org_objectives_def
      org_tasks_def filter_map comp_def)

lemma without_tenant_ok:
  assumes "db_ok d"
  shows "db_ok (without_tenant i d)"
  using assms
  by (auto simp: db_ok_def tenancy_constraints_def donna_constraints tenant_lists)
    (auto simp: without_tenant_def intro!: unique_on_filter refers_filter)

text \<open>
  The governance tables refer to users, tasks and objectives by their ids alone, so the schema does not keep
  such a reference inside the tenant of its row; \<open>tenant_local\<close> says that the rows do.
\<close>

definition tenant_local :: "'j governed \<Rightarrow> bool" where
  "tenant_local g \<longleftrightarrow>
     refers (\<lambda>r. map_option (Pair (av_organizationId r)) (av_taskId r)) (gv_approvals g) (org_tasks (gv_db g))
     \<and> refers (\<lambda>r. Some (av_organizationId r, av_requesterId r)) (gv_approvals g) (org_users (gv_db g))
     \<and> refers (\<lambda>r. map_option (Pair (av_organizationId r)) (av_approverId r)) (gv_approvals g) (org_users (gv_db g))
     \<and> refers (\<lambda>r. map_option (Pair (dl_organizationId r)) (dl_objectiveId r)) (gv_delegations g) (org_objectives (gv_db g))
     \<and> refers (\<lambda>r. map_option (Pair (dl_organizationId r)) (dl_taskId r)) (gv_delegations g) (org_tasks (gv_db g))
     \<and> refers (\<lambda>r. Some (dl_organizationId r, dl_delegatorId r)) (gv_delegations g) (org_users (gv_db g))
     \<and> refers (\<lambda>r. Some (dl_organizationId r, dl_ownerId r)) (gv_delegations g) (org_users (gv_db g))
     \<and> refers (\<lambda>r. map_option (Pair (ik_organizationId r)) (ik_taskId r)) (gv_keys g) (org_tasks (gv_db g))"

definition without_governed :: "ident \<Rightarrow> 'j governed \<Rightarrow> 'j governed" where
  "without_governed i g =
     \<lparr>gv_db = without_tenant i (gv_db g),
      gv_dependencies = filter (\<lambda>r. td_organizationId r \<noteq> i) (gv_dependencies g),
      gv_approvals = filter (\<lambda>r. av_organizationId r \<noteq> i) (gv_approvals g),
      gv_delegations = filter (\<lambda>r. dl_organizationId r \<noteq> i) (gv_delegations g),
      gv_audit = filter (\<lambda>r. au_organizationId r \<noteq> i) (gv_audit g),
      gv_flags = filter (\<lambda>r. fl_organizationId r \<noteq> Some i) (gv_flags g),
      gv_keys = filter (\<lambda>r. ik_organizationId r \<noteq> i) (gv_keys g)\<rparr>"

lemma delete_governed_tenant:
  assumes "governed_ok g" and "tenant_local g"
  shows "delete_governed (tenant_doomed i) g = without_governed i g"
proof -
  have ok: "db_ok (gv_db g)" using assms(1) by (simp add: governed_ok_def)
  note c = cascaded_tenant [OF ok, of i]
  note facts = db_ok_facts [OF ok]
  note locals = assms(2) [unfolded tenant_local_def org_tasks_def org_users_def org_objectives_def]
  let ?objectives = "map or_id (filter (\<lambda>r. or_organizationId r = i) (db_objectives (gv_db g)))"
  let ?tasks = "map kr_id (filter (\<lambda>r. kr_organizationId r = i) (db_tasks (gv_db g)))"
  have deps: "refers (\<lambda>r. map_option (Pair (td_organizationId r)) (Some (td_taskId r))) (gv_dependencies g)
      (map (\<lambda>r. (kr_organizationId r, kr_id r)) (db_tasks (gv_db g)))"
    "refers (\<lambda>r. map_option (Pair (td_organizationId r)) (Some (td_dependsOnTaskId r))) (gv_dependencies g)
      (map (\<lambda>r. (kr_organizationId r, kr_id r)) (db_tasks (gv_db g)))"
    using assms(1) by (simp_all add: governed_ok_def governance_constraints_def org_tasks_def)
  note tasks = reference_survives [where key = kr_id and owner = kr_organizationId, OF _ facts(5)]
  have "filter (\<lambda>r. td_organizationId r \<notin> set [i] \<and> td_taskId r \<notin> set ?tasks \<and> td_dependsOnTaskId r \<notin> set ?tasks) (gv_dependencies g)
      = filter (\<lambda>r. td_organizationId r \<noteq> i) (gv_dependencies g)"
    using tasks(2) [OF deps(1), of _ i, unfolded points_to_def option.case]
      tasks(2) [OF deps(2), of _ i, unfolded points_to_def option.case]
    by (intro filter_cong) (auto simp del: set_map set_filter)
  moreover have "filter (\<lambda>r. av_organizationId r \<notin> set [i] \<and> \<not> points_to ?tasks (av_taskId r)) (gv_approvals g)
      = filter (\<lambda>r. av_organizationId r \<noteq> i) (gv_approvals g)"
    using tasks(2) [where ref = av_taskId and org = av_organizationId, of "gv_approvals g"] locals by (intro filter_cong) auto
  moreover have "filter (\<lambda>r. dl_organizationId r \<notin> set [i] \<and> \<not> points_to ?objectives (dl_objectiveId r)
        \<and> \<not> points_to ?tasks (dl_taskId r)) (gv_delegations g)
      = filter (\<lambda>r. dl_organizationId r \<noteq> i) (gv_delegations g)"
    using tasks(2) [where ref = dl_taskId and org = dl_organizationId, of "gv_delegations g"]
      reference_survives(2) [where key = or_id and owner = or_organizationId and ref = dl_objectiveId and org = dl_organizationId,
        OF _ facts(4), of "gv_delegations g"] locals
    by (intro filter_cong) auto
  moreover have "map (\<lambda>r. r\<lparr>ik_taskId := set_null ?tasks (ik_taskId r)\<rparr>) (filter (\<lambda>r. ik_organizationId r \<notin> set [i]) (gv_keys g))
      = filter (\<lambda>r. ik_organizationId r \<noteq> i) (gv_keys g)"
    using tasks(1) [where ref = ik_taskId and org = ik_organizationId, of "gv_keys g"] locals by (intro map_filter_same) auto
  moreover have "filter (\<lambda>r. \<not> points_to [i] (fl_organizationId r)) (gv_flags g) = filter (\<lambda>r. fl_organizationId r \<noteq> Some i) (gv_flags g)"
    by (intro filter_cong) (auto simp: points_to_def split: option.split)
  ultimately show ?thesis
    unfolding delete_governed_def without_governed_def Let_def c delete_db_tenant [OF ok] by simp
qed

lemma refers_ids:
  assumes "refers (\<lambda>r. map_option (Pair (org r)) (ref r)) rows targets"
  shows "refers ref (filter (\<lambda>r. org r \<noteq> i) rows) (map snd (filter (\<lambda>x. fst x \<noteq> i) targets))"
  unfolding refers_def
proof
  fix k assume "k \<in> set (List.map_filter ref (filter (\<lambda>r. org r \<noteq> i) rows))"
  then obtain r where r: "r \<in> set rows" "org r \<noteq> i" "ref r = Some k" by (auto simp: set_map_filter_Some)
  with refersD [OF assms r(1), of "(org r, k)"] show "k \<in> set (map snd (filter (\<lambda>x. fst x \<noteq> i) targets))" by force
qed

lemma without_governed_ok:
  assumes ok: "governed_ok g" and local: "tenant_local g"
  shows "governed_ok (without_governed i g)"
proof -
  have ids: "user_ids (without_governed i g) = map snd (filter (\<lambda>x. fst x \<noteq> i) (org_users (gv_db g)))"
    "task_ids (without_governed i g) = map snd (filter (\<lambda>x. fst x \<noteq> i) (org_tasks (gv_db g)))"
    "objective_ids (without_governed i g) = map snd (filter (\<lambda>x. fst x \<noteq> i) (org_objectives (gv_db g)))"
    by (simp_all add: user_ids_def task_ids_def objective_ids_def without_governed_def without_tenant_def
        org_users_def org_tasks_def org_objectives_def filter_map comp_def)
  have db: "gv_db (without_governed i g) = without_tenant i (gv_db g)" by (simp add: without_governed_def)
  have "\<forall>c \<in> set governance_constraints. snd c (without_governed i g)"
    using ok local unfolding governed_ok_def tenant_local_def
    by (simp add: governance_constraints_def ids db tenant_lists)
      (auto simp: without_governed_def intro!: unique_on_filter refers_filter
        refers_ids [where org = av_organizationId] refers_ids [where org = dl_organizationId]
        refers_ids [where org = ik_organizationId])
  with without_tenant_ok [of "gv_db g" i] ok show ?thesis by (simp add: governed_ok_def db)
qed

section \<open>Idempotency keys\<close>

text \<open>The statements that may run against the governance tables, and the claims of a key that succeed in a run.\<close>

datatype governed_op =
    Claim key_row
  | Delete doomed
  | Insert_approval approval_row
  | Insert_delegation delegation_row
  | Insert_audit audit_row
  | Insert_flag flag_row

fun perform :: "governed_op \<Rightarrow> ('j governed, exn, unit) act" where
  "perform (Claim row) = claim_key row"
| "perform (Delete m) = delete_rows m"
| "perform (Insert_approval row) = insert_approval row"
| "perform (Insert_delegation row) = insert_delegation row"
| "perform (Insert_audit row) = insert_audit row"
| "perform (Insert_flag row) = insert_flag row"

lemmas perform_defs =
  claim_key_def delete_rows_def insert_approval_def insert_delegation_def insert_audit_def insert_flag_def

definition claims :: "ident \<Rightarrow> string \<Rightarrow> governed_op \<Rightarrow> bool" where
  "claims org key op = (case op of Claim row \<Rightarrow> ik_organizationId row = org \<and> ik_key row = key | _ \<Rightarrow> False)"

definition drops_tenant :: "ident \<Rightarrow> governed_op \<Rightarrow> bool" where
  "drops_tenant org op = (case op of Delete m \<Rightarrow> org \<in> set (dm_orgs m) | _ \<Rightarrow> False)"

fun claims_won :: "ident \<Rightarrow> string \<Rightarrow> governed_op list \<Rightarrow> 'j governed \<Rightarrow> nat" where
  "claims_won org key [] g = 0"
| "claims_won org key (op # ops) g =
     (case perform op g of
        (r, g') \<Rightarrow> (if claims org key op \<and> r = Inr () then 1 else 0) + claims_won org key ops g')"

definition claimed :: "ident \<Rightarrow> string \<Rightarrow> 'j governed \<Rightarrow> bool" where
  "claimed org key g = ((org, key) \<in> set (map (\<lambda>r. (ik_organizationId r, ik_key r)) (gv_keys g)))"

lemma governed_statement_result:
  "governed_statement f g = (r, g') \<Longrightarrow> (r = Inr () \<and> g' = f g \<and> governed_ok g') \<or> ((\<exists>e. r = Inl e) \<and> g' = g)"
  using governed_statement_ok [of f g] governed_statement_refused [of f g] by (cases "governed_ok (f g)") auto

lemma perform_ok: "governed_ok g \<Longrightarrow> perform op g = (r, g') \<Longrightarrow> governed_ok g'"
  by (cases op) (auto simp: perform_defs dest!: governed_statement_result)

lemma claimed_delete:
  assumes "claimed org key g" and "org \<notin> set (dm_orgs m)"
  shows "claimed org key (delete_governed m g)"
proof -
  obtain r where "r \<in> set (gv_keys g)" "ik_organizationId r = org" "ik_key r = key"
    using assms(1) by (auto simp: claimed_def)
  with assms(2) show ?thesis
    by (force simp: claimed_def delete_governed_def cascaded_def Let_def)
qed

lemma claimed_kept:
  assumes "perform op g = (r, g')" and "\<not> drops_tenant org op" and "claimed org key g"
  shows "claimed org key g'"
proof (cases op)
  case (Delete m)
  with assms claimed_delete [of org key g m] show ?thesis
    by (auto simp: perform_defs drops_tenant_def dest!: governed_statement_result)
qed (use assms in \<open>auto simp: perform_defs claimed_def dest!: governed_statement_result\<close>)

lemma map_filter_total: "List.map_filter (\<lambda>r. Some (f r)) rows = map f rows"
  by (induction rows) auto

lemma unique_keys: "governed_ok g \<Longrightarrow> distinct (map (\<lambda>r. (ik_organizationId r, ik_key r)) (gv_keys g))"
proof -
  assume "governed_ok g"
  then have "unique_on (\<lambda>r. Some (ik_organizationId r, ik_key r)) (gv_keys g)"
    by (simp add: governed_ok_def governance_constraints_def)
  then show ?thesis by (simp add: unique_on_def map_filter_total)
qed

lemma claim_wins_once:
  assumes "perform op g = (Inr (), g')" and "claims org key op" and "governed_ok g"
  shows "\<not> claimed org key g \<and> claimed org key g'"
proof -
  from assms(2) obtain row where row: "op = Claim row" "ik_organizationId row = org" "ik_key row = key"
    by (auto simp: claims_def split: governed_op.splits)
  with assms(1) have g': "g' = g\<lparr>gv_keys := gv_keys g @ [row]\<rparr>" "governed_ok g'"
    by (auto simp: perform_defs dest!: governed_statement_result)
  from unique_keys [OF g'(2)] show ?thesis by (auto simp: g'(1) claimed_def row)
qed

lemma claims_after_claimed:
  "governed_ok g \<Longrightarrow> claimed org key g \<Longrightarrow> \<forall>op \<in> set ops. \<not> drops_tenant org op \<Longrightarrow> claims_won org key ops g = 0"
proof (induction ops arbitrary: g)
  case (Cons op ops)
  obtain r g' where step: "perform op g = (r, g')" by fastforce
  from Cons.prems step have "governed_ok g'" "claimed org key g'"
    using perform_ok claimed_kept by (blast, fastforce)
  moreover have "\<not> (claims org key op \<and> r = Inr ())"
    using claim_wins_once [of op g g' org key] step Cons.prems by auto
  ultimately show ?case using Cons.IH [of g'] Cons.prems(3) by (auto simp: step)
qed simp

section \<open>Two tenants\<close>

definition tenant_task :: "ident \<Rightarrow> ident \<Rightarrow> ident \<Rightarrow> task_row" where
  "tenant_task i org obj =
     \<lparr>kr_id = i, kr_organizationId = org, kr_objectiveId = obj, kr_parentTaskId = None, kr_goal = ''goal'',
      kr_definitionOfDone = ''done'', kr_status = TS_pending, kr_executionClass = None, kr_requiredCapabilities = [],
      kr_requiredAuthority = OBSERVE, kr_idempotencyKey = None, kr_retryCount = 0, kr_maxRetries = 3\<rparr>"

definition tenant_objective :: "ident \<Rightarrow> ident \<Rightarrow> ident \<Rightarrow> objective_row" where
  "tenant_objective i org user =
     \<lparr>or_id = i, or_organizationId = org, or_scope = ORGANIZATION, or_scopeRef = None, or_requesterId = user,
      or_ownerId = user, or_projectId = None, or_requestedOutcome = ''outcome'', or_definitionOfDone = ''done'',
      or_status = OS_active, or_riskLevel = RiskLow, or_dueAt = None, or_completionSummary = None\<rparr>"

definition two_tenants :: "unit governed" where
  "two_tenants =
     \<lparr>gv_db = \<lparr>db_orgs = [\<lparr>og_id = ''a'', og_name = ''A'', og_slug = ''a'', og_externalAuthId = None\<rparr>,
          \<lparr>og_id = ''b'', og_name = ''B'', og_slug = ''b'', og_externalAuthId = None\<rparr>],
        db_users = [\<lparr>uw_id = ''ua'', uw_organizationId = ''a'', uw_email = ''u'', uw_displayName = ''U'', uw_externalAuthId = None\<rparr>,
          \<lparr>uw_id = ''ub'', uw_organizationId = ''b'', uw_email = ''u'', uw_displayName = ''U'', uw_externalAuthId = None\<rparr>],
        db_teams = [], db_memberships = [], db_projects = [], db_projectMemberships = [],
        db_objectives = [tenant_objective ''oa'' ''a'' ''ua'', tenant_objective ''ob'' ''b'' ''ub''],
        db_tasks = [tenant_task ''ta'' ''a'' ''oa'', tenant_task ''tb'' ''b'' ''ob''], db_events = [], db_queue = ()\<rparr>,
      gv_dependencies = [],
      gv_approvals = [(new_approval ''p1'' 0 ''b'' ''ub'' ''send'')\<lparr>av_taskId := Some ''tb''\<rparr>],
      gv_delegations = [(new_delegation ''d1'' 0 ''a'' ''ua'' ''ua'' ''done'')\<lparr>dl_taskId := Some ''ta''\<rparr>],
      gv_audit = [], gv_flags = [new_flag ''f1'' 0 None ''beta''],
      gv_keys = [\<lparr>ik_organizationId = ''b'', ik_key = ''k'', ik_taskId = Some ''tb'', ik_resultRef = None, ik_firstSeenAt = 0\<rparr>]\<rparr>"

lemma two_tenants_ok: "governed_ok two_tenants" "tenant_local two_tenants"
  by code_simp+

text \<open>
  Without the hypothesis a tenant loses rows with the delete of another one: the schema takes an approval of
  one tenant for a task of another.
\<close>

definition crossed_tenants :: "unit governed" where
  "crossed_tenants = two_tenants\<lparr>gv_approvals := [(new_approval ''p1'' 0 ''b'' ''ub'' ''send'')\<lparr>av_taskId := Some ''ta''\<rparr>]\<rparr>"

lemma approval_lost_with_other_tenant:
  "governed_ok crossed_tenants" "\<not> tenant_local crossed_tenants"
  "governed_ok (delete_governed (tenant_doomed ''a'') crossed_tenants)"
  "gv_approvals (delete_governed (tenant_doomed ''a'') crossed_tenants) = []"
  by code_simp+

section \<open>Properties\<close>

text \<open>
  The database enums mirror the domain. A column of a mirrored enum takes a text exactly when it is the
  text of a value of the domain's union, and reads it back as that value; of the two unions that reach
  the database unchecked, exactly the known texts are taken.
\<close>

theorem enum_columns_mirror_domain:
  "(column_value roleEnum role_text ROLES t = Some r \<longleftrightarrow> t = role_text r)
   \<and> (column_value objectiveStatusEnum objective_status_text OBJECTIVE_STATUSES t = Some os \<longleftrightarrow> t = objective_status_text os)
   \<and> (column_value taskStatusEnum task_status_text TASK_STATUSES t = Some ts \<longleftrightarrow> t = task_status_text ts)
   \<and> (column_value executionClassEnum execution_class_text EXECUTION_CLASSES t = Some ec \<longleftrightarrow> t = execution_class_text ec)
   \<and> (column_value eventTypeEnum event_type_text EVENT_TYPES t = Some et \<longleftrightarrow> t = event_type_text et)
   \<and> (column_value actorTypeEnum actor_type_text ACTOR_TYPES t = Some act \<longleftrightarrow> t = actor_type_text act)
   \<and> (column_value approvalDecisionEnum approval_decision_text APPROVAL_DECISIONS t = Some ad \<longleftrightarrow> t = approval_decision_text ad)
   \<and> (column_value sourceConfidenceEnum source_confidence_text SOURCE_CONFIDENCE t = Some sc \<longleftrightarrow> t = source_confidence_text sc)
   \<and> (scope_text s \<in> set scopeEnum \<longleftrightarrow> scope_of_text (scope_text s) \<in> set SCOPES)
   \<and> (risk_level_text l \<in> set riskLevelEnum \<longleftrightarrow> risk_level_of_text (risk_level_text l) \<in> set RISK_LEVELS)"
  by (intro conjI role_column.column_only_members objective_status_column.column_only_members
      task_status_column.column_only_members execution_class_column.column_only_members
      event_type_column.column_only_members actor_type_column.column_only_members
      approval_decision_column.column_only_members source_confidence_column.column_only_members
      scope_column risk_column)




definition claim_k :: key_row where
  "claim_k = \<lparr>ik_organizationId = ''a'', ik_key = ''k'', ik_taskId = Some ''ta'', ik_resultRef = None, ik_firstSeenAt = 1\<rparr>"


end
