(* ===== verification/Web_Shell.thy ===== *)
theory Web_Shell
  imports Control_Plane Adapters Governance
begin

text \<open>
  The command shell in the browser (\<open>apps/web/src\<close>: types.ts, data/mock.ts, App.tsx, the components and
  api/client.ts). The shell is its state and the actions of the user; a component is a function to the tree it
  renders, with the tags, the texts, the labels and the classes that depend on data (constant styling
  is left out). Texts are UTF-8. The client runs over a \<open>fetch\<close> that is a parameter; \<open>in_process\<close> is the
  \<open>fetch\<close> that reaches the control plane of this development.
\<close>

section \<open>View models (types.ts)\<close>

record objective_view =
  vo_id :: string
  vo_requestedOutcome :: string
  vo_status :: objective_status

datatype work_state = WkRunning | WkBlocked | WkChecking | WkAwaiting_approval

record work_item_view =
  vw_id :: string
  vw_label :: string
  vw_worker :: string
  vw_state :: work_state

record approval_view =
  va_id :: string
  va_action :: string
  va_risk :: risk_level

datatype control_plane_health = CpOk | CpDegraded | CpDown

record node_view =
  vn_name :: string
  vn_mode :: node_mode
  vn_health :: node_health

record health_view =
  vh_controlPlane :: control_plane_health
  vh_activeJobs :: nat
  vh_nodes :: "node_view list"

record nav_section =
  ns_key :: string
  ns_label :: string

fun work_state_text :: "work_state \<Rightarrow> string" where
  "work_state_text WkRunning = ''running''"
| "work_state_text WkBlocked = ''blocked''"
| "work_state_text WkChecking = ''checking''"
| "work_state_text WkAwaiting_approval = ''awaiting_approval''"

fun control_plane_text :: "control_plane_health \<Rightarrow> string" where
  "control_plane_text CpOk = ''ok''"
| "control_plane_text CpDegraded = ''degraded''"
| "control_plane_text CpDown = ''down''"

fun node_mode_text :: "node_mode \<Rightarrow> string" where
  "node_mode_text AUTO = ''AUTO''"
| "node_mode_text OFF = ''OFF''"
| "node_mode_text LOCAL_ONLY = ''LOCAL_ONLY''"

fun node_health_text :: "node_health \<Rightarrow> string" where
  "node_health_text NodeHealthy = ''healthy''"
| "node_health_text NodeDegraded = ''degraded''"
| "node_health_text NodeOffline = ''offline''"

section \<open>Data of the shell (mock.ts)\<close>

definition NAV_SECTIONS :: "nav_section list" where
  "NAV_SECTIONS =
     [\<lparr>ns_key = ''today'', ns_label = ''Today''\<rparr>, \<lparr>ns_key = ''projects'', ns_label = ''Projects''\<rparr>,
      \<lparr>ns_key = ''people'', ns_label = ''People''\<rparr>, \<lparr>ns_key = ''leads'', ns_label = ''Leads''\<rparr>,
      \<lparr>ns_key = ''tasks'', ns_label = ''Tasks''\<rparr>, \<lparr>ns_key = ''memory'', ns_label = ''Memory & Knowledge''\<rparr>,
      \<lparr>ns_key = ''automations'', ns_label = ''Automations''\<rparr>]"

definition MOCK_OBJECTIVE :: objective_view where
  "MOCK_OBJECTIVE =
     \<lparr>vo_id = ''obj-demo'', vo_requestedOutcome = ''Get Route 40 ready for launch'', vo_status = OS_active\<rparr>"

definition MOCK_WORK :: "work_item_view list" where
  "MOCK_WORK =
     [\<lparr>vw_id = ''w1'', vw_label = ''Draft launch checklist'', vw_worker = ''local-ai'', vw_state = WkRunning\<rparr>,
      \<lparr>vw_id = ''w2'', vw_label = ''Audit Route 40 repo'', vw_worker = ''coding-agent'', vw_state = WkChecking\<rparr>,
      \<lparr>vw_id = ''w3'', vw_label = ''Confirm domain DNS'', vw_worker = ''human'', vw_state = WkBlocked\<rparr>]"

definition MOCK_APPROVALS :: "approval_view list" where
  "MOCK_APPROVALS = [\<lparr>va_id = ''a1'', va_action = ''Deploy Route 40 to production'', va_risk = RiskHigh\<rparr>]"

definition em_dash :: string where
  "em_dash = [CHR 0xE2, CHR 0x80, CHR 0x94]"

definition middle_dot :: string where
  "middle_dot = [CHR 0xC2, CHR 0xB7]"

definition MOCK_ALERTS :: "string list" where
  "MOCK_ALERTS = [''Omen node offline (travel) '' @ em_dash @ '' routing to Dell/API'']"

definition MOCK_NEXT_ACTION :: string where
  "MOCK_NEXT_ACTION = ''Review the launch checklist Donna drafted''"

definition MOCK_HEALTH :: health_view where
  "MOCK_HEALTH =
     \<lparr>vh_controlPlane = CpOk, vh_activeJobs = 3,
      vh_nodes = [\<lparr>vn_name = ''Dell'', vn_mode = AUTO, vn_health = NodeHealthy\<rparr>,
        \<lparr>vn_name = ''Omen'', vn_mode = OFF, vn_health = NodeOffline\<rparr>]\<rparr>"

section \<open>The shell (App.tsx, CommandBar.tsx)\<close>

text \<open>\<open>draftSeq\<close> belongs to the module, \<open>value\<close> to the command bar, the rest to the application.\<close>

record shell =
  sh_draftSeq :: nat
  sh_value :: string
  sh_activeKey :: string
  sh_drafts :: "objective_view list"

definition initial_shell :: shell where
  "initial_shell = \<lparr>sh_draftSeq = 0, sh_value = [], sh_activeKey = ''today'', sh_drafts = []\<rparr>"

definition activeSection :: "string \<Rightarrow> nav_section" where
  "activeSection key = coalesce (find (\<lambda>s. ns_key s = key) NAV_SECTIONS) (hd NAV_SECTIONS)"

definition draft_id :: "nat \<Rightarrow> string" where
  "draft_id n = ''draft-'' @ nat_text n"

definition handleCommand :: "string \<Rightarrow> shell \<Rightarrow> shell" where
  "handleCommand t s =
     (let n = sh_draftSeq s + 1 in
      s\<lparr>sh_draftSeq := n,
        sh_drafts := \<lparr>vo_id = draft_id n, vo_requestedOutcome = t, vo_status = OS_draft\<rparr> # sh_drafts s\<rparr>)"

definition handleSubmit :: "shell \<Rightarrow> shell" where
  "handleSubmit s =
     (let trimmed = js_trim (sh_value s) in
      if trimmed = [] then s else (handleCommand trimmed s)\<lparr>sh_value := []\<rparr>)"

text \<open>Leaving the page and coming back without a reload starts the components afresh and keeps the module.\<close>

datatype user_action = Type_text string | Submit | Select string | Remount

fun user_step :: "user_action \<Rightarrow> shell \<Rightarrow> shell" where
  "user_step (Type_text t) s = s\<lparr>sh_value := t\<rparr>"
| "user_step Submit s = handleSubmit s"
| "user_step (Select key) s = s\<lparr>sh_activeKey := key\<rparr>"
| "user_step Remount s = initial_shell\<lparr>sh_draftSeq := sh_draftSeq s\<rparr>"

section \<open>Components\<close>

datatype node = Text string | Element string "(string \<times> string) list" "node list"

definition span :: "string \<Rightarrow> node" where
  "span t = Element ''span'' [] [Text t]"

definition HealthBar :: "health_view \<Rightarrow> node" where
  "HealthBar health =
     Element ''header'' []
       [span ''Donna'',
        Element ''span'' []
          [Text ''control plane: '',
           Element ''span'' [(''class'', if vh_controlPlane health = CpOk then ''text-accent'' else ''text-red-400'')]
             [Text (control_plane_text (vh_controlPlane health))]],
        span (nat_text (vh_activeJobs health) @ '' active jobs''),
        Element ''span'' []
          (map (\<lambda>n. Element ''span'' [(''key'', vn_name n)]
             [Text (vn_name n @ '': '' @ node_mode_text (vn_mode n) @ ''/'' @ node_health_text (vn_health n))])
            (vh_nodes health))]"

definition ContextNav :: "nav_section list \<Rightarrow> string \<Rightarrow> node" where
  "ContextNav sections active =
     Element ''nav'' [(''aria-label'', ''Context'')]
       (map (\<lambda>s. Element ''button''
            [(''key'', ns_key s), (''type'', ''button''),
             (''class'', if active = ns_key s then ''bg-edge text-ink'' else ''text-muted hover:bg-edge/50'')]
            [Text (ns_label s)]) sections)"

definition ActiveWorkspace ::
    "nav_section \<Rightarrow> objective_view \<Rightarrow> objective_view list \<Rightarrow> work_item_view list \<Rightarrow> node" where
  "ActiveWorkspace section obj drafts work =
     Element ''main'' [(''aria-label'', ''Active workspace'')]
       ([Element ''h1'' [] [Text (ns_label section)],
         Element ''section'' []
           [Element ''div'' [] [Text ''Current objective''],
            Element ''div'' [] [Text (vo_requestedOutcome obj)],
            Element ''div'' [] [Text (''status: '' @ objective_status_text (vo_status obj))]],
         Element ''section'' []
           [Element ''div'' [] [Text ''Active work''],
            Element ''ul'' []
              (map (\<lambda>w. Element ''li'' [(''key'', vw_id w)]
                 [span (vw_label w), span (vw_worker w @ '' '' @ middle_dot @ '' '' @ work_state_text (vw_state w))]) work)]]
        @ (if length drafts > 0
           then [Element ''section'' []
             [Element ''div'' [] [Text ''New objectives (draft)''],
              Element ''ul'' []
                (map (\<lambda>d. Element ''li'' [(''key'', vo_id d)] [Text (vo_requestedOutcome d)]) drafts)]]
           else []))"

definition Group :: "string \<Rightarrow> node list \<Rightarrow> node" where
  "Group title children =
     Element ''section'' [] [Element ''div'' [] [Text title], Element ''div'' [] children]"

definition listed :: "string \<Rightarrow> node list \<Rightarrow> node list" where
  "listed none items = (if items = [] then [span none] else [Element ''ul'' [] items])"

definition DonnaRail ::
    "objective_view \<Rightarrow> work_item_view list \<Rightarrow> approval_view list \<Rightarrow> string list \<Rightarrow> string \<Rightarrow> node" where
  "DonnaRail obj work approvals alerts nextAction =
     (let blockers = filter (\<lambda>w. vw_state w = WkBlocked) work in
      Element ''aside'' [(''aria-label'', ''Donna rail'')]
        [Group ''Objective'' [Text (vo_requestedOutcome obj)],
         Group ''Active work''
           [Text (nat_text (length work) @ '' item'' @ (if length work = 1 then [] else ''s'') @ '' in progress'')],
         Group ''Blockers''
           (listed ''None'' (map (\<lambda>b. Element ''li'' [(''key'', vw_id b)] [Text (vw_label b)]) blockers)),
         Group ''Approvals''
           (listed ''None pending'' (map (\<lambda>a. Element ''li'' [(''key'', va_id a)]
              [span (va_action a), Text '' '', span (''('' @ risk_level_text (va_risk a) @ '')'')]) approvals)),
         Group ''Alerts'' (listed ''None'' (map (\<lambda>a. Element ''li'' [(''key'', a)] [Text a]) alerts)),
         Group ''Next recommended action'' [Text nextAction]])"

definition CommandBar :: "string \<Rightarrow> node" where
  "CommandBar v =
     Element ''form'' [] [Element ''input'' [(''aria-label'', ''Command Donna''), (''value'', v)] []]"

definition App :: "shell \<Rightarrow> node" where
  "App s =
     Element ''div'' []
       [HealthBar MOCK_HEALTH,
        Element ''div'' []
          [ContextNav NAV_SECTIONS (sh_activeKey s),
           ActiveWorkspace (activeSection (sh_activeKey s)) MOCK_OBJECTIVE (sh_drafts s) MOCK_WORK,
           DonnaRail MOCK_OBJECTIVE MOCK_WORK MOCK_APPROVALS MOCK_ALERTS MOCK_NEXT_ACTION],
        CommandBar (sh_value s)]"

section \<open>What the shell stages\<close>

text \<open>The commands a sequence of actions submits, oldest first, from what the bar holds and what is staged.\<close>

fun staged :: "string \<Rightarrow> string list \<Rightarrow> user_action list \<Rightarrow> string list" where
  "staged v cs [] = cs"
| "staged v cs (Type_text t # acts) = staged t cs acts"
| "staged v cs (Submit # acts) = (if js_trim v = [] then staged v cs acts else staged [] (cs @ [js_trim v]) acts)"
| "staged v cs (Select key # acts) = staged v cs acts"
| "staged v cs (Remount # acts) = staged [] [] acts"

definition shell_ok :: "shell \<Rightarrow> bool" where
  "shell_ok s \<longleftrightarrow>
     length (sh_drafts s) \<le> sh_draftSeq s
     \<and> map vo_id (sh_drafts s) = map draft_id (rev [Suc (sh_draftSeq s - length (sh_drafts s))..<Suc (sh_draftSeq s)])"

lemma nat_text_eq: "nat_text m = nat_text n \<longleftrightarrow> m = n"
  using js_integer_text_inj [of "int m" "int n"] by (auto simp: js_integer_text_def)

lemma handleSubmit_ok: "shell_ok s \<Longrightarrow> shell_ok (handleSubmit s)"
  by (auto simp: shell_ok_def handleSubmit_def handleCommand_def Let_def Suc_diff_le)

lemma user_step_ok: "shell_ok s \<Longrightarrow> shell_ok (user_step a s)"
  by (cases a) (simp_all add: handleSubmit_ok, simp_all add: shell_ok_def initial_shell_def)

lemma fold_user_step_ok: "shell_ok s \<Longrightarrow> shell_ok (fold user_step acts s)"
  by (induction acts arbitrary: s) (simp_all add: user_step_ok)

lemma fold_user_step_staged:
  "rev (map vo_requestedOutcome (sh_drafts (fold user_step acts s))) =
     staged (sh_value s) (rev (map vo_requestedOutcome (sh_drafts s))) acts"
proof (induction acts arbitrary: s)
  case (Cons a acts)
  then show ?case
    by (cases a) (auto simp: handleSubmit_def handleCommand_def Let_def initial_shell_def)
qed simp

lemma activeSection_known: "activeSection key \<in> set NAV_SECTIONS"
  by (auto simp: activeSection_def NAV_SECTIONS_def)

text \<open>
  The shell stages every command once: after any actions the drafts are the commands submitted since the
  last mount, newest first, under ids that are pairwise different, and a known section is shown.
\<close>

lemma shell_stages_commands:
  fixes acts
  defines "s \<equiv> fold user_step acts initial_shell"
  shows "map vo_requestedOutcome (sh_drafts s) = rev (staged [] [] acts) \<and> distinct (map vo_id (sh_drafts s))
    \<and> activeSection (sh_activeKey s) \<in> set NAV_SECTIONS"
proof -
  have "shell_ok s"
    unfolding s_def by (rule fold_user_step_ok) (simp add: shell_ok_def initial_shell_def)
  moreover have "inj draft_id" by (simp add: inj_def draft_id_def nat_text_eq)
  ultimately have "distinct (map vo_id (sh_drafts s))"
    by (simp add: shell_ok_def distinct_map inj_on_def inj_def)
  moreover have "map vo_requestedOutcome (sh_drafts s) = rev (staged [] [] acts)"
    using fold_user_step_staged [of acts initial_shell] unfolding s_def
    by (simp add: initial_shell_def rev_swap)
  ultimately show ?thesis using activeSection_known by blast
qed

section \<open>The client (api/client.ts)\<close>

text \<open>The body of a request is the value whose JSON text is sent.\<close>

record client_init =
  ci_method :: string
  ci_headers :: "(string \<times> string) list"
  ci_body :: "js option"

record client_response =
  cr_status :: nat
  cr_ok :: bool
  cr_json :: js

type_synonym 's client_fetch = "string \<Rightarrow> client_init \<Rightarrow> ('s, exn, client_response) act"

record client =
  cl_baseUrl :: string
  cl_principalHeaders :: "(string \<times> string) list"

text \<open>\<open>baseUrl.replace(/\\/$/, '')\<close> takes away one slash at the end.\<close>

definition new_client :: "string \<Rightarrow> (string \<times> string) list option \<Rightarrow> client" where
  "new_client baseUrl principalHeaders =
     \<lparr>cl_baseUrl = (if baseUrl \<noteq> [] \<and> last baseUrl = CHR ''/'' then butlast baseUrl else baseUrl),
      cl_principalHeaders = coalesce principalHeaders []\<rparr>"

record create_objective_request =
  cq_requestedOutcome :: string
  cq_definitionOfDone :: string
  cq_scope :: "scope option"

definition request_fields :: "create_objective_request \<Rightarrow> js_fields" where
  "request_fields body =
     [(''requestedOutcome'', JStr (cq_requestedOutcome body)), (''definitionOfDone'', JStr (cq_definitionOfDone body)),
      (''scope'', opt (JStr \<circ> scope_text) (cq_scope body))]"

definition client_health :: "'s client_fetch \<Rightarrow> client \<Rightarrow> ('s, exn, js) act" where
  "client_health fetch c =
     bind_act (fetch (cl_baseUrl c @ ''/health'') \<lparr>ci_method = ''GET'', ci_headers = [], ci_body = None\<rparr>) (\<lambda>res.
     if \<not> cr_ok res then throw (OtherError (''health failed: '' @ nat_text (cr_status res))) else ret (cr_json res))"

definition createObjective ::
    "'s client_fetch \<Rightarrow> client \<Rightarrow> create_objective_request \<Rightarrow> ('s, exn, js) act" where
  "createObjective fetch c body =
     bind_act (fetch (cl_baseUrl c @ ''/objectives'')
       \<lparr>ci_method = ''POST'',
        ci_headers = spread [(''content-type'', ''application/json'')] (cl_principalHeaders c),
        ci_body = Some (JObj (request_fields body))\<rparr>) (\<lambda>res.
     if cr_status res = 403 then throw (OtherError ''forbidden'')
     else if \<not> cr_ok res then throw (OtherError (''createObjective failed: '' @ nat_text (cr_status res)))
     else ret (cr_json res))"

section \<open>The client against the control plane\<close>

text \<open>What a reply is as JSON, in the fields the client reads; an exception of a handler is a 500.\<close>

definition objective_json :: "objective \<Rightarrow> js" where
  "objective_json obj =
     JObj [(''id'', JStr (ob_id obj)), (''requestedOutcome'', JStr (ob_requestedOutcome obj)),
       (''status'', JStr (objective_status_text (ob_status obj)))]"

definition reply_json :: "reply_body \<Rightarrow> js" where
  "reply_json body =
     (case body of
        Health_ok \<Rightarrow> JObj [(''status'', JStr ''ok'')]
      | Failed error \<Rightarrow> JObj [(''error'', JStr error)]
      | Denied_for reason message \<Rightarrow> JObj [(''error'', JStr (policy_reason_text reason)), (''message'', JStr message)]
      | Approval_needed reason \<Rightarrow> JObj [(''status'', JStr ''approval_required''), (''reason'', JStr (policy_reason_text reason))]
      | Objective_found obj \<Rightarrow> objective_json obj
      | Task_queued t jobId \<Rightarrow> JObj [(''jobId'', JStr jobId)]
      | Webhook_handled handled \<Rightarrow> JObj [(''handled'', JBool handled)])"

definition respond :: "nat \<Rightarrow> js \<Rightarrow> client_response" where
  "respond status body = \<lparr>cr_status = status, cr_ok = (200 \<le> status \<and> status < 300), cr_json = body\<rparr>"

definition in_process ::
    "(js \<Rightarrow> string) \<Rightarrow> 's server_deps \<Rightarrow> env \<Rightarrow> nat \<Rightarrow> string \<Rightarrow> 's client_fetch" where
  "in_process text_of deps env tick base url init s =
     (let req = \<lparr>rq_headers = map (\<lambda>(k, v). (k, JStr v)) (ci_headers init), rq_id = [],
                 rq_body = (case ci_body init of None \<Rightarrow> JUndefined | Some v \<Rightarrow> json_copy v), rq_rawBody = []\<rparr>;
          run = (if url = base @ ''/health'' \<and> ci_method init = ''GET'' then buildServer text_of deps env tick Health req s
                 else if url = base @ ''/objectives'' \<and> ci_method init = ''POST''
                 then buildServer text_of deps env tick Create_objective req s
                 else reply_with 404 (Failed ''Not Found'') s)
      in case run of
           (Inl e, s') \<Rightarrow> (Inr (respond 500 (JObj [(''error'', JStr ''Internal Server Error'')])), s')
         | (Inr reply, s') \<Rightarrow> (Inr (respond (rp_status reply) (reply_json (rp_body reply))), s'))"

lemma request_body: "body_fields (json_copy (JObj (request_fields body))) = copy_fields (request_fields body)"
  by (simp only: json_copy_obj body_fields_def jsval.case)

lemma request_get: "js_get (body_fields (json_copy (JObj (request_fields body)))) k = json_copy (js_get (request_fields body) k)"
  unfolding request_body by (rule js_get_copy_fields) (simp add: request_fields_def)

definition client_request :: "client \<Rightarrow> create_objective_request \<Rightarrow> request" where
  "client_request c body =
     \<lparr>rq_headers = map (\<lambda>(k, v). (k, JStr v)) (spread [(''content-type'', ''application/json'')] (cl_principalHeaders c)),
      rq_id = [], rq_body = json_copy (JObj (request_fields body)), rq_rawBody = []\<rparr>"

lemma createObjective_in_process:
  "createObjective (in_process text_of deps env tick (cl_baseUrl c)) c body s =
     (case post_objectives text_of deps env tick (client_request c body) s of
        (Inl e, s') \<Rightarrow> (Inl (OtherError (''createObjective failed: '' @ nat_text 500)), s')
      | (Inr reply, s') \<Rightarrow>
          (if rp_status reply = 403 then (Inl (OtherError ''forbidden''), s')
           else if \<not> (200 \<le> rp_status reply \<and> rp_status reply < 300)
           then (Inl (OtherError (''createObjective failed: '' @ nat_text (rp_status reply))), s')
           else (Inr (reply_json (rp_body reply)), s')))"
  by (simp add: createObjective_def in_process_def client_request_def Let_def buildServer_def bind_act_def respond_def
      throw_def ret_def split: prod.split sum.split)

definition asked_scope :: "create_objective_request \<Rightarrow> scope" where
  "asked_scope body = scope_of_text (scope_text (coalesce (cq_scope body) ORGANIZATION))"

lemma request_values:
  fixes body
  defines "b \<equiv> body_fields (json_copy (JObj (request_fields body)))"
  shows "js_get b ''requestedOutcome'' = JStr (cq_requestedOutcome body)"
    "js_get b ''definitionOfDone'' = JStr (cq_definitionOfDone body)"
    "scope_field text_of (js_get b ''scope'') = asked_scope body"
    "id_field (js_get b k) = None \<or> k \<in> {''requestedOutcome'', ''definitionOfDone'', ''scope''}"
  unfolding b_def request_get
  by (auto simp: request_fields_def opt_def scope_field_def asked_scope_def id_field_def split: option.split)

text \<open>What a create of the client asks the policy for, and what it creates.\<close>

definition asked_resource :: "principal_context \<Rightarrow> create_objective_request \<Rightarrow> resource_descriptor" where
  "asked_resource prin body =
     \<lparr>rs_organizationId = pr_organizationId prin, rs_scope = asked_scope body, rs_ownerUserId = Some (pr_userId prin),
      rs_teamId = None, rs_projectId = None\<rparr>"

definition asked_input :: "create_objective_request \<Rightarrow> create_objective_input" where
  "asked_input body =
     \<lparr>co_requestedOutcome = cq_requestedOutcome body, co_definitionOfDone = cq_definitionOfDone body,
      co_scope = asked_scope body, co_riskLevel = RiskLow, co_projectId = None, co_teamId = None\<rparr>"

lemma client_post:
  assumes "control_plane drizzle_create drizzle_get a"
  shows "post_objectives text_of (durable_deps add_job a webhook) env tick (client_request c body) d =
    (case fst (a (rq_headers (client_request c body)) d) of
       Inl e \<Rightarrow> (Inl e, d)
     | Inr (Refused code error) \<Rightarrow> reply_with code (Failed error) d
     | Inr (Authenticated prin) \<Rightarrow>
         gated (gate prin OBJECTIVE_CREATE_ACTION (asked_resource prin body))
           (bind_act (drizzle_create env tick (asked_input body) prin) (\<lambda>obj. reply_with 201 (Objective_found obj))) d)"
proof -
  let ?b = "body_fields (rq_body (client_request c body))"
  have b: "?b = body_fields (json_copy (JObj (request_fields body)))" by (simp add: client_request_def)
  have resource: "create_resource prin (asked_scope body) ?b = asked_resource prin body" for prin
    using request_values(4) [where body = body and k = "''teamId''"] request_values(4) [where body = body and k = "''projectId''"]
    unfolding b by (simp add: create_resource_def asked_resource_def)
  have "js_get ?b ''riskLevel'' = JUndefined"
    unfolding b request_get by (simp add: request_fields_def)
  then have input: "create_input text_of (cq_requestedOutcome body) (cq_definitionOfDone body) (asked_scope body) ?b = asked_input body"
    using request_values(4) [where body = body and k = "''teamId''"] request_values(4) [where body = body and k = "''projectId''"]
    by (simp add: create_input_def asked_input_def risk_field_def b)
  show ?thesis
    unfolding post_objectives_def durable_deps_def server_deps.simps control_plane.authenticated_eq [OF assms] Let_def
    by (simp only: request_values [where body = body, folded b] resource input jsval.case prod.case)
qed


definition dev_client :: client where
  "dev_client = new_client ''http://api/'' (Some [(''x-donna-user-id'', ''u1''), (''x-donna-org-id'', ''org''),
     (''x-donna-role'', ''owner''), (''x-donna-actor-kind'', ''human'')])"

definition private_request :: create_objective_request where
  "private_request = \<lparr>cq_requestedOutcome = ''a'', cq_definitionOfDone = ''b'', cq_scope = Some PRIVATE\<rparr>"

lemma dev_client_authenticated:
  "fst (devAuthenticator (rq_headers (client_request dev_client body)) d) = Inr (Authenticated (dev_principal ''u1''))"
  by (simp add: devAuthenticator_def ret_def devPrincipalFromHeaders_def client_request_def dev_client_def new_client_def
      spread_def firstString_def union_of_text_def ROLES_def csv_def dev_principal_def sample_principal_def)


end
