(* ===== verification/Whole_System.thy ===== *)
theory Whole_System
  imports Control_Plane Worker_Concurrency
begin

text \<open>
  The control plane and the workers over one database: requests of every route, in any order and between
  any steps of the workers. The lemmas show what a request does to the database, and with it that a
  request is a step the workers' interleaving already allows, so that what holds of that holds of the
  whole system.
\<close>

section \<open>What a request writes\<close>

text \<open>Provisioning touches accounts only.\<close>

definition off_tasks :: "'j db \<Rightarrow> 'j db \<Rightarrow> bool" where
  "off_tasks d d' \<longleftrightarrow> db_ok d' \<and> db_tasks d' = db_tasks d \<and> db_events d' = db_events d"

lemma keeps_off_tasks:
  assumes "\<And>d. db_tasks (f d) = db_tasks d" and "\<And>d. db_events (f d) = db_events d"
  shows "keeps (off_tasks d) (statement f)"
  using assms by (auto simp: keeps_wp off_tasks_def)

lemma keeps_upsertOrg [intro!]: "keeps (off_tasks d) (upsertOrg env tick ext name slug)"
  unfolding upsertOrg_def
  by (auto intro!: keeps_bind keeps_seq keeps_option keeps_off_tasks simp: update_orgs_def)

lemma keeps_upsertUser [intro!]: "keeps (off_tasks d) (upsertUser env tick ext org email name)"
  unfolding upsertUser_def
  by (auto intro!: keeps_bind keeps_seq keeps_option keeps_off_tasks simp: update_users_def)

lemma keeps_upsertMembership [intro!]: "keeps (off_tasks d) (upsertMembership env tick org user role)"
  unfolding upsertMembership_def
  by (auto intro!: keeps_bind keeps_option keeps_off_tasks simp: update_memberships_def)

lemma keeps_removeMembership [intro!]: "keeps (off_tasks d) (removeMembership a b)"
  unfolding removeMembership_def
  by (auto intro!: keeps_bind keeps_off_tasks split: option.split)

lemma keeps_handle [intro!]: "keeps (off_tasks d) (handle env tick event)"
  unfolding handle_def Let_def syncMembership_def upsertOrganization_def updateUser_def revokeUser_def
  by (auto intro!: keeps_bind keeps_seq keeps_transaction keeps_off_tasks keeps_if split: prod.split)

lemma keeps_reply [intro!]: "keeps I (reply_with code body)"
  by (simp add: reply_with_def keeps_ret)

lemma keeps_webhook: "keeps (off_tasks d) (post_clerk verify handle env tick req)"
  unfolding post_clerk_def payload_error_def
  by (auto intro!: keeps_try keeps_bind split: sum.split exn.split)

text \<open>A request of the durable control plane changes nothing, dispatches, or leaves the tasks alone.\<close>

lemma create_request:
  assumes "control_plane drizzle_create drizzle_get a"
    and "post_objectives text_of (durable_deps add_job a webhook) env tick req d = (r, d')"
  shows "d' = d \<or> changes_elsewhere d d'"
proof -
  have deps: "sd_create (durable_deps add_job a webhook) = drizzle_create"
    "sd_authenticate (durable_deps add_job a webhook) = a" by (simp_all add: durable_deps_def)
  show ?thesis
  proof (rule control_plane.create_cases [OF assms(1) deps assms(2)])
    assume "d' = d"
    then show ?thesis by simp
  next
    fix prin outcome dod sc
    assume created: "(r, d') = bind_act (drizzle_create env tick
        (create_input text_of outcome dod sc (body_fields (rq_body req))) prin) (\<lambda>obj. reply_with 201 (Objective_found obj)) d"
    obtain r' d1 where run: "drizzle_create env tick (create_input text_of outcome dod sc (body_fields (rq_body req))) prin d
        = (r', d1)" by fastforce
    have "d' = d1"
      using created by (auto simp: bind_act_def run reply_with_def ret_def split: sum.splits)
    moreover have "d1 = d \<or> changes_elsewhere d d1"
    proof (cases r')
      case (Inl e)
      with run wp_Inl [OF drizzle_create_wp] show ?thesis by blast
    next
      case (Inr obj)
      from wp_Inr [OF drizzle_create_wp run [unfolded Inr]] show ?thesis
        by (auto simp: changes_elsewhere_def objective_created_def createEvent_def)
    qed
    ultimately show ?thesis by simp
  qed
qed

lemma read_request:
  assumes "control_plane drizzle_create drizzle_get a"
  shows "snd (get_objective (durable_deps add_job a webhook) req d) = d"
proof -
  have deps: "sd_get (durable_deps add_job a webhook) = drizzle_get"
    "sd_authenticate (durable_deps add_job a webhook) = a" by (simp_all add: durable_deps_def)
  show ?thesis
    unfolding get_objective_def deps control_plane.authenticated_eq [OF assms]
    by (auto simp: drizzle_get_def reply_with_def ret_def split: sum.split auth_outcome.split option.split)
qed

lemma dispatch_request:
  assumes cp: "control_plane drizzle_create drizzle_get a"
    and run: "post_tasks (durable_deps add_job a webhook) env tick req d = (r, d')"
  shows "d' = d \<or> (\<exists>input prin r'. drizzle_dispatch add_job env tick input prin d = (r', d'))"
proof (cases "\<exists>prin. fst (a (rq_headers req) d) = Inr (Authenticated prin)")
  case False
  have "sd_authenticate (durable_deps add_job a webhook) = a" by (simp add: durable_deps_def)
  with False run show ?thesis
    by (auto simp: post_tasks_def control_plane.authenticated_eq [OF cp] reply_with_def ret_def
        split: sum.splits auth_outcome.splits)
next
  case True
  then obtain prin where "fst (a (rq_headers req) d) = Inr (Authenticated prin)" by blast
  from cp this show ?thesis
  proof (cases rule: dispatch_cases [where add_job = add_job and webhook = webhook and env = env and tick = tick])
    case (refused code body)
    with run show ?thesis by (simp add: reply_with_def ret_def)
  next
    case (allowed row input)
    obtain r' d1 where "drizzle_dispatch add_job env tick input prin d = (r', d1)" by fastforce
    moreover from this have "d' = d1"
      using run allowed(1) by (auto simp: bind_act_def reply_with_def ret_def split: sum.splits prod.splits)
    ultimately show ?thesis by blast
  qed
qed

lemma webhook_request:
  assumes "post_clerk verify handle env tick req d = (r, d')" and "db_ok d"
  shows "changes_elsewhere d d'"
proof -
  have "off_tasks d d" using assms(2) by (simp add: off_tasks_def)
  with keeps_webhook [of d verify env tick req] assms(1) have "off_tasks d d'"
    unfolding keeps_def by (metis snd_conv)
  then show ?thesis by (simp add: off_tasks_def changes_elsewhere_def)
qed

section \<open>The control plane beside the workers\<close>

text \<open>The dependencies a process with a database starts with.\<close>

lemma started_durable:
  assumes "start_process jose svix add_job publish vars = Durable deps"
  obtains a webhook where "control_plane drizzle_create drizzle_get a" and "deps = durable_deps add_job a webhook"
  using assms
  by (auto simp: start_process_def intro: built_control_plane
      split: startup_resolution.splits option.splits sum.splits auth_config.splits)

text \<open>A step of a worker, or a request that the control plane serves.\<close>

inductive system_step ::
    "('w, 'e) worker_config \<Rightarrow> gate_readers \<Rightarrow> 'j add_job \<Rightarrow> 'j db server_deps \<Rightarrow> 'j system \<Rightarrow> 'j system \<Rightarrow> bool"
    for cfg readers and add_job :: "'j add_job" and deps where
  works: "worker_step cfg readers add_job sys sys' \<Longrightarrow> system_step cfg readers add_job deps sys sys'"
| serves: "buildServer text_of deps env tick route req (sy_db sys) = (r, d') \<Longrightarrow>
    system_step cfg readers add_job deps sys (sys\<lparr>sy_db := d'\<rparr>)"

lemma unchanged_elsewhere: "db_ok d \<Longrightarrow> changes_elsewhere d d"
  by (simp add: changes_elsewhere_def)

lemma request_effect:
  assumes cp: "control_plane drizzle_create drizzle_get a"
    and run: "buildServer text_of (durable_deps add_job a webhook) env tick route req d = (r, d')" and "db_ok d"
  shows "changes_elsewhere d d' \<or> (\<exists>env tick input prin r'. drizzle_dispatch add_job env tick input prin d = (r', d'))"
proof (cases route)
  case Health
  with run have "d' = d" by (simp add: buildServer_def reply_with_def ret_def)
  with assms(3) show ?thesis by (simp add: unchanged_elsewhere)
next
  case Create_objective
  with create_request [OF cp] run assms(3) show ?thesis
    by (fastforce simp: buildServer_def unchanged_elsewhere)
next
  case Read_objective
  with read_request [OF cp, of add_job webhook req d] run have "d' = d"
    by (simp add: buildServer_def)
  with assms(3) show ?thesis by (simp add: unchanged_elsewhere)
next
  case Dispatch_task
  with dispatch_request [OF cp] run assms(3) show ?thesis
    by (fastforce simp: buildServer_def unchanged_elsewhere)
next
  case Clerk_webhook
  show ?thesis
  proof (cases webhook)
    case None
    with Clerk_webhook run have "d' = d"
      by (simp add: buildServer_def durable_deps_def reply_with_def ret_def)
    with assms(3) show ?thesis by (simp add: unchanged_elsewhere)
  next
    case (Some verify)
    with Clerk_webhook run have "post_clerk verify handle env tick req d = (r, d')"
      by (simp add: buildServer_def durable_deps_def)
    from webhook_request [OF this assms(3)] show ?thesis ..
  qed
qed

lemma system_step_works:
  assumes "system_step cfg readers add_job (durable_deps add_job a webhook) sys sys'"
    and cp: "control_plane drizzle_create drizzle_get a" and ok: "db_ok (sy_db sys)"
  shows "worker_step cfg readers add_job sys sys'"
  using assms(1)
proof cases
  case (serves text_of env tick route req r d')
  from request_effect [OF cp serves(2) ok] serves(1) show ?thesis
    by (auto intro: worker_step.elsewhere worker_step.dispatch)
qed

lemma system_reachable:
  assumes cp: "control_plane drizzle_create drizzle_get a" and "db_ok d"
    and "(system_step cfg readers add_job (durable_deps add_job a webhook))\<^sup>*\<^sup>* (started n d) sys"
  shows "(worker_step cfg readers add_job)\<^sup>*\<^sup>* (started n d) sys"
  using assms(3)
proof (induction rule: rtranclp_induct)
  case (step sys sys')
  have "db_ok (sy_db sys)"
    using reachable_simulated [OF step(3)] atomic_steps_stored assms(2) by blast
  from system_step_works [OF step(2) cp this] step(3) show ?case by (rule rtranclp.rtrancl_into_rtrancl [rotated])
qed simp

section \<open>Properties\<close>

text \<open>
  C6: The whole system keeps the books. Whatever requests reach the control plane that a process with a
  database starts, in any order and between any steps of any number of worker slots, with jobs redelivered,
  overlapping and crashing, the stored events of every task are the history of its row: a failure and a
  retry for every retry it has spent, then the event of its status once it is not pending; and no row spends
  more retries than it may.
\<close>

theorem task_history_exact:
  assumes "start_process jose svix add_job publish vars = Durable deps"
    and "reliable_adapters cfg" and "consistent d"
    and "(system_step cfg readers add_job deps)\<^sup>*\<^sup>* (started n d) sys" and "row \<in> set (db_tasks (sy_db sys))"
  shows "outcomes_of (filter (\<lambda>e. er_taskId e = Some (kr_id row)) (db_events (sy_db sys))) =
      concat (replicate (nat (kr_retryCount row)) [ET_task_failed, ET_task_retried])
      @ (if kr_status row = TS_pending then [] else status_event (kr_status row))
    \<and> 0 \<le> kr_retryCount row \<and> kr_retryCount row \<le> kr_maxRetries row"
proof -
  obtain a webhook where cp: "control_plane drizzle_create drizzle_get a" and "deps = durable_deps add_job a webhook"
    by (rule started_durable [OF assms(1)])
  moreover have "db_ok d" using assms(3) by (simp add: consistent_def)
  ultimately have "(worker_step cfg readers add_job)\<^sup>*\<^sup>* (started n d) sys"
    using system_reachable [OF cp] assms(4) by blast
  from history_always_consistent [OF assms(2,3) this assms(5)] show ?thesis .
qed

definition dev_vars :: environment where
  "dev_vars = [''APP_ENV'' \<mapsto> ''test'', ''DATABASE_URL'' \<mapsto> ''postgres://localhost'']"

definition dev_process :: "(unit, unit) process" where
  "dev_process = start_process (\<lambda>_ _ _ _. Inl []) (\<lambda>_ _ _. Inl WebhookVerification) no_add (\<lambda>_. ret ()) dev_vars"

lemma dev_process_durable: "\<exists>deps. dev_process = Durable deps"
proof -
  have "js_lower (js_trim ''test'') = ''test''" by code_simp
  then have "resolveAppEnv dev_vars = Test" by (simp add: resolveAppEnv_def dev_vars_def)
  then show ?thesis
    by (simp add: dev_process_def start_process_def resolveStartupConfig_def present_def
        Let_def) (simp add: dev_vars_def buildAuthenticator_def)
qed

theorem task_history_exact_witness:
  "\<exists>deps sys. dev_process = Durable deps
     \<and> (system_step empty_config sample_readers no_add deps)\<^sup>*\<^sup>* (started 4 pending_db) sys
     \<and> (\<forall>row \<in> set (db_tasks (sy_db sys)). kr_retryCount row \<le> kr_maxRetries row)"
proof -
  obtain deps where deps: "dev_process = Durable deps"
    using dev_process_durable by (elim exE)
  obtain input :: commit_input and r and sys where
    "(worker_step empty_config sample_readers no_add)\<^sup>*\<^sup>* (started 4 pending_db) sys"
    by (rule sample_reachable)
  then have reach: "(system_step empty_config sample_readers no_add deps)\<^sup>*\<^sup>* (started 4 pending_db) sys"
    by (rule mono_rtranclp [rule_format, rotated]) (rule system_step.works)
  have "\<forall>row \<in> set (db_tasks (sy_db sys)). kr_retryCount row \<le> kr_maxRetries row"
    by (rule ballI) (rule task_history_exact [OF deps [unfolded dev_process_def] empty_reliable pending_consistent reach,
        THEN conjunct2, THEN conjunct2])
  with deps reach show ?thesis by (intro exI conjI)
qed

end
